theory Spec2Isabelle
  imports Complex_Main
begin

section \<open>Numbers, dates and strings of the host language\<close>

text \<open>
  The program is TypeScript. Its \<open>number\<close> values are modelled as follows: money amounts and
  rates are \<^typ>\<open>real\<close> (exact arithmetic, without the rounding of IEEE doubles; the discount
  sum also has a reading in binary64 arithmetic, in a section of its own), years, months, month
  offsets and installment counts are \<^typ>\<open>int\<close>. A division by zero, which in
  JavaScript yields an infinity or NaN and never throws, is HOL's total division in the model;
  the theorems below either exclude a zero divisor by hypothesis or do not depend on the
  quotient. A \<open>Date\<close> whose day is 1 is modelled by its month count \<open>12 * year + monthIndex\<close>.
\<close>

type_synonym jsdate = int

definition newDate :: "int \<Rightarrow> int \<Rightarrow> jsdate" where
  \<comment> \<open>\<open>new Date(year, monthIndex, 1)\<close>: a year from 0 to 99 means 1900 + year; the month index
      may lie outside 0..11 and carries into the year.\<close>
  "newDate year monthIndex = (if 0 \<le> year \<and> year \<le> 99 then 1900 + year else year) * 12 + monthIndex"

definition getFullYear :: "jsdate \<Rightarrow> int" where
  "getFullYear d = d div 12"

definition getMonth :: "jsdate \<Rightarrow> int" where
  "getMonth d = d mod 12"

definition setMonth :: "jsdate \<Rightarrow> int \<Rightarrow> jsdate" where
  \<comment> \<open>\<open>d.setMonth(m)\<close>: keeps the year of \<open>d\<close>, the month index carries.\<close>
  "setMonth d m = getFullYear d * 12 + m"

definition digit_char :: "nat \<Rightarrow> char" where
  "digit_char n = ''0123456789'' ! n"

fun string_of_nat :: "nat \<Rightarrow> string" where
  "string_of_nat n = (if n < 10 then [digit_char n] else string_of_nat (n div 10) @ [digit_char (n mod 10)])"

declare string_of_nat.simps [simp del]

definition string_of_int :: "int \<Rightarrow> string" where
  \<comment> \<open>\<open>String(i)\<close> and the template literal of an integer.\<close>
  "string_of_int i = (if i < 0 then CHR ''-'' # string_of_nat (nat (- i)) else string_of_nat (nat i))"

definition padStart2 :: "string \<Rightarrow> string" where
  \<comment> \<open>\<open>s.padStart(2, '0')\<close>\<close>
  "padStart2 s = replicate (2 - length s) CHR ''0'' @ s"

definition is_digit :: "char \<Rightarrow> bool" where
  "is_digit c = (48 \<le> (of_char c :: nat) \<and> (of_char c :: nat) \<le> 57)"

definition digit_val :: "char \<Rightarrow> nat" where
  "digit_val c = of_char c - 48"

definition nat_of_digits :: "string \<Rightarrow> nat" where
  "nat_of_digits s = foldl (\<lambda>acc c. 10 * acc + digit_val c) 0 s"

fun split_on :: "char \<Rightarrow> string \<Rightarrow> string list" where
  \<comment> \<open>\<open>s.split(c)\<close>\<close>
  "split_on c [] = [[]]"
| "split_on c (x # xs) =
     (if x = c then [] # split_on c xs
      else (case split_on c xs of [] \<Rightarrow> [[x]] | p # ps \<Rightarrow> (x # p) # ps))"

definition Number :: "string \<Rightarrow> int option" where
  \<comment> \<open>\<open>Number(s)\<close> on the pieces of a schedule date: the empty string is 0, a string of decimal
      digits is its value; every other string is modelled as NaN (\<open>None\<close>).\<close>
  "Number s = (if list_all is_digit s then Some (int (nat_of_digits s)) else None)"

section \<open>The solver (npv-calculator)\<close>

record NPVInputs =
  targetPv :: "real option"
  targetNominal :: "real option"
  monthlyRate :: real
  downAmount :: real
  downYear :: int
  downMonth :: int
  nInstallments :: int
  startYear :: int
  startMonth :: int

datatype entry_type = installment | down_payment

record ScheduleEntry =
  date :: string
  amount :: real
  type :: entry_type

text \<open>
  The field \<open>presentValue\<close> of a model's result is named \<open>presentValue_fld\<close> here, the name
  \<open>presentValue\<close> being the discounting function's. It is \<open>None\<close> where the source computes NaN
  from a schedule date it cannot read back.
\<close>

record ModelResult =
  monthlyInstallment :: real
  nominalTotal :: real
  presentValue_fld :: "real option"
  schedule :: "ScheduleEntry list"

record NPVResult =
  modelA :: ModelResult
  modelB :: ModelResult
  downPaymentPV :: real
  downPaymentDate :: string

datatype error = Error_target_missing

definition monthsBetween :: "int \<Rightarrow> int \<Rightarrow> int \<Rightarrow> int \<Rightarrow> int" where
  "monthsBetween startYear' startMonth' endYear endMonth =
     (endYear - startYear') * 12 + (endMonth - startMonth')"

definition presentValue :: "real \<Rightarrow> int \<Rightarrow> real \<Rightarrow> real" where
  "presentValue amount' monthsAhead r = amount' / power_int (1 + r) monthsAhead"

text \<open>
  The loop of \<open>geometricSumDiscount\<close>, in exact arithmetic. The same loop in the arithmetic of
  the program is \<open>geometricSumDiscount_f64_loop\<close> below.
\<close>

function geometricSumDiscount_loop ::
  "int \<Rightarrow> real \<Rightarrow> int \<Rightarrow> int option \<Rightarrow> int \<Rightarrow> real \<Rightarrow> real" where
  "geometricSumDiscount_loop n r startMonth' skipIndex i acc =
     (if i < n then
        (let k = startMonth' + i in
         if skipIndex = Some k then geometricSumDiscount_loop n r startMonth' skipIndex (i + 1) acc
         else geometricSumDiscount_loop n r startMonth' skipIndex (i + 1)
                (acc + 1 / power_int (1 + r) k))
      else acc)"
  by pat_completeness auto
termination
  by (relation "measure (\<lambda>(n, r, s, sk, i, acc). nat (n - i))") auto

declare geometricSumDiscount_loop.simps [simp del]

definition geometricSumDiscount :: "int \<Rightarrow> real \<Rightarrow> int \<Rightarrow> int option \<Rightarrow> real" where
  "geometricSumDiscount n r startMonth' skipIndex = geometricSumDiscount_loop n r startMonth' skipIndex 0 0"

definition dateStr :: "jsdate \<Rightarrow> string" where
  \<comment> \<open>the template \<open>`${d.getFullYear()}-${String(d.getMonth() + 1).padStart(2, '0')}`\<close>\<close>
  "dateStr d = string_of_int (getFullYear d) @ ''-'' @ padStart2 (string_of_int (getMonth d + 1))"

definition installment_entry :: "jsdate \<Rightarrow> real \<Rightarrow> ScheduleEntry" where
  "installment_entry d T = \<lparr> date = dateStr d, amount = T, type = installment \<rparr>"

definition scheduleConcurrent :: "NPVInputs \<Rightarrow> real \<Rightarrow> ScheduleEntry list" where
  "scheduleConcurrent inp T =
     (let startDate = newDate (startYear inp) (startMonth inp - 1)
      in map (\<lambda>k. installment_entry (setMonth startDate (getMonth startDate + k)) T)
             [1 .. nInstallments inp])"

function scheduleSkip_loop ::
  "int \<Rightarrow> int \<Rightarrow> jsdate \<Rightarrow> real \<Rightarrow> int \<Rightarrow> int \<Rightarrow> ScheduleEntry list \<Rightarrow> ScheduleEntry list" where
  "scheduleSkip_loop n t startDate T paid k sched =
     (if paid < n then
        (if k = t then scheduleSkip_loop n t startDate T paid (k + 1) sched
         else scheduleSkip_loop n t startDate T (paid + 1) (k + 1)
                (sched @ [installment_entry (setMonth startDate (getMonth startDate + k)) T]))
      else sched)"
  by pat_completeness auto
termination
  by (relation "measure (\<lambda>(n, t, sd, T, paid, k, sched). nat (2 * (n - paid)) + (if k \<le> t then 1 else 0))")
     auto

declare scheduleSkip_loop.simps [simp del]

definition scheduleSkip :: "NPVInputs \<Rightarrow> real \<Rightarrow> ScheduleEntry list" where
  "scheduleSkip inp T =
     (let t = monthsBetween (startYear inp) (startMonth inp) (downYear inp) (downMonth inp);
          startDate = newDate (startYear inp) (startMonth inp - 1)
      in scheduleSkip_loop (nInstallments inp) t startDate T 0 1 [])"

definition entry_months :: "jsdate \<Rightarrow> string \<Rightarrow> int option" where
  \<comment> \<open>the loop body of \<open>pvOfSchedule\<close> up to the month offset: split the date at the dashes, read
      the first two pieces as numbers, build the date and subtract the start.\<close>
  "entry_months start s =
     (case map Number (split_on CHR ''-'' s) of
        Some year # Some month # _ \<Rightarrow>
          (let dt = newDate year (month - 1)
           in Some ((getFullYear dt - getFullYear start) * 12 + (getMonth dt - getMonth start)))
      | _ \<Rightarrow> None)"

fun pvOfSchedule_loop :: "jsdate \<Rightarrow> real \<Rightarrow> ScheduleEntry list \<Rightarrow> real option \<Rightarrow> real option" where
  "pvOfSchedule_loop start r [] pv = pv"
| "pvOfSchedule_loop start r (entry # rest) pv =
     pvOfSchedule_loop start r rest
       (case (pv, entry_months start (date entry)) of
          (Some v, Some months) \<Rightarrow> Some (v + presentValue (amount entry) months r)
        | _ \<Rightarrow> None)"

definition pvOfSchedule :: "ScheduleEntry list \<Rightarrow> NPVInputs \<Rightarrow> real option" where
  "pvOfSchedule sched inp =
     pvOfSchedule_loop (newDate (startYear inp) (startMonth inp - 1)) (monthlyRate inp) sched (Some 0)"

definition add_opt :: "real \<Rightarrow> real option \<Rightarrow> real option" where
  "add_opt x y = map_option (\<lambda>v. x + v) y"

definition calculateNPV :: "NPVInputs \<Rightarrow> error + NPVResult" where
  "calculateNPV inputs =
     (let t = monthsBetween (startYear inputs) (startMonth inputs) (downYear inputs) (downMonth inputs);
          pvDown = presentValue (downAmount inputs) t (monthlyRate inputs);
          downDate = string_of_int (downYear inputs) @ ''-'' @ padStart2 (string_of_int (downMonth inputs))
      in case targetPv inputs of
           Some tpv \<Rightarrow>
             (let remainingPv = tpv - pvDown;
                  sCon = geometricSumDiscount (nInstallments inputs) (monthlyRate inputs) 1 None;
                  tCon = remainingPv / sCon;
                  schedCon = scheduleConcurrent inputs tCon;
                  pvCon = add_opt pvDown (pvOfSchedule schedCon inputs);
                  nominalCon = downAmount inputs + tCon * real_of_int (nInstallments inputs);
                  skipIdx = (if 1 \<le> t \<and> t \<le> nInstallments inputs + 1 then Some t else None);
                  sSkip = geometricSumDiscount (nInstallments inputs + 1) (monthlyRate inputs) 1 skipIdx;
                  tSkip = remainingPv / sSkip;
                  schedSkip = scheduleSkip inputs tSkip;
                  pvSkip = add_opt pvDown (pvOfSchedule schedSkip inputs);
                  nominalSkip = downAmount inputs + tSkip * real_of_int (nInstallments inputs)
              in Inr \<lparr> modelA = \<lparr> monthlyInstallment = tCon, nominalTotal = nominalCon,
                                  presentValue_fld = pvCon, schedule = schedCon \<rparr>,
                       modelB = \<lparr> monthlyInstallment = tSkip, nominalTotal = nominalSkip,
                                  presentValue_fld = pvSkip, schedule = schedSkip \<rparr>,
                       downPaymentPV = pvDown, downPaymentDate = downDate \<rparr>)
         | None \<Rightarrow>
             (case targetNominal inputs of
                Some tnom \<Rightarrow>
                  (let tCommon = (tnom - downAmount inputs) / real_of_int (nInstallments inputs);
                       schedCon = scheduleConcurrent inputs tCommon;
                       pvCon = add_opt pvDown (pvOfSchedule schedCon inputs);
                       schedSkip = scheduleSkip inputs tCommon;
                       pvSkip = add_opt pvDown (pvOfSchedule schedSkip inputs)
                   in Inr \<lparr> modelA = \<lparr> monthlyInstallment = tCommon, nominalTotal = tnom,
                                       presentValue_fld = pvCon, schedule = schedCon \<rparr>,
                            modelB = \<lparr> monthlyInstallment = tCommon, nominalTotal = tnom,
                                       presentValue_fld = pvSkip, schedule = schedSkip \<rparr>,
                            downPaymentPV = pvDown, downPaymentDate = downDate \<rparr>)
              | None \<Rightarrow> Inl Error_target_missing))"

definition annualToMonthlyRate :: "real \<Rightarrow> real" where
  "annualToMonthlyRate annualRate = (1 + annualRate) powr (1 / 12) - 1"

subsection \<open>The offsets of Model B, for the proofs\<close>

text \<open>
  Not a function of the source: the first \<open>m\<close> month offsets from \<open>k\<close> on that differ from
  the offset \<open>t\<close> of the down payment. The proofs show that the loop of \<open>scheduleSkip\<close>
  places its installments at these offsets.
\<close>

primrec next_offsets :: "nat \<Rightarrow> int \<Rightarrow> int \<Rightarrow> int list" where
  "next_offsets 0 t k = []"
| "next_offsets (Suc m) t k =
     (if k = t then (k + 1) # next_offsets m t (k + 2) else k # next_offsets m t (k + 1))"

subsection \<open>Example inputs of the solver\<close>

definition inp_offset0 :: NPVInputs where
  \<comment> \<open>down payment due in the start month (offset 0), one installment, rate 0\<close>
  "inp_offset0 = \<lparr> targetPv = Some 300, targetNominal = None, monthlyRate = 0, downAmount = 100,
      downYear = 2026, downMonth = 11, nInstallments = 1, startYear = 2026, startMonth = 11 \<rparr>"

definition inp_no_installments :: NPVInputs where
  "inp_no_installments = \<lparr> targetPv = Some 1000, targetNominal = None, monthlyRate = 2 / 100,
      downAmount = 100, downYear = 2026, downMonth = 12, nInstallments = 0, startYear = 2026,
      startMonth = 11 \<rparr>"

definition inp_no_target :: NPVInputs where
  "inp_no_target = \<lparr> targetPv = None, targetNominal = None, monthlyRate = 2 / 100,
      downAmount = 100, downYear = 2026, downMonth = 12, nInstallments = 24, startYear = 2026,
      startMonth = 11 \<rparr>"

definition inp_skip :: NPVInputs where
  \<comment> \<open>down payment due one month after the start: the skip falls on the first installment month\<close>
  "inp_skip = \<lparr> targetPv = Some 1000000, targetNominal = None, monthlyRate = 2 / 100,
      downAmount = 300000, downYear = 2026, downMonth = 12, nInstallments = 2, startYear = 2026,
      startMonth = 11 \<rparr>"

definition inp_two_digit_year :: NPVInputs where
  \<comment> \<open>a start year below 100, which \<open>Date\<close> reads as 1999; down payment due in January 2000\<close>
  "inp_two_digit_year = \<lparr> targetPv = Some 300, targetNominal = None, monthlyRate = 0,
      downAmount = 100, downYear = 2000, downMonth = 1, nInstallments = 2, startYear = 99,
      startMonth = 11 \<rparr>"
section \<open>The discount sum in binary64 arithmetic\<close>

text \<open>
  The numbers of the program are IEEE 754 binary64. A double is modelled by the real number it
  stands for (\<open>Finite\<close>; what the operations return is always a number that binary64
  represents), the negative zero, the two infinities, or NaN. Rounding is to nearest, ties to
  even, with subnormal numbers and overflow to an infinity.
\<close>

datatype f64 = Finite real | NegZero | PosInf | NegInf | NaN

definition round_half_even :: "real \<Rightarrow> int" where
  \<comment> \<open>the nearest integer, a tie going to the even one\<close>
  "round_half_even x =
     (let f = \<lfloor>x\<rfloor> in
      if x - of_int f < 1 / 2 then f
      else if 1 / 2 < x - of_int f then f + 1
      else if even f then f else f + 1)"

definition min_exponent :: int where
  \<comment> \<open>the exponent of the smallest normal double, \<open>2 powi - 1022\<close>\<close>
  "min_exponent = - 1022"

definition exponent :: "real \<Rightarrow> int" where
  \<comment> \<open>the binary exponent of a number other than 0; below the normal range it stays at
      \<open>min_exponent\<close> (the subnormal doubles are equally spaced)\<close>
  "exponent x = max min_exponent \<lfloor>log 2 \<bar>x\<bar>\<rfloor>"

definition quantum :: "real \<Rightarrow> real" where
  \<comment> \<open>the distance between neighbouring doubles at \<open>x\<close>: 52 bits below the leading one\<close>
  "quantum x = power_int 2 (exponent x - 52)"

definition rnd :: "real \<Rightarrow> real" where
  \<comment> \<open>round to nearest, ties to even, before the test for overflow\<close>
  "rnd x = (if x = 0 then 0 else of_int (round_half_even (x / quantum x)) * quantum x)"

definition max_exponent :: int where
  \<comment> \<open>a rounded magnitude of \<open>2 powi 1024\<close> or more is an infinity\<close>
  "max_exponent = 1024"

definition fl :: "real \<Rightarrow> f64" where
  \<comment> \<open>the double that an operation returns for the exact result \<open>x\<close>; a negative result
      that rounds to zero is \<open>-0\<close>\<close>
  "fl x = (let y = rnd x in
           if power_int 2 max_exponent \<le> y then PosInf
           else if y \<le> - power_int 2 max_exponent then NegInf
           else if y = 0 \<and> x < 0 then NegZero
           else Finite y)"

fun value_of :: "f64 \<Rightarrow> real" where
  \<comment> \<open>the number a finite double stands for; read only where the double is finite\<close>
  "value_of (Finite x) = x"
| "value_of _ = 0"

definition is_inf :: "f64 \<Rightarrow> bool" where
  "is_inf a = (a = PosInf \<or> a = NegInf)"

definition is_zero :: "f64 \<Rightarrow> bool" where
  "is_zero a = (a = Finite 0 \<or> a = NegZero)"

definition is_neg :: "f64 \<Rightarrow> bool" where
  \<comment> \<open>the sign bit\<close>
  "is_neg a = (case a of Finite x \<Rightarrow> x < 0 | NegZero \<Rightarrow> True | NegInf \<Rightarrow> True | _ \<Rightarrow> False)"

definition add_f64 :: "f64 \<Rightarrow> f64 \<Rightarrow> f64" where
  \<comment> \<open>\<open>a + b\<close> on numbers: an exact sum of zero is \<open>+0\<close>, unless both operands are \<open>-0\<close>\<close>
  "add_f64 a b =
     (if a = NaN \<or> b = NaN then NaN
      else if (a = PosInf \<and> b = NegInf) \<or> (a = NegInf \<and> b = PosInf) then NaN
      else if a = PosInf \<or> b = PosInf then PosInf
      else if a = NegInf \<or> b = NegInf then NegInf
      else if a = NegZero \<and> b = NegZero then NegZero
      else if value_of a + value_of b = 0 then Finite 0
      else fl (value_of a + value_of b))"

definition div_f64 :: "f64 \<Rightarrow> f64 \<Rightarrow> f64" where
  \<comment> \<open>\<open>a / b\<close> on numbers: it never throws; a zero divisor gives an infinity or NaN\<close>
  "div_f64 a b =
     (if a = NaN \<or> b = NaN then NaN
      else if is_inf a \<and> is_inf b then NaN
      else if is_zero a \<and> is_zero b then NaN
      else if is_inf a \<or> is_zero b then (if is_neg a \<noteq> is_neg b then NegInf else PosInf)
      else if is_zero a \<or> is_inf b then (if is_neg a \<noteq> is_neg b then NegZero else Finite 0)
      else fl (value_of a / value_of b))"

definition le_f64 :: "f64 \<Rightarrow> f64 \<Rightarrow> bool" where
  \<comment> \<open>\<open>a <= b\<close> on numbers: false when an operand is NaN, and \<open>-0\<close> equals \<open>+0\<close>\<close>
  "le_f64 a b =
     (a \<noteq> NaN \<and> b \<noteq> NaN
      \<and> (a = NegInf \<or> b = PosInf \<or> (\<not> is_inf a \<and> \<not> is_inf b \<and> value_of a \<le> value_of b)))"

definition lt_f64 :: "f64 \<Rightarrow> f64 \<Rightarrow> bool" where
  \<comment> \<open>\<open>a < b\<close> on numbers\<close>
  "lt_f64 a b = (le_f64 a b \<and> \<not> le_f64 b a)"

definition nonneg :: "f64 \<Rightarrow> bool" where
  \<comment> \<open>a condition of the theorems: \<open>+0\<close>, a positive number or \<open>+Infinity\<close>\<close>
  "nonneg a = (case a of Finite x \<Rightarrow> 0 \<le> x | PosInf \<Rightarrow> True | _ \<Rightarrow> False)"

definition is_double :: "f64 \<Rightarrow> bool" where
  \<comment> \<open>a condition of the theorems: a finite value is one that binary64 represents\<close>
  "is_double a = (case a of Finite x \<Rightarrow> rnd x = x \<and> \<bar>x\<bar> < power_int 2 max_exponent | _ \<Rightarrow> True)"

definition Math_pow :: "f64 \<Rightarrow> int \<Rightarrow> f64" where
  \<comment> \<open>\<open>Math.pow(b, k)\<close> for an integer \<open>k\<close>, with the special cases of ECMAScript and, where
      ECMAScript asks for an approximation only, the correctly rounded power\<close>
  "Math_pow b k =
     (if k = 0 then Finite 1
      else case b of
        NaN \<Rightarrow> NaN
      | PosInf \<Rightarrow> if 0 < k then PosInf else Finite 0
      | NegInf \<Rightarrow> if 0 < k then (if odd k then NegInf else PosInf)
                  else (if odd k then NegZero else Finite 0)
      | NegZero \<Rightarrow> if 0 < k then (if odd k then NegZero else Finite 0)
                   else (if odd k then NegInf else PosInf)
      | Finite x \<Rightarrow> if x = 0 then (if 0 < k then Finite 0 else PosInf)
                    else fl (power_int x k))"

text \<open>
  \<open>geometricSumDiscount\<close> once more, now with the arithmetic of the program: \<open>sum\<close>, \<open>r\<close> and
  the terms are doubles, \<open>1 + r\<close>, the division and \<open>sum += ...\<close> round. \<open>Math.pow\<close> is a
  parameter \<open>pw\<close>: ECMAScript leaves the precision of its result to the implementation. The
  counters \<open>n\<close>, \<open>i\<close>, \<open>k\<close> and \<open>skipIndex\<close> are integers, as in the exact reading above; up
  to \<open>2 ^ 53\<close> the program's arithmetic on them is exact.
\<close>

function geometricSumDiscount_f64_loop ::
  "(f64 \<Rightarrow> int \<Rightarrow> f64) \<Rightarrow> int \<Rightarrow> f64 \<Rightarrow> int \<Rightarrow> int option \<Rightarrow> int \<Rightarrow> f64 \<Rightarrow> f64" where
  "geometricSumDiscount_f64_loop pw n r startMonth' skipIndex i acc =
     (if i < n then
        (let k = startMonth' + i in
         if skipIndex = Some k
         then geometricSumDiscount_f64_loop pw n r startMonth' skipIndex (i + 1) acc
         else geometricSumDiscount_f64_loop pw n r startMonth' skipIndex (i + 1)
                (add_f64 acc (div_f64 (Finite 1) (pw (add_f64 (Finite 1) r) k))))
      else acc)"
  by pat_completeness auto
termination
  by (relation "measure (\<lambda>(pw, n, r, s, sk, i, acc). nat (n - i))") auto

declare geometricSumDiscount_f64_loop.simps [simp del]

definition geometricSumDiscount_f64 ::
  "(f64 \<Rightarrow> int \<Rightarrow> f64) \<Rightarrow> int \<Rightarrow> f64 \<Rightarrow> int \<Rightarrow> int option \<Rightarrow> f64" where
  "geometricSumDiscount_f64 pw n r startMonth' skipIndex =
     geometricSumDiscount_f64_loop pw n r startMonth' skipIndex 0 (Finite 0)"

definition pow_monotone :: "(f64 \<Rightarrow> int \<Rightarrow> f64) \<Rightarrow> bool" where
  \<comment> \<open>a condition of the theorems on \<open>Math.pow\<close>: for an exponent \<open>k \<ge> 1\<close>, on the doubles
      from \<open>+0\<close> to \<open>+Infinity\<close> the result is one of them and does not decrease with the base\<close>
  "pow_monotone pw =
     (\<forall>a b k. is_double a \<and> is_double b \<and> nonneg a \<and> nonneg b \<and> le_f64 a b \<and> 1 \<le> k
        \<longrightarrow> nonneg (pw a k) \<and> le_f64 (pw a k) (pw b k))"

definition pow_exact_at_one :: "(f64 \<Rightarrow> int \<Rightarrow> f64) \<Rightarrow> bool" where
  \<comment> \<open>a condition of the theorems on \<open>Math.pow\<close>: a power of 1 is 1\<close>
  "pow_exact_at_one pw = (\<forall>k. 1 \<le> k \<longrightarrow> pw (Finite 1) k = Finite 1)"



section \<open>The conversation engine (chatbot): strings and slot parsers\<close>

text \<open>
  An utterance is a \<^typ>\<open>string\<close>: the bytes of its UTF-8 encoding, so that the Turkish letters
  of the keywords are two bytes each. \<open>toLowerCase\<close> and \<open>toUpperCase\<close> fold the ASCII letters
  only, and white space is ASCII white space. \<open>parseInt\<close> and \<open>parseFloat\<close> give the exact
  value of the digits they read.
\<close>

definition is_space :: "char \<Rightarrow> bool" where
  "is_space c = (c \<in> set [CHR '' '', CHR 0x09, CHR 0x0A, CHR 0x0B, CHR 0x0C, CHR 0x0D])"

definition is_alpha :: "char \<Rightarrow> bool" where
  \<comment> \<open>the class \<open>[A-Z]\<close> under the flag \<open>i\<close>\<close>
  "is_alpha c = ((65 \<le> (of_char c :: nat) \<and> (of_char c :: nat) \<le> 90)
               \<or> (97 \<le> (of_char c :: nat) \<and> (of_char c :: nat) \<le> 122))"

definition is_alnum :: "char \<Rightarrow> bool" where
  \<comment> \<open>the class \<open>[A-Z0-9]\<close> under the flag \<open>i\<close>\<close>
  "is_alnum c = (is_alpha c \<or> is_digit c)"

definition lower_char :: "char \<Rightarrow> char" where
  "lower_char c = (case map_of (zip ''ABCDEFGHIJKLMNOPQRSTUVWXYZ'' ''abcdefghijklmnopqrstuvwxyz'') c of
                     Some l \<Rightarrow> l | None \<Rightarrow> c)"

definition upper_char :: "char \<Rightarrow> char" where
  "upper_char c = (case map_of (zip ''abcdefghijklmnopqrstuvwxyz'' ''ABCDEFGHIJKLMNOPQRSTUVWXYZ'') c of
                     Some u \<Rightarrow> u | None \<Rightarrow> c)"

definition toLowerCase :: "string \<Rightarrow> string" where
  \<comment> \<open>\<open>s.toLowerCase()\<close> on the ASCII letters. A letter outside ASCII (two bytes or more here)
      is left as it is; the source folds it too, so an utterance in upper-case Turkish letters
      is folded further in the source than here.\<close>
  "toLowerCase s = map lower_char s"

definition toUpperCase :: "string \<Rightarrow> string" where
  \<comment> \<open>\<open>s.toUpperCase()\<close> on the ASCII letters, as \<open>toLowerCase\<close>\<close>
  "toUpperCase s = map upper_char s"

definition trim :: "string \<Rightarrow> string" where
  \<comment> \<open>\<open>s.trim()\<close> on ASCII white space. The source also strips the white space outside
      ASCII (the no-break space, the Unicode space separators, the byte-order mark).\<close>
  "trim s = rev (dropWhile is_space (rev (dropWhile is_space s)))"

fun starts_with :: "string \<Rightarrow> string \<Rightarrow> bool" where
  "starts_with s [] = True"
| "starts_with [] (p # ps) = False"
| "starts_with (x # xs) (p # ps) = (x = p \<and> starts_with xs ps)"

fun includesStr :: "string \<Rightarrow> string \<Rightarrow> bool" where
  \<comment> \<open>\<open>s.includes(p)\<close>\<close>
  "includesStr [] p = (p = [])"
| "includesStr (x # xs) p = (starts_with (x # xs) p \<or> includesStr xs p)"

definition parseInt :: "string \<Rightarrow> int" where
  \<comment> \<open>\<open>parseInt\<close> of a non-empty string of decimal digits\<close>
  "parseInt ds = int (nat_of_digits ds)"

definition parseFloat :: "string \<Rightarrow> real option" where
  \<comment> \<open>\<open>parseFloat\<close> on a string over digits, dots and commas: the longest prefix of the form
      digits, or digits dot digits; \<open>None\<close> is NaN (no digit to read). The value is the exact
      value of the digits; the source rounds it to the nearest double.\<close>
  "parseFloat s =
     (let ip = takeWhile is_digit s; r = dropWhile is_digit s;
          fp = (case r of c # r' \<Rightarrow> if c = CHR ''.'' then takeWhile is_digit r' else [] | [] \<Rightarrow> [])
      in if ip = [] \<and> fp = [] then None
         else Some (real (nat_of_digits ip) + real (nat_of_digits fp) / 10 ^ length fp))"

fun replace_first :: "char \<Rightarrow> char \<Rightarrow> string \<Rightarrow> string" where
  \<comment> \<open>\<open>s.replace(a, b)\<close> with one-character strings: the first occurrence only\<close>
  "replace_first a b [] = []"
| "replace_first a b (x # xs) = (if x = a then b # xs else x # replace_first a b xs)"

text \<open>
  A regular expression without the flag \<open>g\<close> matches at the leftmost position where a match
  exists. \<open>regex_search\<close> tries a matcher at every position from the left. Each matcher below
  takes the longest run for every starred class; in these expressions the character that must
  follow a run is never in the run's class, so a shorter run cannot succeed where the longest
  fails and the matcher decides the position as the backtracking engine does.
\<close>

fun regex_search :: "(string \<Rightarrow> 'a option) \<Rightarrow> string \<Rightarrow> 'a option" where
  "regex_search m [] = m []"
| "regex_search m (x # xs) = (case m (x # xs) of Some r \<Rightarrow> Some r | None \<Rightarrow> regex_search m xs)"

definition m_digits4 :: "string \<Rightarrow> string option" where
  \<comment> \<open>\<open>(\d{4})\<close>\<close>
  "m_digits4 s = (if length (takeWhile is_digit (take 4 s)) = 4 then Some (take 4 s) else None)"

definition m_digits12 :: "string \<Rightarrow> string option" where
  \<comment> \<open>\<open>(\d{1,2})\<close>\<close>
  "m_digits12 s = (case takeWhile is_digit (take 2 s) of [] \<Rightarrow> None | ds \<Rightarrow> Some ds)"

definition m_digits :: "string \<Rightarrow> string option" where
  \<comment> \<open>\<open>(\d+)\<close>\<close>
  "m_digits s = (case takeWhile is_digit s of [] \<Rightarrow> None | ds \<Rightarrow> Some ds)"

definition is_numchar :: "char \<Rightarrow> bool" where
  \<comment> \<open>the class \<open>[\d.,]\<close>\<close>
  "is_numchar c = (is_digit c \<or> c = CHR ''.'' \<or> c = CHR '','')"

definition m_number :: "string \<Rightarrow> string option" where
  \<comment> \<open>\<open>(\d+[\d.,]*)\<close>\<close>
  "m_number s = (case s of [] \<Rightarrow> None
                 | c # _ \<Rightarrow> if is_digit c then Some (takeWhile is_numchar s) else None)"

definition m_digits_ay :: "string \<Rightarrow> string option" where
  \<comment> \<open>\<open>(\d+)\s*ay\<close> under the flag \<open>i\<close>\<close>
  "m_digits_ay s =
     (case takeWhile is_digit s of [] \<Rightarrow> None
      | ds \<Rightarrow> if starts_with (toLowerCase (dropWhile is_space (dropWhile is_digit s))) ''ay''
              then Some ds else None)"

definition m_percent :: "string \<Rightarrow> (string \<times> string) option" where
  \<comment> \<open>\<open>(%?\s*)(\d+[\d.,]*)\s*%\<close>: the two groups. The expression \<open>(%?\s*\d+[\d.,]*)\s*%\<close> of
      the annual branch matches at the same positions; its one group is the two joined.\<close>
  "m_percent s =
     (let p = (case s of c # _ \<Rightarrow> if c = CHR ''%'' then [c] else [] | [] \<Rightarrow> []);
          s1 = drop (length p) s;
          ws = takeWhile is_space s1;
          s2 = dropWhile is_space s1
      in case m_number s2 of None \<Rightarrow> None
         | Some num \<Rightarrow>
             (case dropWhile is_space (drop (length num) s2) of
                c # _ \<Rightarrow> if c = CHR ''%'' then Some (p @ ws, num) else None
              | [] \<Rightarrow> None))"

definition m_evid :: "string \<Rightarrow> (string \<times> string) option" where
  \<comment> \<open>\<open>[A-Z]+-[A-Z0-9]+-\d+\<close> under the flag \<open>i\<close>: the match and the rest of the string\<close>
  "m_evid s =
     (let a = takeWhile is_alpha s; r1 = dropWhile is_alpha s in
      if a = [] then None else
      case r1 of [] \<Rightarrow> None
      | c1 # r2 \<Rightarrow>
          if c1 \<noteq> CHR ''-'' then None else
          let b = takeWhile is_alnum r2; r3 = dropWhile is_alnum r2 in
          if b = [] then None else
          case r3 of [] \<Rightarrow> None
          | c2 # r4 \<Rightarrow>
              if c2 \<noteq> CHR ''-'' then None else
              let d = takeWhile is_digit r4; r5 = dropWhile is_digit r4 in
              if d = [] then None else Some (a @ ''-'' @ b @ ''-'' @ d, r5))"

definition evIdPattern_test :: "string \<Rightarrow> bool" where
  \<comment> \<open>\<open>/^[A-Z]+-[A-Z0-9]+-\d+$/i.test(s)\<close>\<close>
  "evIdPattern_test s = (case m_evid s of Some (_, rest) \<Rightarrow> rest = [] | None \<Rightarrow> False)"

definition parseYear :: "string \<Rightarrow> int option" where
  "parseYear input =
     (case regex_search m_digits4 (trim input) of
        Some ds \<Rightarrow> (let year = parseInt ds in if year > 2000 \<and> year < 2100 then Some year else None)
      | None \<Rightarrow> None)"

definition monthNames :: "(string \<times> int) list" where
  \<comment> \<open>ocak, \c{s}ubat, mart, nisan, may{\i}s, haziran, temmuz, a\u{g}ustos, eyl\"ul, ekim, kas{\i}m,
      aral{\i}k\<close>
  "monthNames =
     [(''ocak'', 1), ([CHR 0xC5, CHR 0x9F] @ ''ubat'', 2), (''mart'', 3), (''nisan'', 4),
      (''may'' @ [CHR 0xC4, CHR 0xB1] @ ''s'', 5), (''haziran'', 6), (''temmuz'', 7),
      (''a'' @ [CHR 0xC4, CHR 0x9F] @ ''ustos'', 8), (''eyl'' @ [CHR 0xC3, CHR 0xBC] @ ''l'', 9),
      (''ekim'', 10), (''kas'' @ [CHR 0xC4, CHR 0xB1] @ ''m'', 11),
      (''aral'' @ [CHR 0xC4, CHR 0xB1] @ ''k'', 12)]"

definition parseMonth :: "string \<Rightarrow> int option" where
  "parseMonth input =
     (let trimmed = toLowerCase (trim input);
          byNumber = (case regex_search m_digits12 trimmed of
                        Some ds \<Rightarrow> (let month = parseInt ds
                                    in if month \<ge> 1 \<and> month \<le> 12 then Some month else None)
                      | None \<Rightarrow> None)
      in case byNumber of
           Some month \<Rightarrow> Some month
         | None \<Rightarrow> map_option snd (find (\<lambda>(name, month). includesStr trimmed name) monthNames))"

definition parseAmount :: "string \<Rightarrow> real option" where
  \<comment> \<open>the tests \<open>!isNaN(amount) && isFinite(amount)\<close> are the case \<open>Some\<close>: an exact value
      is finite, where the source reads a digit string too long for a double as no amount\<close>
  "parseAmount input =
     (let trimmed = trim input in
      if evIdPattern_test trimmed then None
      else let numbersOnly = filter is_digit trimmed in
           if length numbersOnly = 0 then None
           else case parseFloat numbersOnly of
                  Some amount' \<Rightarrow> if amount' > 0 then Some amount' else None
                | None \<Rightarrow> None)"

definition parseInstallments :: "string \<Rightarrow> int option" where
  \<comment> \<open>\<open>/(\d+)\s*(ay|taksit)?/i\<close>: the optional group never changes the first group\<close>
  "parseInstallments input =
     (case regex_search m_digits input of
        Some ds \<Rightarrow> (let count = parseInt ds in if count > 0 then Some count else None)
      | None \<Rightarrow> None)"

definition kw_yillik :: string where
  \<comment> \<open>y{\i}ll{\i}k\<close>
  "kw_yillik = ''y'' @ [CHR 0xC4, CHR 0xB1] @ ''ll'' @ [CHR 0xC4, CHR 0xB1] @ ''k''"

definition kw_yil :: string where
  \<comment> \<open>y{\i}l\<close>
  "kw_yil = ''y'' @ [CHR 0xC4, CHR 0xB1] @ ''l''"

definition kw_aylik :: string where
  \<comment> \<open>ayl{\i}k\<close>
  "kw_aylik = ''ayl'' @ [CHR 0xC4, CHR 0xB1] @ ''k''"

definition rate_positive :: "bool \<Rightarrow> real option \<Rightarrow> (real \<times> bool) option" where
  \<comment> \<open>\<open>rate > 0 ? { rate, isAnnual } : null\<close>, false for NaN\<close>
  "rate_positive isAnnual r = (case r of Some rate \<Rightarrow> if rate > 0 then Some (rate, isAnnual) else None
                               | None \<Rightarrow> None)"

definition parseInterestRate :: "string \<Rightarrow> (real \<times> bool) option" where
  "parseInterestRate input =
     (let lower = toLowerCase input;
          isAnnual = (includesStr lower kw_yillik \<or> includesStr lower ''yillik'' \<or> includesStr lower ''annual''
                      \<or> includesStr lower kw_yil \<or> includesStr lower ''yil'');
          monthly =
            (case regex_search m_percent input of
               Some (g1, g2) \<Rightarrow>
                 rate_positive False (map_option (\<lambda>v. v / 100)
                                        (parseFloat (replace_first CHR '','' CHR ''.'' g2)))
             | None \<Rightarrow>
                 (case regex_search m_number input of
                    Some num \<Rightarrow> rate_positive False (parseFloat (replace_first CHR '','' CHR ''.'' num))
                  | None \<Rightarrow> None))
      in if isAnnual then
           (case regex_search m_percent input of
              Some (g1, g2) \<Rightarrow>
                rate_positive True
                  (parseFloat (replace_first CHR '','' CHR ''.''
                     (trim (filter (\<lambda>c. c \<noteq> CHR ''%'' \<and> c \<noteq> CHR '','') (g1 @ g2)))))
            | None \<Rightarrow>
                (case regex_search m_number input of
                   Some num \<Rightarrow> rate_positive True (parseFloat (replace_first CHR '','' CHR ''.'' num))
                 | None \<Rightarrow> monthly))
         else monthly)"

definition parseApartmentId :: "string \<Rightarrow> string option" where
  "parseApartmentId input = map_option (\<lambda>(m, rest). toUpperCase m) (regex_search m_evid input)"

definition parseDeliveryTime :: "string \<Rightarrow> int" where
  "parseDeliveryTime teslimSuresi =
     (case regex_search m_digits_ay teslimSuresi of Some ds \<Rightarrow> parseInt ds | None \<Rightarrow> 0)"

section \<open>The conversation engine (chatbot): state and turn function\<close>

record Apartment =
  ev_id :: string
  proje_adi :: string
  sehir :: string
  ilce :: string
  mahalle :: string
  blok :: string
  kat :: int
  oda_sayisi :: string
  m2 :: real
  teslim_suresi :: string
  bitis_tarihi :: string
  bugunku_pesin_fiyat :: real

datatype ConversationStep =
    waiting_for_apartment
  | waiting_for_interest_rate
  | waiting_for_down_payment
  | waiting_for_down_payment_year
  | waiting_for_down_payment_month
  | waiting_for_installments
  | completed
  | waiting_for_lower_installment
  | showing_alternatives

text \<open>
  Every field of the session context is optional in the source; \<open>None\<close> is \<open>undefined\<close>. The
  fields that share their name with a field of \<open>NPVInputs\<close> carry the suffix \<open>_st\<close>.
\<close>

record ConversationState =
  step :: "ConversationStep option"
  apartmentId :: "string option"
  downAmount_st :: "real option"
  monthlyRate_st :: "real option"
  nInstallments_st :: "int option"
  startYear_st :: "int option"
  startMonth_st :: "int option"
  downYear_st :: "int option"
  downMonth_st :: "int option"
  isAnnualRateSelected :: "bool option"
  desiredInstallment :: "real option"
  calculatedPv :: "real option"
  lastNpvResult :: "NPVResult option"
  alternativeApartments :: "Apartment list option"
  suggestedDownAmount :: "real option"

text \<open>
  The reply texts are Turkish prose with the values formatted into them; the model keeps which
  text it is and the values it shows.
\<close>

datatype reply =
    Msg_welcome
  | Msg_help "ConversationStep"
  | Msg_apartment_selected string
  | Msg_apartment_not_found string
  | Msg_select_apartment_first
  | Msg_select_apartment
  | Msg_rate_step_apartment_already_selected
  | Msg_annual_chosen
  | Msg_monthly_chosen
  | Msg_annual_rate_recorded real real
  | Msg_monthly_rate_recorded real
  | Msg_ask_rate_unit
  | Msg_ask_rate_value bool
  | Msg_rate_needed_first
  | Msg_down_step_apartment_already_selected
  | Msg_down_too_small
  | Msg_down_exceeds_price real real
  | Msg_down_recorded real int
  | Msg_down_not_understood
  | Msg_year_recorded int
  | Msg_year_default int
  | Msg_year_not_understood int
  | Msg_down_date_in_past
  | Msg_month_recorded int
  | Msg_month_not_understood
  | Msg_negative_installment
  | Msg_negative_interest
  | Msg_calculation_completed real
  | Msg_calculation_error
  | Msg_installments_not_understood
  | Msg_ask_lower_installment "real option"
  | Msg_down_updated real real
  | Msg_retry_error
  | Msg_extension_feasible int real
  | Msg_extension_not_feasible int real
  | Msg_down_suggestion real real
  | Msg_down_suggestion_none
  | Msg_generic_error
  | Msg_negative_installment_lower
  | Msg_negative_interest_lower
  | Msg_alternatives real "string list"
  | Msg_no_alternatives real "(int \<times> real \<times> bool) option"
  | Msg_no_alternatives_plain real
  | Msg_enter_valid_installment
  | Msg_alternative_selected string real
  | Msg_choose_from_list
  | Msg_anything_else
  | Msg_not_understood

record Response =
  message :: reply
  npvResult :: "NPVResult option"
  newState :: "ConversationState option"

record CurrentDate =
  cd_year :: int
  cd_month :: int

definition reply_only :: "reply \<Rightarrow> Response" where
  \<comment> \<open>\<open>return { message }\<close>: the caller keeps its context\<close>
  "reply_only m = \<lparr> message = m, npvResult = None, newState = None \<rparr>"

definition reply_state :: "reply \<Rightarrow> ConversationState \<Rightarrow> Response" where
  \<comment> \<open>\<open>return { message, newState }\<close>\<close>
  "reply_state m st = \<lparr> message = m, npvResult = None, newState = Some st \<rparr>"

definition reply_result :: "reply \<Rightarrow> NPVResult \<Rightarrow> ConversationState \<Rightarrow> Response" where
  \<comment> \<open>\<open>return { message, npvResult, newState }\<close>\<close>
  "reply_result m r st = \<lparr> message = m, npvResult = Some r, newState = Some st \<rparr>"

definition truthy :: "'a::zero option \<Rightarrow> bool" where
  \<comment> \<open>a number in a condition: defined and not 0\<close>
  "truthy x = (case x of Some v \<Rightarrow> v \<noteq> 0 | None \<Rightarrow> False)"

definition or_else :: "'a::zero option \<Rightarrow> 'a \<Rightarrow> 'a" where
  \<comment> \<open>\<open>x || d\<close> on numbers\<close>
  "or_else x d = (case x of Some v \<Rightarrow> if v \<noteq> 0 then v else d | None \<Rightarrow> d)"

definition asserted :: "'a::zero option \<Rightarrow> 'a" where
  \<comment> \<open>\<open>x!\<close>: the source asserts that the field is set and computes with it. Where it is not set
      the source computes with \<open>undefined\<close> (NaN in arithmetic); the model reads 0 there.\<close>
  "asserted x = (case x of Some v \<Rightarrow> v | None \<Rightarrow> 0)"

definition find_apartment :: "Apartment list \<Rightarrow> string option \<Rightarrow> Apartment option" where
  \<comment> \<open>\<open>apartments.find(apt => apt.ev_id === id)\<close>\<close>
  "find_apartment apartments aid = (case aid of Some i \<Rightarrow> find (\<lambda>apt. ev_id apt = i) apartments | None \<Rightarrow> None)"

definition rate_decimal :: "real \<Rightarrow> real" where
  \<comment> \<open>\<open>rate > 1 ? rate / 100 : rate\<close>\<close>
  "rate_decimal rate = (if rate > 1 then rate / 100 else rate)"

definition state_rate_decimal :: "ConversationState \<Rightarrow> real" where
  \<comment> \<open>\<open>(rate || 2) > 1 ? (rate || 2) / 100 : (rate || 0.02)\<close>\<close>
  "state_rate_decimal st =
     (if or_else (monthlyRate_st st) 2 > 1 then or_else (monthlyRate_st st) 2 / 100
      else or_else (monthlyRate_st st) (2 / 100))"

subsection \<open>Alternative properties\<close>

record Candidate =
  apartment :: Apartment
  calculatedInstallment :: real
  deliveryMonths :: int
  pv :: real

definition alternative_inputs ::
  "Apartment \<Rightarrow> real \<Rightarrow> int \<Rightarrow> real \<Rightarrow> int \<Rightarrow> int \<Rightarrow> int \<Rightarrow> int \<Rightarrow> NPVInputs" where
  \<comment> \<open>the solver input that \<open>findAlternativeApartments\<close> builds for a property\<close>
  "alternative_inputs apt downAmount' nInstallments' monthlyRate' downYear' downMonth' startYear' startMonth' =
     \<lparr> targetPv = Some (bugunku_pesin_fiyat apt), targetNominal = None,
       monthlyRate = rate_decimal monthlyRate', downAmount = downAmount',
       downYear = downYear', downMonth = downMonth', nInstallments = nInstallments',
       startYear = startYear', startMonth = startMonth' \<rparr>"

definition compare_candidates :: "real \<Rightarrow> Candidate \<Rightarrow> Candidate \<Rightarrow> real" where
  \<comment> \<open>the comparator passed to \<open>sort\<close>\<close>
  "compare_candidates desiredInstallment' a b =
     (let diffA = \<bar>calculatedInstallment a - desiredInstallment'\<bar>;
          diffB = \<bar>calculatedInstallment b - desiredInstallment'\<bar>
      in if \<bar>diffA - diffB\<bar> < 1000 then real_of_int (deliveryMonths b - deliveryMonths a)
         else diffA - diffB)"

text \<open>
  \<open>Array.prototype.sort\<close> is modelled as a stable insertion sort. The comparator above is not a
  consistent ordering (being within 1000 of each other is not transitive), and for such a
  comparator the language leaves the order to the implementation; the model fixes one.
\<close>

fun insert_by :: "('a \<Rightarrow> 'a \<Rightarrow> real) \<Rightarrow> 'a \<Rightarrow> 'a list \<Rightarrow> 'a list" where
  "insert_by cmp x [] = [x]"
| "insert_by cmp x (y # ys) = (if cmp x y \<le> 0 then x # y # ys else y # insert_by cmp x ys)"

definition sort_by :: "('a \<Rightarrow> 'a \<Rightarrow> real) \<Rightarrow> 'a list \<Rightarrow> 'a list" where
  "sort_by cmp xs = foldr (insert_by cmp) xs []"

definition findAlternativeApartments ::
  "Apartment list \<Rightarrow> real \<Rightarrow> real \<Rightarrow> int \<Rightarrow> real \<Rightarrow> int \<Rightarrow> int \<Rightarrow> int \<Rightarrow> int \<Rightarrow> string \<Rightarrow> real
     \<Rightarrow> Apartment list" where
  "findAlternativeApartments apartments desiredInstallment' downAmount' nInstallments' monthlyRate'
       downYear' downMonth' startYear' startMonth' currentApartmentId installmentTolerance =
     (case find (\<lambda>apt. ev_id apt = currentApartmentId) apartments of
        None \<Rightarrow> []
      | Some currentApartment \<Rightarrow>
          (let filtered = filter (\<lambda>apt. ev_id apt \<noteq> currentApartmentId) apartments;
               candidates = List.map_filter
                 (\<lambda>apt. case calculateNPV (alternative_inputs apt downAmount' nInstallments'
                                  monthlyRate' downYear' downMonth' startYear' startMonth') of
                          Inr npvResult' \<Rightarrow>
                            Some \<lparr> apartment = apt,
                                   calculatedInstallment = monthlyInstallment (modelA npvResult'),
                                   deliveryMonths = parseDeliveryTime (teslim_suresi apt),
                                   pv = bugunku_pesin_fiyat apt \<rparr>
                        | Inl err \<Rightarrow> None)
                 filtered;
               minInstallment = desiredInstallment' - installmentTolerance;
               maxInstallment = desiredInstallment' + installmentTolerance;
               matching = filter (\<lambda>item. calculatedInstallment item \<ge> minInstallment
                                      \<and> calculatedInstallment item \<le> maxInstallment
                                      \<and> calculatedInstallment item > 0) candidates
           in map apartment (take 5 (sort_by (compare_candidates desiredInstallment') matching))))"

definition installmentTolerance_default :: real where
  "installmentTolerance_default = 5000"

subsection \<open>The steps of the dialogue\<close>

definition kw_selam_basla :: "string list" where
  \<comment> \<open>merhaba, selam, ba\c{s}la, yeni\<close>
  "kw_selam_basla = [''merhaba'', ''selam'', ''ba'' @ [CHR 0xC5, CHR 0x9F] @ ''la'', ''yeni'']"

definition kw_help :: "string list" where
  \<comment> \<open>yard{\i}m, nas{\i}l, help\<close>
  "kw_help = [''yard'' @ [CHR 0xC4, CHR 0xB1] @ ''m'', ''nas'' @ [CHR 0xC4, CHR 0xB1] @ ''l'', ''help'']"

definition includes_any :: "string \<Rightarrow> string list \<Rightarrow> bool" where
  "includes_any s kws = list_ex (includesStr s) kws"

definition is_greeting :: "string \<Rightarrow> bool" where
  "is_greeting lowerMessage = includes_any lowerMessage kw_selam_basla"

definition is_help :: "string \<Rightarrow> bool" where
  "is_help lowerMessage = includes_any lowerMessage kw_help"

definition step_apartment :: "string \<Rightarrow> ConversationState \<Rightarrow> Apartment list \<Rightarrow> Response" where
  "step_apartment userMessage state apartments =
     (case parseApartmentId userMessage of
        Some evId \<Rightarrow>
          (case find (\<lambda>apt. ev_id apt = evId) apartments of
             Some apartment' \<Rightarrow>
               reply_state (Msg_apartment_selected evId)
                 (state\<lparr> apartmentId := Some evId, step := Some waiting_for_interest_rate \<rparr>)
           | None \<Rightarrow> reply_only (Msg_apartment_not_found evId))
      | None \<Rightarrow>
          if parseAmount userMessage \<noteq> None \<or> parseYear userMessage \<noteq> None
             \<or> parseMonth userMessage \<noteq> None \<or> parseInstallments userMessage \<noteq> None
             \<or> parseInterestRate userMessage \<noteq> None
          then reply_only Msg_select_apartment_first
          else reply_only Msg_select_apartment)"

definition bare_rate :: "string \<Rightarrow> real option" where
  \<comment> \<open>the number of the rate step: the first match of \<open>(\d+[\d.,]*)\<close>, unless the utterance is
      a property identifier, read by \<open>parseFloat\<close> after the first comma became a dot, and kept
      when it lies strictly between 0 and 1000\<close>
  "bare_rate userMessage =
     (case regex_search m_number userMessage of
        Some num \<Rightarrow>
          if \<not> includesStr userMessage ''-'' \<or> \<not> evIdPattern_test userMessage then
            (case parseFloat (replace_first CHR '','' CHR ''.'' num) of
               Some rate \<Rightarrow> if rate > 0 \<and> rate < 1000 then Some rate else None
             | None \<Rightarrow> None)
          else None
      | None \<Rightarrow> None)"

definition step_interest_rate :: "string \<Rightarrow> ConversationState \<Rightarrow> Response" where
  "step_interest_rate userMessage state =
     (let lowerMessage = trim (toLowerCase userMessage) in
      if parseApartmentId userMessage \<noteq> None then reply_only Msg_rate_step_apartment_already_selected
      else case isAnnualRateSelected state of
        None \<Rightarrow>
          if includesStr lowerMessage kw_yillik \<or> includesStr lowerMessage ''yillik''
             \<or> includesStr lowerMessage ''annual'' \<or> lowerMessage = ''e'' \<or> lowerMessage = ''evet''
             \<or> lowerMessage = ''y'' \<or> lowerMessage = ''yes''
          then reply_state Msg_annual_chosen (state\<lparr> isAnnualRateSelected := Some True \<rparr>)
          else if includesStr lowerMessage kw_aylik \<or> includesStr lowerMessage ''aylik''
             \<or> includesStr lowerMessage ''monthly'' \<or> lowerMessage = ''h''
             \<or> lowerMessage = ''hay'' @ [CHR 0xC4, CHR 0xB1] @ ''r''
             \<or> lowerMessage = ''n'' \<or> lowerMessage = ''no'' \<or> lowerMessage = ''''
          then reply_state Msg_monthly_chosen (state\<lparr> isAnnualRateSelected := Some False \<rparr>)
          else
            (case parseInterestRate userMessage of
               Some (rate, isAnnual) \<Rightarrow>
                 if isAnnual then
                   (let monthlyRate' = annualToMonthlyRate (rate / 100) * 100 in
                    reply_state (Msg_annual_rate_recorded rate monthlyRate')
                      (state\<lparr> monthlyRate_st := Some monthlyRate', isAnnualRateSelected := Some True,
                              step := Some waiting_for_down_payment \<rparr>))
                 else
                   reply_state (Msg_monthly_rate_recorded (rate * 100))
                     (state\<lparr> monthlyRate_st := Some rate, isAnnualRateSelected := Some False,
                             step := Some waiting_for_down_payment \<rparr>)
             | None \<Rightarrow>
                 (case bare_rate userMessage of
                    Some rate \<Rightarrow>
                      reply_state (Msg_monthly_rate_recorded rate)
                        (state\<lparr> monthlyRate_st := Some rate, isAnnualRateSelected := Some False,
                                step := Some waiting_for_down_payment \<rparr>)
                  | None \<Rightarrow> reply_only Msg_ask_rate_unit))
      | Some annual \<Rightarrow>
          (case bare_rate userMessage of
             Some rate \<Rightarrow>
               if annual then
                 (let monthlyRate' = annualToMonthlyRate (rate / 100) * 100 in
                  reply_state (Msg_annual_rate_recorded rate monthlyRate')
                    (state\<lparr> monthlyRate_st := Some monthlyRate', step := Some waiting_for_down_payment \<rparr>))
               else
                 reply_state (Msg_monthly_rate_recorded rate)
                   (state\<lparr> monthlyRate_st := Some rate, step := Some waiting_for_down_payment \<rparr>)
           | None \<Rightarrow> reply_only (Msg_ask_rate_value annual)))"



definition step_down_payment ::
  "CurrentDate \<Rightarrow> string \<Rightarrow> ConversationState \<Rightarrow> Apartment list \<Rightarrow> Response" where
  "step_down_payment currentDate userMessage state apartments =
     (if \<not> truthy (monthlyRate_st state) then
        reply_state Msg_rate_needed_first (state\<lparr> step := Some waiting_for_interest_rate \<rparr>)
      else if parseApartmentId userMessage \<noteq> None then
        reply_only Msg_down_step_apartment_already_selected
      else case parseAmount userMessage of
        Some amount' \<Rightarrow>
          if amount' < 1000 then reply_only Msg_down_too_small
          else
            (case find_apartment apartments (apartmentId state) of
               Some apartment' \<Rightarrow>
                 if amount' > bugunku_pesin_fiyat apartment' then
                   reply_only (Msg_down_exceeds_price (bugunku_pesin_fiyat apartment') amount')
                 else
                   reply_state (Msg_down_recorded amount' (or_else (startYear_st state) (cd_year currentDate)))
                     (state\<lparr> downAmount_st := Some amount', step := Some waiting_for_down_payment_year \<rparr>)
             | None \<Rightarrow>
                 reply_state (Msg_down_recorded amount' (or_else (startYear_st state) (cd_year currentDate)))
                   (state\<lparr> downAmount_st := Some amount', step := Some waiting_for_down_payment_year \<rparr>))
      | None \<Rightarrow> reply_only Msg_down_not_understood)"

definition step_down_payment_year :: "CurrentDate \<Rightarrow> string \<Rightarrow> ConversationState \<Rightarrow> Response" where
  "step_down_payment_year currentDate userMessage state =
     (let defaultYear = or_else (startYear_st state) (cd_year currentDate) in
      case parseYear userMessage of
        Some year \<Rightarrow>
          reply_state (Msg_year_recorded year)
            (state\<lparr> downYear_st := Some year, step := Some waiting_for_down_payment_month \<rparr>)
      | None \<Rightarrow>
          if trim userMessage = '''' then
            reply_state (Msg_year_default defaultYear)
              (state\<lparr> downYear_st := Some defaultYear, step := Some waiting_for_down_payment_month \<rparr>)
          else reply_only (Msg_year_not_understood defaultYear))"

definition step_down_payment_month :: "CurrentDate \<Rightarrow> string \<Rightarrow> ConversationState \<Rightarrow> Response" where
  "step_down_payment_month currentDate userMessage state =
     (case parseMonth userMessage of
        Some month \<Rightarrow>
          (let today = newDate (cd_year currentDate) (cd_month currentDate - 1);
               downDate = newDate (or_else (downYear_st state) (cd_year currentDate)) (month - 1)
           in if downDate < today then reply_only Msg_down_date_in_past
              else reply_state (Msg_month_recorded month)
                     (state\<lparr> downMonth_st := Some month, step := Some waiting_for_installments \<rparr>))
      | None \<Rightarrow> reply_only Msg_month_not_understood)"

definition interest_negative :: "real \<Rightarrow> real option \<Rightarrow> bool" where
  \<comment> \<open>\<open>nominalTotal - presentValue < 0\<close>, false when the present value is NaN\<close>
  "interest_negative nominal pvo = (case pvo of Some v \<Rightarrow> nominal - v < 0 | None \<Rightarrow> False)"

definition better_installment :: "NPVResult \<Rightarrow> real" where
  \<comment> \<open>the installment of the model with the smaller nominal total, Model B on a tie\<close>
  "better_installment r =
     (if nominalTotal (modelA r) < nominalTotal (modelB r) then monthlyInstallment (modelA r)
      else monthlyInstallment (modelB r))"

definition complete_installments ::
  "CurrentDate \<Rightarrow> ConversationState \<Rightarrow> Apartment list \<Rightarrow> int \<Rightarrow> Response" where
  \<comment> \<open>the body shared by the two branches of the installment step (a parsed count, or 24 for an
      empty utterance), \<open>newState0\<close> being the context with the count and the step
      \<open>completed\<close> written. Where the property is not found or a slot is missing, no branch of
      the rest of the function applies (its last block asks for a step other than
      \<open>completed\<close>) and the function ends with its final reply.\<close>
  "complete_installments currentDate newState0 apartments installments =
     (case find_apartment apartments (apartmentId newState0) of
        Some apartment' \<Rightarrow>
          if truthy (monthlyRate_st newState0) \<and> truthy (downAmount_st newState0)
             \<and> truthy (downYear_st newState0) \<and> truthy (downMonth_st newState0) then
            (case calculateNPV
                    \<lparr> targetPv = Some (bugunku_pesin_fiyat apartment'), targetNominal = None,
                      monthlyRate = rate_decimal (asserted (monthlyRate_st newState0)),
                      downAmount = asserted (downAmount_st newState0),
                      downYear = asserted (downYear_st newState0),
                      downMonth = asserted (downMonth_st newState0),
                      nInstallments = installments,
                      startYear = or_else (startYear_st newState0) (cd_year currentDate),
                      startMonth = or_else (startMonth_st newState0) (cd_month currentDate) \<rparr> of
               Inr npvResult' \<Rightarrow>
                 (let modelAInterest = nominalTotal (modelA npvResult') - bugunku_pesin_fiyat apartment';
                      modelBInterest = nominalTotal (modelB npvResult') - bugunku_pesin_fiyat apartment'
                  in if monthlyInstallment (modelA npvResult') < 0 \<or> monthlyInstallment (modelB npvResult') < 0
                     then reply_only Msg_negative_installment
                     else if modelAInterest < 0 \<or> modelBInterest < 0
                     then reply_only Msg_negative_interest
                     else reply_result (Msg_calculation_completed (better_installment npvResult')) npvResult'
                            (newState0\<lparr> lastNpvResult := Some npvResult' \<rparr>))
             | Inl err \<Rightarrow> reply_only Msg_calculation_error)
          else reply_only Msg_not_understood
      | None \<Rightarrow> reply_only Msg_not_understood)"

definition step_installments ::
  "CurrentDate \<Rightarrow> string \<Rightarrow> ConversationState \<Rightarrow> Apartment list \<Rightarrow> Response" where
  "step_installments currentDate userMessage state apartments =
     (case parseInstallments userMessage of
        Some installments \<Rightarrow>
          complete_installments currentDate
            (state\<lparr> nInstallments_st := Some installments, step := Some completed \<rparr>) apartments installments
      | None \<Rightarrow>
          if trim userMessage = '''' then
            complete_installments currentDate
              (state\<lparr> nInstallments_st := Some 24, step := Some completed \<rparr>) apartments 24
          else reply_only Msg_installments_not_understood)"

subsection \<open>The negotiation steps\<close>

definition kw_dusuk :: string where
  \<comment> \<open>d\"u\c{s}\"uk\<close>
  "kw_dusuk = ''d'' @ [CHR 0xC3, CHR 0xBC, CHR 0xC5, CHR 0x9F, CHR 0xC3, CHR 0xBC] @ ''k''"

definition lowerInstallmentKeywords :: "string list" where
  \<comment> \<open>daha d\"u\c{s}\"uk taksit, d\"u\c{s}\"uk taksit, taksit fazla, taksit \c{c}ok, daha az taksit,
      d\"u\c{s}\"uk \"odeme, azaltmak\<close>
  "lowerInstallmentKeywords =
     [''daha '' @ kw_dusuk @ '' taksit'', kw_dusuk @ '' taksit'', ''taksit fazla'',
      ''taksit '' @ [CHR 0xC3, CHR 0xA7] @ ''ok'', ''daha az taksit'',
      kw_dusuk @ '' '' @ [CHR 0xC3, CHR 0xB6] @ ''deme'', ''azaltmak'']"

definition negotiation_inputs ::
  "CurrentDate \<Rightarrow> ConversationState \<Rightarrow> Apartment \<Rightarrow> real \<Rightarrow> int \<Rightarrow> NPVInputs" where
  \<comment> \<open>the solver input of the negotiation steps: the price of the property as the target
      present value, the rate, dates and start of the context, and the down payment and
      installment count the step asks about\<close>
  "negotiation_inputs currentDate state apartment' down n =
     \<lparr> targetPv = Some (bugunku_pesin_fiyat apartment'), targetNominal = None,
       monthlyRate = state_rate_decimal state, downAmount = down,
       downYear = asserted (downYear_st state), downMonth = asserted (downMonth_st state),
       nInstallments = n,
       startYear = or_else (startYear_st state) (cd_year currentDate),
       startMonth = or_else (startMonth_st state) (cd_month currentDate) \<rparr>"

definition in_tolerance :: "real \<Rightarrow> real \<Rightarrow> bool" where
  \<comment> \<open>\<open>x >= desired - 5000 && x <= desired + 5000\<close>\<close>
  "in_tolerance x desired = (x \<ge> desired - 5000 \<and> x \<le> desired + 5000)"

definition is_acceptance :: "string \<Rightarrow> bool" where
  "is_acceptance lowerMessage =
     (includesStr lowerMessage ''evet'' \<or> includesStr lowerMessage ''kabul''
      \<or> includesStr lowerMessage ''tamam'' \<or> lowerMessage = ''e'')"

definition accept_suggested_down ::
  "CurrentDate \<Rightarrow> string \<Rightarrow> ConversationState \<Rightarrow> Apartment list \<Rightarrow> Response option" where
  \<comment> \<open>first block of both negotiation steps: the user accepts the suggested down payment.
      \<open>None\<close>: the block does not apply and the step goes on.\<close>
  "accept_suggested_down currentDate lowerMessage state apartments =
     (if truthy (suggestedDownAmount state) \<and> is_acceptance lowerMessage then
        (case find_apartment apartments (apartmentId state) of
           Some apartment' \<Rightarrow>
             if truthy (desiredInstallment state) then
               (case calculateNPV (negotiation_inputs currentDate state apartment'
                        (asserted (suggestedDownAmount state)) (or_else (nInstallments_st state) 24)) of
                  Inr npvResult' \<Rightarrow>
                    Some (reply_result
                      (Msg_down_updated (asserted (suggestedDownAmount state))
                         (monthlyInstallment (modelA npvResult')))
                      npvResult'
                      (state\<lparr> downAmount_st := suggestedDownAmount state, step := Some completed,
                              lastNpvResult := Some npvResult', suggestedDownAmount := None \<rparr>))
                | Inl err \<Rightarrow> Some (reply_only Msg_retry_error))
             else None
         | None \<Rightarrow> None)
      else None)"

definition try_more_installments ::
  "CurrentDate \<Rightarrow> string \<Rightarrow> string \<Rightarrow> ConversationState \<Rightarrow> Apartment list \<Rightarrow> Response option" where
  \<comment> \<open>second block: the user asks whether a longer term would do\<close>
  "try_more_installments currentDate userMessage lowerMessage state apartments =
     (case regex_search m_digits_ay userMessage of
        Some ds \<Rightarrow>
          if includes_any lowerMessage [''taksitle'', ''taksit'', ''olabilir'', ''olur''] then
            (let requestedInstallments = parseInt ds in
             if requestedInstallments > or_else (nInstallments_st state) 24 then
               (case find_apartment apartments (apartmentId state) of
                  Some apartment' \<Rightarrow>
                    if truthy (desiredInstallment state) then
                      (case calculateNPV (negotiation_inputs currentDate state apartment'
                               (asserted (downAmount_st state)) requestedInstallments) of
                         Inr npvResult' \<Rightarrow>
                           (let calculated = monthlyInstallment (modelA npvResult') in
                            if in_tolerance calculated (asserted (desiredInstallment state)) then
                              Some (reply_result (Msg_extension_feasible requestedInstallments calculated)
                                npvResult'
                                (state\<lparr> nInstallments_st := Some requestedInstallments,
                                        step := Some completed, lastNpvResult := Some npvResult' \<rparr>))
                            else Some (reply_only (Msg_extension_not_feasible requestedInstallments calculated)))
                       | Inl err \<Rightarrow> Some (reply_only Msg_retry_error))
                    else None
                | None \<Rightarrow> None)
             else None)
          else None
      | None \<Rightarrow> None)"

function down_search :: "NPVInputs \<Rightarrow> real \<Rightarrow> real \<Rightarrow> real \<Rightarrow> error + (real \<times> real) option" where
  \<comment> \<open>the loop that raises the down payment in steps of 50000 up to \<open>maxDownAmount\<close>: the first
      down payment whose Model A installment is within 5000 of the desired one, with that
      installment; \<open>Inl\<close> where the solver throws\<close>
  "down_search base desired suggestedDownAmount' maxDownAmount =
     (if suggestedDownAmount' \<le> maxDownAmount then
        (case calculateNPV (base\<lparr> downAmount := suggestedDownAmount' \<rparr>) of
           Inr npvResult' \<Rightarrow>
             (let suggestedInstallment = monthlyInstallment (modelA npvResult') in
              if in_tolerance suggestedInstallment desired
              then Inr (Some (suggestedDownAmount', suggestedInstallment))
              else down_search base desired (suggestedDownAmount' + 50000) maxDownAmount)
         | Inl err \<Rightarrow> Inl err)
      else Inr None)"
  by pat_completeness auto
termination
proof (relation "measure (\<lambda>(base, desired, s, m). if s \<le> m then nat \<lfloor>(m - s) / 50000\<rfloor> + 1 else 0)",
    goal_cases)
  case 1
  show ?case by simp
next
  case (2 base desired s m r x)
  show ?case
  proof (cases "s + 50000 \<le> m")
    case False
    with 2 show ?thesis by simp
  next
    case True
    have "\<lfloor>(m - (s + 50000)) / 50000\<rfloor> = \<lfloor>(m - s) / 50000 - 1\<rfloor>"
      by (simp add: field_simps)
    also have "\<dots> = \<lfloor>(m - s) / 50000\<rfloor> - 1" by linarith
    finally have eq: "\<lfloor>(m - (s + 50000)) / 50000\<rfloor> = \<lfloor>(m - s) / 50000\<rfloor> - 1" .
    have "1 \<le> \<lfloor>(m - s) / 50000\<rfloor>" using True by (simp add: le_floor_iff)
    with 2 True eq show ?thesis by simp
  qed
qed

declare down_search.simps [simp del]

definition suggest_higher_down ::
  "CurrentDate \<Rightarrow> string \<Rightarrow> ConversationState \<Rightarrow> Apartment list \<Rightarrow> Response option" where
  \<comment> \<open>third block: the user asks how far the down payment would have to rise
      (pe\c{s}inat with y\"ukselt, art{\i}r or ne kadar)\<close>
  "suggest_higher_down currentDate lowerMessage state apartments =
     (if includesStr lowerMessage (''pe'' @ [CHR 0xC5, CHR 0x9F] @ ''inat'')
         \<and> includes_any lowerMessage
              [''y'' @ [CHR 0xC3, CHR 0xBC] @ ''kselt'', ''art'' @ [CHR 0xC4, CHR 0xB1] @ ''r'', ''ne kadar'']
      then
        (case find_apartment apartments (apartmentId state) of
           Some apartment' \<Rightarrow>
             if truthy (desiredInstallment state) then
               (let currentDownAmount = or_else (downAmount_st state) 0;
                    maxDownAmount = bugunku_pesin_fiyat apartment' * (1 / 2)
                in case down_search
                          (negotiation_inputs currentDate state apartment' currentDownAmount
                             (or_else (nInstallments_st state) 24))
                          (asserted (desiredInstallment state)) (currentDownAmount + 50000) maxDownAmount of
                     Inr (Some (suggested, inst)) \<Rightarrow>
                       Some (reply_state (Msg_down_suggestion suggested inst)
                               (state\<lparr> suggestedDownAmount := Some suggested \<rparr>))
                   | Inr None \<Rightarrow> Some (reply_only Msg_down_suggestion_none)
                   | Inl err \<Rightarrow> Some (reply_only Msg_retry_error))
             else None
         | None \<Rightarrow> None)
      else None)"

definition no_alternatives_reply ::
  "CurrentDate \<Rightarrow> ConversationState \<Rightarrow> ConversationState \<Rightarrow> Apartment list \<Rightarrow> real \<Rightarrow> Response" where
  \<comment> \<open>no other property matches: the installment of the current property over 12 more months\<close>
  "no_alternatives_reply currentDate state newState' apartments amount' =
     (case find_apartment apartments (apartmentId state) of
        Some currentApartment \<Rightarrow>
          (let extendedInstallments = or_else (nInstallments_st state) 24 + 12 in
           case calculateNPV (negotiation_inputs currentDate state currentApartment
                   (asserted (downAmount_st state)) extendedInstallments) of
             Inr extendedNpvResult \<Rightarrow>
               (let extendedInstallment = monthlyInstallment (modelA extendedNpvResult) in
                reply_state
                  (Msg_no_alternatives amount'
                     (Some (extendedInstallments, extendedInstallment,
                            in_tolerance extendedInstallment amount')))
                  newState')
           | Inl err \<Rightarrow> reply_state (Msg_no_alternatives amount' None) newState')
      | None \<Rightarrow> reply_state (Msg_no_alternatives_plain amount') newState')"

definition step_lower_installment ::
  "CurrentDate \<Rightarrow> string \<Rightarrow> ConversationState \<Rightarrow> Apartment list \<Rightarrow> Response" where
  "step_lower_installment currentDate userMessage state apartments =
     (let lowerMessage = trim (toLowerCase userMessage) in
      case accept_suggested_down currentDate lowerMessage state apartments of
        Some r \<Rightarrow> r
      | None \<Rightarrow>
      (case try_more_installments currentDate userMessage lowerMessage state apartments of
        Some r \<Rightarrow> r
      | None \<Rightarrow>
      (case suggest_higher_down currentDate lowerMessage state apartments of
        Some r \<Rightarrow> r
      | None \<Rightarrow>
      (case parseAmount userMessage of
        None \<Rightarrow> reply_only Msg_enter_valid_installment
      | Some amount' \<Rightarrow>
          (case find_apartment apartments (apartmentId state) of
             None \<Rightarrow> reply_only Msg_generic_error
           | Some apartment' \<Rightarrow>
               (let monthlyRateDecimal = state_rate_decimal state;
                    newNominalTotal = or_else (downAmount_st state) 0
                                      + amount' * real_of_int (or_else (nInstallments_st state) 24)
                in case calculateNPV
                          \<lparr> targetPv = None, targetNominal = Some newNominalTotal,
                            monthlyRate = monthlyRateDecimal,
                            downAmount = asserted (downAmount_st state),
                            downYear = asserted (downYear_st state),
                            downMonth = asserted (downMonth_st state),
                            nInstallments = asserted (nInstallments_st state),
                            startYear = or_else (startYear_st state) (cd_year currentDate),
                            startMonth = or_else (startMonth_st state) (cd_month currentDate) \<rparr> of
                     Inl err \<Rightarrow> reply_only Msg_retry_error
                   | Inr newNpvResult \<Rightarrow>
                       if monthlyInstallment (modelA newNpvResult) < 0
                          \<or> monthlyInstallment (modelB newNpvResult) < 0
                       then reply_only Msg_negative_installment_lower
                       else if interest_negative (nominalTotal (modelA newNpvResult))
                                 (presentValue_fld (modelA newNpvResult))
                               \<or> interest_negative (nominalTotal (modelB newNpvResult))
                                    (presentValue_fld (modelB newNpvResult))
                       then reply_only Msg_negative_interest_lower
                       else
                         (let newState1 = state\<lparr> desiredInstallment := Some amount',
                                                 step := Some showing_alternatives,
                                                 calculatedPv := presentValue_fld (modelA newNpvResult) \<rparr>;
                              alternatives = findAlternativeApartments apartments amount'
                                 (asserted (downAmount_st state)) (asserted (nInstallments_st state))
                                 (monthlyRateDecimal * 100)
                                 (asserted (downYear_st state)) (asserted (downMonth_st state))
                                 (or_else (startYear_st state) (cd_year currentDate))
                                 (or_else (startMonth_st state) (cd_month currentDate))
                                 (case apartmentId state of Some i \<Rightarrow> i | None \<Rightarrow> [])
                                 5000
                          in if length alternatives > 0 then
                               reply_state (Msg_alternatives amount' (map ev_id alternatives))
                                 (newState1\<lparr> alternativeApartments := Some alternatives \<rparr>)
                             else no_alternatives_reply currentDate state newState1 apartments amount')))))))"

definition m_list_number :: "string \<Rightarrow> string option" where
  \<comment> \<open>\<open>/^(\d+)\.?$/\<close> on the whole utterance\<close>
  "m_list_number s =
     (let ds = takeWhile is_digit s; r = dropWhile is_digit s
      in if ds \<noteq> [] \<and> (r = [] \<or> r = ''.'') then Some ds else None)"

definition select_alternative :: "string \<Rightarrow> ConversationState \<Rightarrow> Apartment list \<Rightarrow> Apartment option" where
  \<comment> \<open>the property the user picks: by its number in the list shown, else by identifier\<close>
  "select_alternative userMessage state apartments =
     (let byNumber =
            (case (m_list_number userMessage, alternativeApartments state) of
               (Some ds, Some alts) \<Rightarrow>
                 (let index = parseInt ds - 1
                  in if index \<ge> 0 \<and> index < int (length alts) then Some (alts ! nat index) else None)
             | _ \<Rightarrow> None)
      in case byNumber of
           Some a \<Rightarrow> Some a
         | None \<Rightarrow> (case parseApartmentId userMessage of
                      Some evId \<Rightarrow> find (\<lambda>apt. ev_id apt = evId) apartments
                    | None \<Rightarrow> None))"

definition step_showing_alternatives ::
  "CurrentDate \<Rightarrow> string \<Rightarrow> ConversationState \<Rightarrow> Apartment list \<Rightarrow> Response" where
  "step_showing_alternatives currentDate userMessage state apartments =
     (let lowerMessage = trim (toLowerCase userMessage) in
      case accept_suggested_down currentDate lowerMessage state apartments of
        Some r \<Rightarrow> r
      | None \<Rightarrow>
      (case try_more_installments currentDate userMessage lowerMessage state apartments of
        Some r \<Rightarrow> r
      | None \<Rightarrow>
      (case suggest_higher_down currentDate lowerMessage state apartments of
        Some r \<Rightarrow> r
      | None \<Rightarrow>
      (case select_alternative userMessage state apartments of
        None \<Rightarrow> reply_only Msg_choose_from_list
      | Some selectedApartment \<Rightarrow>
          (case calculateNPV (negotiation_inputs currentDate state selectedApartment
                   (asserted (downAmount_st state)) (asserted (nInstallments_st state))) of
             Inl err \<Rightarrow> reply_only Msg_retry_error
           | Inr finalNpvResult \<Rightarrow>
               if monthlyInstallment (modelA finalNpvResult) < 0
                  \<or> monthlyInstallment (modelB finalNpvResult) < 0
               then reply_only Msg_negative_installment_lower
               else if interest_negative (nominalTotal (modelA finalNpvResult))
                         (presentValue_fld (modelA finalNpvResult))
                       \<or> interest_negative (nominalTotal (modelB finalNpvResult))
                            (presentValue_fld (modelB finalNpvResult))
               then reply_only Msg_negative_interest_lower
               else reply_result
                      (Msg_alternative_selected (ev_id selectedApartment)
                         (monthlyInstallment (modelA finalNpvResult)))
                      finalNpvResult
                      (state\<lparr> apartmentId := Some (ev_id selectedApartment), step := Some completed,
                              alternativeApartments := None, lastNpvResult := Some finalNpvResult \<rparr>))))))"

definition step_completed :: "string \<Rightarrow> ConversationState \<Rightarrow> Apartment list \<Rightarrow> Response" where
  "step_completed userMessage state apartments =
     (let lowerMessage = trim (toLowerCase userMessage);
          lowerRequest =
            (case lastNpvResult state of
               Some lastResult \<Rightarrow>
                 if includes_any lowerMessage lowerInstallmentKeywords then
                   Some (reply_state (Msg_ask_lower_installment (Some (better_installment lastResult)))
                           (state\<lparr> step := Some waiting_for_lower_installment \<rparr>))
                 else None
             | None \<Rightarrow> None);
          newApartment =
            (case parseApartmentId userMessage of
               Some evId \<Rightarrow>
                 (case find (\<lambda>apt. ev_id apt = evId) apartments of
                    Some apartment' \<Rightarrow>
                      Some (reply_state (Msg_apartment_selected evId)
                        (state\<lparr> apartmentId := Some evId, step := Some waiting_for_interest_rate,
                                downAmount_st := None, downYear_st := None, downMonth_st := None,
                                nInstallments_st := None, monthlyRate_st := None,
                                isAnnualRateSelected := None, desiredInstallment := None,
                                calculatedPv := None, lastNpvResult := None,
                                alternativeApartments := None \<rparr>))
                  | None \<Rightarrow> None)
             | None \<Rightarrow> None)
      in case lowerRequest of
           Some r \<Rightarrow> r
         | None \<Rightarrow>
             (case newApartment of
                Some r \<Rightarrow> r
              | None \<Rightarrow>
                  if includesStr (toLowerCase userMessage) (''daha '' @ kw_dusuk)
                     \<or> includesStr (toLowerCase userMessage) (kw_dusuk @ '' taksit'')
                  then reply_state (Msg_ask_lower_installment None)
                         (state\<lparr> step := Some waiting_for_lower_installment \<rparr>)
                  else reply_only Msg_anything_else))"

subsection \<open>A turn of the dialogue\<close>

text \<open>
  \<open>generateBotResponse\<close> reads the clock (\<open>getCurrentDate\<close>); the model takes the current year
  and month as its first argument. A response without \<open>newState\<close> leaves the caller's context
  as it was. The last block of the source function (solve when every slot is filled and the
  step is not \<open>completed\<close>) follows the branches of all nine steps, each of which returns or
  has set the step \<open>completed\<close> before it falls through; the block therefore never runs and has
  no counterpart here.
\<close>

definition generateBotResponse ::
  "CurrentDate \<Rightarrow> string \<Rightarrow> ConversationState \<Rightarrow> Apartment list \<Rightarrow> Response" where
  "generateBotResponse currentDate userMessage state apartments =
     (let lowerMessage = trim (toLowerCase userMessage) in
      if step state = None \<or> is_greeting lowerMessage then
        reply_state Msg_welcome
          (state\<lparr> step := Some waiting_for_apartment, startYear_st := Some (cd_year currentDate),
                  startMonth_st := Some (cd_month currentDate) \<rparr>)
      else if is_help lowerMessage then
        reply_only (Msg_help (case step state of Some s \<Rightarrow> s | None \<Rightarrow> waiting_for_apartment))
      else case step state of
        Some waiting_for_apartment \<Rightarrow> step_apartment userMessage state apartments
      | Some waiting_for_interest_rate \<Rightarrow> step_interest_rate userMessage state
      | Some waiting_for_down_payment \<Rightarrow> step_down_payment currentDate userMessage state apartments
      | Some waiting_for_down_payment_year \<Rightarrow> step_down_payment_year currentDate userMessage state
      | Some waiting_for_down_payment_month \<Rightarrow> step_down_payment_month currentDate userMessage state
      | Some waiting_for_installments \<Rightarrow> step_installments currentDate userMessage state apartments
      | Some completed \<Rightarrow> step_completed userMessage state apartments
      | Some waiting_for_lower_installment \<Rightarrow> step_lower_installment currentDate userMessage state apartments
      | Some showing_alternatives \<Rightarrow> step_showing_alternatives currentDate userMessage state apartments
      | None \<Rightarrow> reply_only Msg_not_understood)"

definition context_after :: "ConversationState \<Rightarrow> Response \<Rightarrow> ConversationState" where
  \<comment> \<open>the caller's rule: \<open>if (newState) setConversationState(newState)\<close>\<close>
  "context_after state response = (case newState response of Some st \<Rightarrow> st | None \<Rightarrow> state)"

fun run_turns ::
  "CurrentDate \<Rightarrow> Apartment list \<Rightarrow> ConversationState \<Rightarrow> string list \<Rightarrow> ConversationState \<times> Response option" where
  \<comment> \<open>a scripted dialogue: the context after the utterances and the last response\<close>
  "run_turns currentDate apartments state [] = (state, None)"
| "run_turns currentDate apartments state [u] =
     (let r = generateBotResponse currentDate u state apartments in (context_after state r, Some r))"
| "run_turns currentDate apartments state (u # us) =
     run_turns currentDate apartments
       (context_after state (generateBotResponse currentDate u state apartments)) us"

subsection \<open>An example catalog\<close>

definition apt_current :: Apartment where
  "apt_current = \<lparr> ev_id = ''GZP-H04-001'', proje_adi = ''Gazipark'', sehir = ''Gaziantep'',
     ilce = ''Sahinbey'', mahalle = ''Yukaribayindir'', blok = ''H'', kat = 4, oda_sayisi = ''1+1'',
     m2 = 70, teslim_suresi = ''9 Ay'', bitis_tarihi = ''2026-08-12'', bugunku_pesin_fiyat = 761670 \<rparr>"

definition apt_near :: Apartment where
  "apt_near = \<lparr> ev_id = ''GZP-H04-002'', proje_adi = ''Gazipark'', sehir = ''Gaziantep'',
     ilce = ''Sahinbey'', mahalle = ''Yukaribayindir'', blok = ''H'', kat = 5, oda_sayisi = ''1+1'',
     m2 = 72, teslim_suresi = ''12 Ay'', bitis_tarihi = ''2026-11-12'', bugunku_pesin_fiyat = 800000 \<rparr>"

definition apt_far :: Apartment where
  "apt_far = \<lparr> ev_id = ''GZP-H12-004'', proje_adi = ''Gazipark'', sehir = ''Gaziantep'',
     ilce = ''Sahinbey'', mahalle = ''Yukaribayindir'', blok = ''H'', kat = 12, oda_sayisi = ''3+1'',
     m2 = 140, teslim_suresi = ''6 Ay'', bitis_tarihi = ''2026-05-12'', bugunku_pesin_fiyat = 2000000 \<rparr>"

definition catalog :: "Apartment list" where
  "catalog = [apt_current, apt_near, apt_far]"

subsection \<open>Example session contexts\<close>

definition now :: CurrentDate where
  "now = \<lparr> cd_year = 2026, cd_month = 11 \<rparr>"

definition st_empty :: ConversationState where
  \<comment> \<open>the context \<open>{}\<close> of a new session\<close>
  "st_empty = \<lparr> step = None, apartmentId = None, downAmount_st = None, monthlyRate_st = None,
     nInstallments_st = None, startYear_st = None, startMonth_st = None, downYear_st = None,
     downMonth_st = None, isAnnualRateSelected = None, desiredInstallment = None,
     calculatedPv = None, lastNpvResult = None, alternativeApartments = None,
     suggestedDownAmount = None \<rparr>"

definition st_rate :: ConversationState where
  \<comment> \<open>a property is chosen and the user has said that the rate will be monthly\<close>
  "st_rate = st_empty\<lparr> step := Some waiting_for_interest_rate, apartmentId := Some ''GZP-H04-001'',
     startYear_st := Some 2026, startMonth_st := Some 11, isAnnualRateSelected := Some False \<rparr>"



definition st_down :: ConversationState where
  \<comment> \<open>the rate "2" is recorded and the engine asks for the down payment\<close>
  "st_down = st_rate\<lparr> step := Some waiting_for_down_payment, monthlyRate_st := Some 2 \<rparr>"

definition st_year :: ConversationState where
  "st_year = st_down\<lparr> step := Some waiting_for_down_payment_year, downAmount_st := Some 300000 \<rparr>"

definition st_month :: ConversationState where
  "st_month = st_year\<lparr> step := Some waiting_for_down_payment_month, downYear_st := Some 2026 \<rparr>"

definition st_installments :: ConversationState where
  "st_installments = st_month\<lparr> step := Some waiting_for_installments, downMonth_st := Some 12 \<rparr>"


definition st_done_annual :: ConversationState where
  \<comment> \<open>a context in which an earlier dialogue chose the annual unit\<close>
  "st_done_annual = st_installments\<lparr> step := Some waiting_for_down_payment_year,
     isAnnualRateSelected := Some True \<rparr>"
section \<open>Properties of the solver\<close>

lemma geometricSumDiscount_loop_sum:
  "geometricSumDiscount_loop n r s sk i acc =
     acc + (\<Sum>j \<in> {i..<n}. if sk = Some (s + j) then 0 else 1 / power_int (1 + r) (s + j))"
proof (induction n r s sk i acc rule: geometricSumDiscount_loop.induct)
  case (1 n r s sk i acc)
  show ?case
  proof (cases "i < n")
    case False
    then show ?thesis by (simp add: geometricSumDiscount_loop.simps)
  next
    case True
    then have split: "{i..<n} = insert i {i + 1..<n}" by auto
    have fin: "finite {i + 1..<n}" and notin: "i \<notin> {i + 1..<n}" by auto
    show ?thesis
    proof (cases "sk = Some (s + i)")
      case sk: True
      have "geometricSumDiscount_loop n r s sk i acc = geometricSumDiscount_loop n r s sk (i + 1) acc"
        using True sk by (subst geometricSumDiscount_loop.simps) simp
      also have "\<dots> = acc + (\<Sum>j \<in> {i + 1..<n}. if sk = Some (s + j) then 0 else 1 / power_int (1 + r) (s + j))"
        using "1.IH"(1)[OF True refl] sk by simp
      finally show ?thesis using sk by (simp add: split sum.insert[OF fin notin])
    next
      case sk: False
      have "geometricSumDiscount_loop n r s sk i acc =
              geometricSumDiscount_loop n r s sk (i + 1) (acc + 1 / power_int (1 + r) (s + i))"
        using True sk by (subst geometricSumDiscount_loop.simps) simp
      also have "\<dots> = (acc + 1 / power_int (1 + r) (s + i)) +
              (\<Sum>j \<in> {i + 1..<n}. if sk = Some (s + j) then 0 else 1 / power_int (1 + r) (s + j))"
        using "1.IH"(2)[OF True refl] sk by simp
      finally show ?thesis using sk by (simp add: split sum.insert[OF fin notin])
    qed
  qed
qed

lemma geometricSumDiscount_no_skip:
  "geometricSumDiscount n r 1 None = (\<Sum>j \<in> {0..<n}. 1 / power_int (1 + r) (1 + j))"
  by (simp add: geometricSumDiscount_def geometricSumDiscount_loop_sum)

lemma discount_term_strict:
  assumes "-1 < (r1::real)" "r1 < r2" "0 \<le> j"
  shows "1 / power_int (1 + r2) (1 + j) < 1 / power_int (1 + r1) (1 + (j::int))"
proof -
  have pos: "0 < 1 + r1" "0 \<le> 1 + r1" using assms by simp_all
  have lt: "1 + r1 < 1 + r2" using assms by simp
  have n: "0 < nat (1 + j)" using assms by simp
  have "(1 + r1) ^ nat (1 + j) < (1 + r2) ^ nat (1 + j)"
    using power_strict_mono[OF lt pos(2) n] .
  moreover have "0 < (1 + r1) ^ nat (1 + j)" using pos by simp
  ultimately have "1 / (1 + r2) ^ nat (1 + j) < 1 / (1 + r1) ^ nat (1 + j)"
    by (simp add: frac_less2)
  then show ?thesis using assms by (simp add: power_int_def)
qed

text \<open>
  In exact arithmetic the discount sum without a skip is strictly decreasing in the rate on
  \<open>r > -1\<close>, and at rate 0 it is \<open>n\<close>. The arithmetic of the program rounds: see the section
  on the discount sum in binary64 arithmetic.
\<close>

lemma geometricSumDiscount_exact_strictly_decreasing:
  "1 \<le> n \<Longrightarrow> -1 < r1 \<Longrightarrow> r1 < r2 \<Longrightarrow>
     geometricSumDiscount n r2 1 None < geometricSumDiscount n r1 1 None
     \<and> geometricSumDiscount n 0 1 None = real_of_int n"
proof -
  assume n: "1 \<le> n" and r: "-1 < r1" "r1 < r2"
  have fin: "finite {0..<n}" and ne: "{0..<n} \<noteq> {}" using n by auto
  have "(\<Sum>j \<in> {0..<n}. 1 / power_int (1 + r2) (1 + j)) < (\<Sum>j \<in> {0..<n}. 1 / power_int (1 + r1) (1 + j))"
    by (rule sum_strict_mono[OF fin ne]) (simp add: discount_term_strict[OF r])
  moreover have "(\<Sum>j \<in> {0..<n}. 1 / power_int (1 + (0::real)) (1 + j)) = real_of_int n"
    using n by simp
  ultimately show ?thesis by (simp add: geometricSumDiscount_no_skip)
qed

subsection \<open>Evaluation of the solver on concrete inputs\<close>

lemmas eval_str = string_of_int_def string_of_nat.simps digit_char_def padStart2_def
  dateStr_def newDate_def getFullYear_def getMonth_def setMonth_def

lemmas eval_parse = entry_months_def Number_def is_digit_def nat_of_digits_def digit_val_def

lemmas eval_npv = calculateNPV_def Let_def monthsBetween_def presentValue_def
  geometricSumDiscount_def geometricSumDiscount_loop.simps scheduleConcurrent_def
  scheduleSkip_def scheduleSkip_loop.simps installment_entry_def pvOfSchedule_def add_opt_def
  upto.simps

text \<open>
  Claim C1, at a failing input. The down payment is due in the start month (offset 0), one
  installment, rate 0, target present value 300, down payment 100. Model A's schedule discounts
  back to 300. For Model B the solver divides the remaining 200 by the discount sum over
  \<open>n + 1 = 2\<close> offsets although no offset is skipped, so the installment is 100, the schedule
  holds the single installment of 100, and the present value it reports is 200, not 300.
\<close>

theorem calculateNPV_modelB_misses_target:
  "calculateNPV inp_offset0 = Inr \<lparr>
      modelA = \<lparr> monthlyInstallment = 200, nominalTotal = 300, presentValue_fld = Some 300,
                 schedule = [\<lparr> date = ''2026-12'', amount = 200, type = installment \<rparr>] \<rparr>,
      modelB = \<lparr> monthlyInstallment = 100, nominalTotal = 200, presentValue_fld = Some 200,
                 schedule = [\<lparr> date = ''2026-12'', amount = 100, type = installment \<rparr>] \<rparr>,
      downPaymentPV = 100, downPaymentDate = ''2026-11'' \<rparr>"
  by (simp add: inp_offset0_def eval_npv eval_str eval_parse)

text \<open>
  Claim C2, as stated, fails: with a target present value supplied and no installments the
  discount sum that divides the remaining present value is 0, and the solver returns a result
  all the same; it signals nothing.
\<close>

theorem calculateNPV_no_degenerate_signal:
  "nInstallments inp_no_installments \<le> 0
   \<and> geometricSumDiscount (nInstallments inp_no_installments) (monthlyRate inp_no_installments) 1 None = 0
   \<and> \<not> isl (calculateNPV inp_no_installments)"
  by (simp add: inp_no_installments_def eval_npv)

text \<open>
  Claim C2, amended. The solver signals an error exactly when neither target is supplied; with
  a target supplied it returns a result, whatever the installment count and the discount sums
  are.
\<close>

theorem calculateNPV_error_iff:
  "(\<exists>e. calculateNPV inputs = Inl e) = (targetPv inputs = None \<and> targetNominal inputs = None)"
  by (auto simp: calculateNPV_def Let_def split: option.splits)

theorem calculateNPV_error_iff_witness:
  "calculateNPV inp_no_target = Inl Error_target_missing
   \<and> (\<nexists>e. calculateNPV inp_no_installments = Inl e)"
  using calculateNPV_error_iff[of inp_no_target] calculateNPV_error_iff[of inp_no_installments]
  by (simp add: inp_no_target_def inp_no_installments_def) (metis error.exhaust)

subsection \<open>Model B and the month of the down payment\<close>

lemma setMonth_getMonth: "setMonth d (getMonth d + k) = d + k"
  by (simp add: setMonth_def getMonth_def getFullYear_def)

lemma scheduleSkip_loop_entries:
  "e \<in> set (scheduleSkip_loop n t sd T paid k sched) \<Longrightarrow>
     e \<in> set sched \<or> (\<exists>j\<ge>k. j \<noteq> t \<and> e = installment_entry (sd + j) T)"
proof (induction n t sd T paid k sched rule: scheduleSkip_loop.induct)
  case (1 n t sd T paid k sched)
  show ?case
  proof (cases "paid < n")
    case False
    with "1.prems" show ?thesis by (simp add: scheduleSkip_loop.simps)
  next
    case True
    show ?thesis
    proof (cases "k = t")
      case kt: True
      from "1.prems" True kt have "e \<in> set (scheduleSkip_loop n t sd T paid (k + 1) sched)"
        by (subst (asm) scheduleSkip_loop.simps) simp
      from "1.IH"(1)[OF True kt this] show ?thesis
        by (metis add_le_imp_le_right le_add_same_cancel1 order_trans zero_le_one zle_add1_eq_le zless_add1_eq)
    next
      case kt: False
      from "1.prems" True kt
      have "e \<in> set (scheduleSkip_loop n t sd T (paid + 1) (k + 1)
                (sched @ [installment_entry (setMonth sd (getMonth sd + k)) T]))"
        by (subst (asm) scheduleSkip_loop.simps) simp
      from "1.IH"(2)[OF True kt this]
      consider "e \<in> set sched" | "e = installment_entry (sd + k) T"
        | j where "k + 1 \<le> j" "j \<noteq> t" "e = installment_entry (sd + j) T"
        by (auto simp: setMonth_getMonth)
      then show ?thesis
      proof cases
        case 1
        then show ?thesis by simp
      next
        case 2
        with kt have "\<exists>j\<ge>k. j \<noteq> t \<and> e = installment_entry (sd + j) T" by blast
        then show ?thesis by simp
      next
        case 3
        then have "k \<le> j" by simp
        with 3 have "\<exists>j\<ge>k. j \<noteq> t \<and> e = installment_entry (sd + j) T" by blast
        then show ?thesis by simp
      qed
    qed
  qed
qed

lemma digit_char_is_digit: "n < 10 \<Longrightarrow> is_digit (digit_char n)"
proof -
  assume "n < 10"
  then have "n \<in> {0,1,2,3,4,5,6,7,8,9}" by auto
  then show ?thesis by (auto simp: is_digit_def digit_char_def)
qed

lemma digit_val_digit_char: "n < 10 \<Longrightarrow> digit_val (digit_char n) = n"
proof -
  assume "n < 10"
  then have "n \<in> {0,1,2,3,4,5,6,7,8,9}" by auto
  then show ?thesis by (auto simp: digit_val_def digit_char_def)
qed

lemma string_of_nat_digits: "list_all is_digit (string_of_nat n)"
proof (induction n rule: string_of_nat.induct)
  case (1 n)
  show ?case
  proof (cases "n < 10")
    case True
    then show ?thesis by (subst string_of_nat.simps) (simp add: digit_char_is_digit)
  next
    case False
    then show ?thesis using "1.IH" by (subst string_of_nat.simps) (simp add: digit_char_is_digit)
  qed
qed

lemma string_of_nat_nonempty: "string_of_nat n \<noteq> []"
  by (subst string_of_nat.simps) simp

lemma nat_of_digits_snoc: "nat_of_digits (s @ [c]) = 10 * nat_of_digits s + digit_val c"
  by (simp add: nat_of_digits_def)

lemma nat_of_digits_string_of_nat: "nat_of_digits (string_of_nat n) = n"
proof (induction n rule: string_of_nat.induct)
  case (1 n)
  show ?case
  proof (cases "n < 10")
    case True
    then show ?thesis
      by (subst string_of_nat.simps) (simp add: nat_of_digits_def digit_val_digit_char)
  next
    case False
    then show ?thesis using "1.IH"
      by (subst string_of_nat.simps) (simp add: nat_of_digits_snoc digit_val_digit_char)
  qed
qed

lemma string_of_nat_inj: "string_of_nat a = string_of_nat b \<Longrightarrow> a = b"
  by (metis nat_of_digits_string_of_nat)

lemma dash_not_digit: "\<not> is_digit CHR ''-''"
  by (simp add: is_digit_def)

lemma string_of_nat_no_dash: "string_of_nat n \<noteq> CHR ''-'' # s"
  using string_of_nat_digits[of n] dash_not_digit by auto

lemma string_of_int_inj: "string_of_int a = string_of_int b \<Longrightarrow> a = b"
  unfolding string_of_int_def
  by (auto split: if_splits dest: string_of_nat_inj simp: string_of_nat_no_dash string_of_nat_no_dash[symmetric])

lemma length_string_of_nat_small: "n < 10 \<Longrightarrow> length (string_of_nat n) = 1"
  by (subst string_of_nat.simps) simp

lemma length_string_of_nat_two: "10 \<le> n \<Longrightarrow> n < 100 \<Longrightarrow> length (string_of_nat n) = 2"
  by (subst string_of_nat.simps) (simp add: length_string_of_nat_small)

lemma string_of_nat_unfold_ge10:
  "10 \<le> n \<Longrightarrow> string_of_nat n = string_of_nat (n div 10) @ [digit_char (n mod 10)]"
  by (subst string_of_nat.simps) simp

lemma string_of_nat_unfold_lt10: "n < 10 \<Longrightarrow> string_of_nat n = [digit_char n]"
  by (subst string_of_nat.simps) simp

lemma month_str_length:
  assumes "1 \<le> m" "m \<le> 12"
  shows "length (padStart2 (string_of_int m)) = 2"
proof (cases "m < 10")
  case True
  then have "length (string_of_int m) = 1"
    using assms by (simp add: string_of_int_def length_string_of_nat_small)
  then show ?thesis by (simp add: padStart2_def)
next
  case False
  then have "length (string_of_int m) = 2"
    using assms by (simp add: string_of_int_def length_string_of_nat_two)
  then show ?thesis by (simp add: padStart2_def)
qed

lemma month_str_inj:
  assumes "1 \<le> a" "a \<le> 12" "1 \<le> b" "b \<le> 12"
    and eq: "padStart2 (string_of_int a) = padStart2 (string_of_int b)"
  shows "a = b"
proof -
  have len: "\<And>m. 1 \<le> m \<Longrightarrow> m \<le> 12 \<Longrightarrow>
      length (string_of_int m) = (if m < 10 then 1 else 2)"
    by (simp add: string_of_int_def length_string_of_nat_small length_string_of_nat_two)
  have pad: "\<And>m. 1 \<le> m \<Longrightarrow> m \<le> 12 \<Longrightarrow>
      padStart2 (string_of_int m) = (if m < 10 then CHR ''0'' # string_of_int m else string_of_int m)"
    by (simp add: padStart2_def len)
  show ?thesis
  proof (cases "a < 10"; cases "b < 10")
    assume "a < 10" "b < 10"
    with eq assms show ?thesis by (simp add: pad string_of_int_inj)
  next
    assume "\<not> a < 10" "\<not> b < 10"
    with eq assms show ?thesis by (simp add: pad string_of_int_inj)
  next
    assume "a < 10" "\<not> b < 10"
    with eq assms have "length (CHR ''0'' # string_of_int a) = 2" "CHR ''0'' # string_of_int a = string_of_int b"
      by (simp_all add: pad len)
    moreover have "string_of_int b = string_of_nat (nat b div 10) @ [digit_char (nat b mod 10)]"
      using \<open>\<not> b < 10\<close> by (simp add: string_of_int_def string_of_nat_unfold_ge10)
    moreover have "nat b div 10 = 1" using \<open>\<not> b < 10\<close> assms by simp
    ultimately show ?thesis by (simp add: string_of_nat_unfold_lt10 digit_char_def)
  next
    assume "\<not> a < 10" "b < 10"
    with eq assms have "CHR ''0'' # string_of_int b = string_of_int a"
      by (simp add: pad len)
    moreover have "string_of_int a = string_of_nat (nat a div 10) @ [digit_char (nat a mod 10)]"
      using \<open>\<not> a < 10\<close> by (simp add: string_of_int_def string_of_nat_unfold_ge10)
    moreover have "nat a div 10 = 1" using \<open>\<not> a < 10\<close> assms by simp
    ultimately show ?thesis by (simp add: string_of_nat_unfold_lt10 digit_char_def)
  qed
qed

lemma dateStr_inj: "dateStr a = dateStr b \<Longrightarrow> a = b"
proof -
  assume eq: "dateStr a = dateStr b"
  have ma: "1 \<le> getMonth a + 1" "getMonth a + 1 \<le> 12" and mb: "1 \<le> getMonth b + 1" "getMonth b + 1 \<le> 12"
    by (simp_all add: getMonth_def) 
  have la: "length (padStart2 (string_of_int (getMonth a + 1))) = 2"
    and lb: "length (padStart2 (string_of_int (getMonth b + 1))) = 2"
    using month_str_length ma mb by simp_all
  from eq have "(string_of_int (getFullYear a) @ ''-'') @ padStart2 (string_of_int (getMonth a + 1))
      = (string_of_int (getFullYear b) @ ''-'') @ padStart2 (string_of_int (getMonth b + 1))"
    by (simp add: dateStr_def)
  then have "string_of_int (getFullYear a) @ ''-'' = string_of_int (getFullYear b) @ ''-''"
    and m: "padStart2 (string_of_int (getMonth a + 1)) = padStart2 (string_of_int (getMonth b + 1))"
    using la lb by (simp_all add: append_eq_append_conv)
  then have "getFullYear a = getFullYear b" by (simp add: string_of_int_inj)
  moreover have "getMonth a = getMonth b" using month_str_inj[OF ma mb m] by simp
  ultimately show ?thesis
    by (metis getFullYear_def getMonth_def mult_div_mod_eq)
qed

lemma down_date_as_dateStr:
  assumes "1 \<le> dm" "dm \<le> 12"
  shows "string_of_int dy @ ''-'' @ padStart2 (string_of_int dm) = dateStr (dy * 12 + (dm - 1))"
proof -
  have "getFullYear (dy * 12 + (dm - 1)) = dy" "getMonth (dy * 12 + (dm - 1)) + 1 = dm"
    using assms by (simp_all add: getFullYear_def getMonth_def)
  then show ?thesis by (simp add: dateStr_def)
qed

lemma string_of_int_nonempty: "string_of_int i \<noteq> []"
  by (simp add: string_of_int_def string_of_nat_nonempty)

lemma string_of_int_last_digit: "is_digit (last (string_of_int i))"
proof -
  have "is_digit (last (string_of_nat n))" for n
    using string_of_nat_digits[of n] string_of_nat_nonempty[of n]
    by (simp add: list_all_iff)
  then show ?thesis by (simp add: string_of_int_def string_of_nat_nonempty)
qed

lemma padStart2_long: "2 \<le> length s \<Longrightarrow> padStart2 s = s"
  by (simp add: padStart2_def)

lemma padStart2_length: "2 \<le> length (padStart2 s)"
  by (simp add: padStart2_def)

lemma nat_of_digits_zeros: "nat_of_digits (replicate k CHR ''0'' @ w) = nat_of_digits w"
  by (induction k) (simp_all add: nat_of_digits_def digit_val_def)

lemma month_digits_in_entry:
  "list_all is_digit (padStart2 (string_of_int (getMonth d + 1)))"
  "nat_of_digits (padStart2 (string_of_int (getMonth d + 1))) = nat (getMonth d + 1)"
  "length (padStart2 (string_of_int (getMonth d + 1))) = 2"
proof -
  have m: "1 \<le> getMonth d + 1" "getMonth d + 1 \<le> 12" by (simp_all add: getMonth_def)
  have s: "string_of_int (getMonth d + 1) = string_of_nat (nat (getMonth d + 1))"
    using m by (simp add: string_of_int_def)
  have z: "is_digit CHR ''0''" by (simp add: is_digit_def)
  show "list_all is_digit (padStart2 (string_of_int (getMonth d + 1)))"
    unfolding s padStart2_def using string_of_nat_digits[of "nat (getMonth d + 1)"] z
    by (auto simp: list_all_iff)
  show "nat_of_digits (padStart2 (string_of_int (getMonth d + 1))) = nat (getMonth d + 1)"
    unfolding s padStart2_def by (simp add: nat_of_digits_zeros nat_of_digits_string_of_nat)
  show "length (padStart2 (string_of_int (getMonth d + 1))) = 2"
    by (rule month_str_length[OF m])
qed

lemma down_month_out_of_range_differs:
  assumes dm: "dm < 1 \<or> 12 < dm"
  shows "string_of_int dy @ ''-'' @ padStart2 (string_of_int dm) \<noteq> dateStr d"
proof
  define P where "P = padStart2 (string_of_int dm)"
  define MM where "MM = padStart2 (string_of_int (getMonth d + 1))"
  define M where "M = getMonth d + 1"
  have M: "1 \<le> M" "M \<le> 12" by (simp_all add: M_def getMonth_def)
  have MM: "list_all is_digit MM" "nat_of_digits MM = nat M" "length MM = 2"
    unfolding MM_def M_def using month_digits_in_entry by simp_all
  assume "string_of_int dy @ ''-'' @ padStart2 (string_of_int dm) = dateStr d"
  then have eq: "(string_of_int dy @ ''-'') @ P = string_of_int (getFullYear d) @ (''-'' @ MM)"
    by (simp add: dateStr_def P_def MM_def)
  have split: "\<exists>us. (string_of_int dy @ ''-'' = string_of_int (getFullYear d) @ us \<and> us @ P = ''-'' @ MM)
       \<or> ((string_of_int dy @ ''-'') @ us = string_of_int (getFullYear d) \<and> P = us @ ''-'' @ MM)"
    using eq by (simp only: append_eq_append_conv2)
  have Plen: "2 \<le> length P" unfolding P_def by (rule padStart2_length)
  have dashMM: "CHR ''-'' \<notin> set MM" using MM(1) dash_not_digit by (auto simp: list_all_iff)
  show False
  proof (cases "dm < 0")
    case False
    then have s: "string_of_int dm = string_of_nat (nat dm)" by (simp add: string_of_int_def)
    have Pd: "list_all is_digit P"
      unfolding P_def s padStart2_def using string_of_nat_digits[of "nat dm"]
      by (auto simp: list_all_iff is_digit_def)
    have Pv: "nat_of_digits P = nat dm"
      unfolding P_def s padStart2_def by (simp add: nat_of_digits_zeros nat_of_digits_string_of_nat)
    from split obtain us where
      "(string_of_int dy @ ''-'' = string_of_int (getFullYear d) @ us \<and> us @ P = ''-'' @ MM)
       \<or> ((string_of_int dy @ ''-'') @ us = string_of_int (getFullYear d) \<and> P = us @ ''-'' @ MM)"
      by blast
    then show False
    proof
      assume a: "string_of_int dy @ ''-'' = string_of_int (getFullYear d) @ us \<and> us @ P = ''-'' @ MM"
      show False
      proof (cases us)
        case Nil
        with a have "P = ''-'' @ MM" by simp
        with Pd dash_not_digit show False by simp
      next
        case (Cons u us')
        with a have "us' @ P = MM" by simp
        then have "length P \<le> 2" using MM(3) by (metis length_append le_add2)
        with Plen have "length P = 2" by simp
        with \<open>us' @ P = MM\<close> MM(3) have "P = MM" by (cases us') auto
        then have "nat dm = nat M" using Pv MM(2) by simp
        with False M dm show False by linarith
      qed
    next
      assume "(string_of_int dy @ ''-'') @ us = string_of_int (getFullYear d) \<and> P = us @ ''-'' @ MM"
      then have "CHR ''-'' \<in> set P" by simp
      with Pd dash_not_digit show False by (auto simp: list_all_iff)
    qed
  next
    case True
    then have s: "string_of_int dm = CHR ''-'' # string_of_nat (nat (- dm))"
      by (simp add: string_of_int_def)
    have "2 \<le> length (string_of_int dm)" unfolding s using string_of_nat_nonempty[of "nat (- dm)"]
      by (cases "string_of_nat (nat (- dm))") simp_all
    then have P: "P = CHR ''-'' # string_of_nat (nat (- dm))"
      unfolding P_def s[symmetric] by (rule padStart2_long)
    have tail: "CHR ''-'' \<notin> set (string_of_nat (nat (- dm)))"
      using string_of_nat_digits[of "nat (- dm)"] dash_not_digit by (auto simp: list_all_iff)
    from split obtain us where
      "(string_of_int dy @ ''-'' = string_of_int (getFullYear d) @ us \<and> us @ P = ''-'' @ MM)
       \<or> ((string_of_int dy @ ''-'') @ us = string_of_int (getFullYear d) \<and> P = us @ ''-'' @ MM)"
      by blast
    then show False
    proof
      assume a: "string_of_int dy @ ''-'' = string_of_int (getFullYear d) @ us \<and> us @ P = ''-'' @ MM"
      show False
      proof (cases us)
        case Nil
        with a have "string_of_int (getFullYear d) = string_of_int dy @ ''-''" by simp
        then have "last (string_of_int (getFullYear d)) = CHR ''-''" by simp
        with string_of_int_last_digit[of "getFullYear d"] dash_not_digit show False by simp
      next
        case (Cons u us')
        with a have "us' @ P = MM" by simp
        then have "CHR ''-'' \<in> set MM" using P by (metis in_set_conv_decomp append.assoc append_Cons)
        with dashMM show False by simp
      qed
    next
      assume b: "(string_of_int dy @ ''-'') @ us = string_of_int (getFullYear d) \<and> P = us @ ''-'' @ MM"
      show False
      proof (cases us)
        case Nil
        with b have "string_of_int (getFullYear d) = string_of_int dy @ ''-''" by simp
        then have "last (string_of_int (getFullYear d)) = CHR ''-''" by simp
        with string_of_int_last_digit[of "getFullYear d"] dash_not_digit show False by simp
      next
        case (Cons u us')
        with b P have "string_of_nat (nat (- dm)) = us' @ ''-'' @ MM" by simp
        then have "CHR ''-'' \<in> set (string_of_nat (nat (- dm)))" by simp
        with tail show False by simp
      qed
    qed
  qed
qed

lemma scheduleSkip_entries:
  assumes "e \<in> set (scheduleSkip inp T)"
  shows "\<exists>j\<ge>1. j \<noteq> monthsBetween (startYear inp) (startMonth inp) (downYear inp) (downMonth inp)
           \<and> date e = dateStr (newDate (startYear inp) (startMonth inp - 1) + j)"
  using scheduleSkip_loop_entries[of e "nInstallments inp"
      "monthsBetween (startYear inp) (startMonth inp) (downYear inp) (downMonth inp)"
      "newDate (startYear inp) (startMonth inp - 1)" T 0 1 "[]"] assms
  by (auto simp: scheduleSkip_def Let_def installment_entry_def)

lemma calculateNPV_modelB_schedule:
  "calculateNPV inp = Inr res \<Longrightarrow> \<exists>T. schedule (modelB res) = scheduleSkip inp T"
  by (auto simp: calculateNPV_def Let_def split: option.splits)

lemma calculateNPV_downPaymentDate:
  "calculateNPV inp = Inr res \<Longrightarrow>
     downPaymentDate res = string_of_int (downYear inp) @ ''-'' @ padStart2 (string_of_int (downMonth inp))"
  by (auto simp: calculateNPV_def Let_def split: option.splits)

text \<open>
  Claim C3, as stated, fails for a start year from 0 to 99. \<open>new Date(99, 10, 1)\<close> is November
  1999, while \<open>monthsBetween\<close> takes the year 99 as written: for a down payment in January 2000
  it gives the offset 22802, which the two installments never reach, and the second installment
  is dated 2000-01, the down payment's month.
\<close>

theorem modelB_two_digit_year_hits_down_month:
  "1 \<le> nInstallments inp_two_digit_year
   \<and> monthsBetween (startYear inp_two_digit_year) (startMonth inp_two_digit_year)
        (downYear inp_two_digit_year) (downMonth inp_two_digit_year) = 22802
   \<and> map date (schedule (modelB (projr (calculateNPV inp_two_digit_year)))) = [''1999-12'', ''2000-01'']
   \<and> downPaymentDate (projr (calculateNPV inp_two_digit_year)) = ''2000-01''
   \<and> downPaymentDate (projr (calculateNPV inp_two_digit_year))
         \<in> date ` set (schedule (modelB (projr (calculateNPV inp_two_digit_year))))"
proof -
  have s: "map date (schedule (modelB (projr (calculateNPV inp_two_digit_year)))) = [''1999-12'', ''2000-01'']"
    by (simp add: inp_two_digit_year_def calculateNPV_def Let_def monthsBetween_def scheduleSkip_def
          scheduleSkip_loop.simps installment_entry_def eval_str)
  have d: "downPaymentDate (projr (calculateNPV inp_two_digit_year)) = ''2000-01''"
    by (simp add: inp_two_digit_year_def calculateNPV_def Let_def eval_str)
  have "downPaymentDate (projr (calculateNPV inp_two_digit_year))
         \<in> set (map date (schedule (modelB (projr (calculateNPV inp_two_digit_year)))))"
    unfolding s d by simp
  then have "downPaymentDate (projr (calculateNPV inp_two_digit_year))
         \<in> date ` set (schedule (modelB (projr (calculateNPV inp_two_digit_year))))"
    by (simp only: set_map)
  with s d show ?thesis by (simp add: inp_two_digit_year_def monthsBetween_def)
qed

text \<open>
  Claim C3, amended. For every input whose start year is not one of the two-digit years 0..99
  (which \<open>Date\<close> reads as 1900..1999), Model B's returned schedule holds no entry whose
  calendar month is the down payment's, whatever the offset of the down payment from the start
  date, the number of the down-payment month and the installment count are.
\<close>

theorem modelB_schedule_avoids_down_month:
  assumes "calculateNPV inp = Inr res"
    and "startYear inp < 0 \<or> 99 < startYear inp"
  shows "\<forall>e \<in> set (schedule (modelB res)). date e \<noteq> downPaymentDate res"
proof
  fix e assume e: "e \<in> set (schedule (modelB res))"
  obtain T where "schedule (modelB res) = scheduleSkip inp T"
    using calculateNPV_modelB_schedule[OF assms(1)] by blast
  with e obtain j where j: "1 \<le> j"
      "j \<noteq> monthsBetween (startYear inp) (startMonth inp) (downYear inp) (downMonth inp)"
      "date e = dateStr (newDate (startYear inp) (startMonth inp - 1) + j)"
    using scheduleSkip_entries[of e inp T] by auto
  note dd = calculateNPV_downPaymentDate[OF assms(1)]
  show "date e \<noteq> downPaymentDate res"
  proof (cases "1 \<le> downMonth inp \<and> downMonth inp \<le> 12")
    case False
    then have "downMonth inp < 1 \<or> 12 < downMonth inp" by auto
    from down_month_out_of_range_differs[OF this,
        of "downYear inp" "newDate (startYear inp) (startMonth inp - 1) + j"]
    show ?thesis
      unfolding dd j(3) by (rule not_sym)
  next
    case True
    then have down: "downPaymentDate res = dateStr (downYear inp * 12 + (downMonth inp - 1))"
      using dd down_date_as_dateStr[of "downMonth inp" "downYear inp"] by simp
    show ?thesis
    proof
      assume "date e = downPaymentDate res"
      then have "newDate (startYear inp) (startMonth inp - 1) + j = downYear inp * 12 + (downMonth inp - 1)"
        using j(3) down dateStr_inj by simp
      then have "j = monthsBetween (startYear inp) (startMonth inp) (downYear inp) (downMonth inp)"
        using assms(2) by (auto simp: newDate_def monthsBetween_def)
      with j(2) show False by simp
    qed
  qed
qed

theorem modelB_schedule_avoids_down_month_witness:
  "99 < startYear inp_skip \<and> 1 \<le> nInstallments inp_skip
   \<and> monthsBetween (startYear inp_skip) (startMonth inp_skip) (downYear inp_skip) (downMonth inp_skip) = 1
   \<and> map date (schedule (modelB (projr (calculateNPV inp_skip)))) = [''2027-01'', ''2027-02'']
   \<and> downPaymentDate (projr (calculateNPV inp_skip)) = ''2026-12''
   \<and> downPaymentDate (projr (calculateNPV inp_skip))
         \<notin> date ` set (schedule (modelB (projr (calculateNPV inp_skip))))"
proof -
  have r: "calculateNPV inp_skip = Inr (projr (calculateNPV inp_skip))"
    by (simp add: calculateNPV_def inp_skip_def Let_def)
  have h: "startYear inp_skip < 0 \<or> 99 < startYear inp_skip"
    by (simp add: inp_skip_def)
  have "map date (schedule (modelB (projr (calculateNPV inp_skip)))) = [''2027-01'', ''2027-02'']"
    by (simp add: inp_skip_def calculateNPV_def Let_def monthsBetween_def scheduleSkip_def
          scheduleSkip_loop.simps installment_entry_def eval_str)
  moreover have "downPaymentDate (projr (calculateNPV inp_skip)) = ''2026-12''"
    by (simp add: inp_skip_def calculateNPV_def Let_def eval_str)
  moreover have "downPaymentDate (projr (calculateNPV inp_skip))
         \<notin> date ` set (schedule (modelB (projr (calculateNPV inp_skip))))"
    using modelB_schedule_avoids_down_month[OF r h] by (metis imageE)
  ultimately show ?thesis
    by (simp add: inp_skip_def monthsBetween_def)
qed
section \<open>Properties of the discount sum in binary64 arithmetic\<close>

subsection \<open>Rounding\<close>

lemma round_half_even_cases:
  "round_half_even x = \<lfloor>x\<rfloor> \<or> round_half_even x = \<lfloor>x\<rfloor> + 1"
  by (simp add: round_half_even_def Let_def)

lemma round_half_even_of_int: "round_half_even (of_int m) = m"
  by (simp add: round_half_even_def)

lemma round_half_even_mono:
  assumes "x \<le> y" shows "round_half_even x \<le> round_half_even y"
proof (cases "\<lfloor>x\<rfloor> = \<lfloor>y\<rfloor>")
  case True
  define f where "f = \<lfloor>y\<rfloor>"
  have fx: "\<lfloor>x\<rfloor> = f" using True f_def by simp
  have le: "x - of_int f \<le> y - of_int f" using assms by simp
  consider "y - of_int f < 1 / 2" | "y - of_int f = 1 / 2" | "1 / 2 < y - of_int f" by linarith
  then show ?thesis
  proof cases
    case 1
    then have "x - of_int f < 1 / 2" using le by linarith
    with 1 show ?thesis by (simp add: round_half_even_def Let_def fx flip: f_def)
  next
    case 2
    then have y: "round_half_even y = (if even f then f else f + 1)"
      by (simp add: round_half_even_def Let_def flip: f_def)
    have "x - of_int f < 1 / 2 \<or> x - of_int f = 1 / 2" using le 2 by linarith
    then have "round_half_even x = f \<or> round_half_even x = (if even f then f else f + 1)"
      by (auto simp: round_half_even_def Let_def fx)
    with y show ?thesis by auto
  next
    case 3
    then have "round_half_even y = f + 1"
      by (simp add: round_half_even_def Let_def flip: f_def)
    moreover have "round_half_even x \<le> f + 1"
      using round_half_even_cases[of x] fx by linarith
    ultimately show ?thesis by simp
  qed
next
  case False
  then have "\<lfloor>x\<rfloor> < \<lfloor>y\<rfloor>" using floor_mono[OF assms] by linarith
  moreover have "round_half_even x \<le> \<lfloor>x\<rfloor> + 1" using round_half_even_cases[of x] by linarith
  moreover have "\<lfloor>y\<rfloor> \<le> round_half_even y" using round_half_even_cases[of y] by linarith
  ultimately show ?thesis by linarith
qed

lemma round_half_even_ge: "of_int a \<le> x \<Longrightarrow> a \<le> round_half_even x"
  using round_half_even_mono[of "of_int a" x] by (simp add: round_half_even_of_int)

lemma round_half_even_le: "x \<le> of_int b \<Longrightarrow> round_half_even x \<le> b"
  using round_half_even_mono[of x "of_int b"] by (simp add: round_half_even_of_int)

lemma two_powr_int: "(2::real) powr real_of_int e = power_int 2 e"
  by (rule powr_real_of_int') simp_all

lemma two_powr_int_Suc: "(2::real) powr (real_of_int e + 1) = power_int 2 (e + 1)"
  using two_powr_int[of "e + 1"] by simp

lemma floor_log2_iff:
  "0 < x \<Longrightarrow> (\<lfloor>log 2 x\<rfloor> = e) = (power_int 2 e \<le> x \<and> x < power_int 2 (e + 1))"
  by (simp add: floor_log_eq_powr_iff two_powr_int two_powr_int_Suc)

lemma exponent_normal:
  assumes "power_int 2 e \<le> \<bar>x\<bar>" "\<bar>x\<bar> < power_int 2 (e + 1)" "min_exponent \<le> e"
  shows "exponent x = e"
proof -
  have pos: "0 < \<bar>x\<bar>" using assms(1) zero_less_power_int[of "2::real" e] by linarith
  have "\<lfloor>log 2 \<bar>x\<bar>\<rfloor> = e"
    using assms(1,2) by (simp add: floor_log2_iff[OF pos])
  then show ?thesis using assms(3) by (simp add: exponent_def)
qed

lemma exponent_subnormal:
  assumes "x \<noteq> 0" "\<bar>x\<bar> < power_int 2 min_exponent"
  shows "exponent x = min_exponent"
proof -
  have pos: "0 < \<bar>x\<bar>" using assms(1) by simp
  have "log 2 \<bar>x\<bar> < log 2 (power_int 2 min_exponent)"
    using assms(2) pos by (subst log_less_cancel_iff) simp_all
  also have "\<dots> = of_int min_exponent"
    unfolding two_powr_int[symmetric] by (rule log_powr_cancel) simp_all
  finally have "\<lfloor>log 2 \<bar>x\<bar>\<rfloor> < min_exponent" by linarith
  then show ?thesis by (simp add: exponent_def)
qed

lemma exponent_cases:
  assumes "x \<noteq> 0"
  shows "(exponent x = min_exponent \<and> \<bar>x\<bar> < power_int 2 (min_exponent))
       \<or> (min_exponent \<le> exponent x \<and> power_int 2 (exponent x) \<le> \<bar>x\<bar> \<and> \<bar>x\<bar> < power_int 2 (exponent x + 1))"
proof (cases "\<bar>x\<bar> < power_int 2 (min_exponent)")
  case True
  then show ?thesis using exponent_subnormal[OF assms] by simp
next
  case False
  have pos: "0 < \<bar>x\<bar>" using assms by simp
  define e where "e = \<lfloor>log 2 \<bar>x\<bar>\<rfloor>"
  have b: "power_int 2 e \<le> \<bar>x\<bar> \<and> \<bar>x\<bar> < power_int 2 (e + 1)"
    using floor_log2_iff[OF pos, of e] unfolding e_def by simp
  have "min_exponent \<le> e"
  proof (rule ccontr)
    assume "\<not> min_exponent \<le> e"
    then have "e + 1 \<le> min_exponent" by simp
    then have "power_int (2::real) (e + 1) \<le> power_int 2 (min_exponent)"
      by (intro power_int_increasing) simp_all
    with b False show False by linarith
  qed
  with b exponent_normal[of e x] show ?thesis by simp
qed

lemma quantum_pos: "0 < quantum x"
  by (simp add: quantum_def)

lemma quantum_scale: "power_int 2 (exponent x) = 2 ^ 52 * quantum x"
proof -
  have "power_int (2::real) (52 + (exponent x - 52)) = power_int 2 52 * power_int 2 (exponent x - 52)"
    by (rule power_int_add) simp
  then show ?thesis by (simp add: quantum_def)
qed

lemma quantum_scale_Suc: "power_int 2 (exponent x + 1) = 2 ^ 53 * quantum x"
proof -
  have "power_int (2::real) (53 + (exponent x - 52)) = power_int 2 53 * power_int 2 (exponent x - 52)"
    by (rule power_int_add) simp
  moreover have "53 + (exponent x - 52) = exponent x + 1" by simp
  ultimately show ?thesis by (simp add: quantum_def)
qed

lemma rnd_nonneg: "0 \<le> x \<Longrightarrow> 0 \<le> rnd x"
proof (cases "x = 0")
  case False
  assume "0 \<le> x"
  then have "of_int 0 \<le> x / quantum x" using quantum_pos[of x] by simp
  then have "0 \<le> round_half_even (x / quantum x)" by (rule round_half_even_ge)
  then show ?thesis using quantum_pos[of x] False by (simp add: rnd_def)
qed (simp add: rnd_def)

lemma rnd_fixed:
  assumes "y / quantum y = of_int m" shows "rnd y = y"
proof (cases "y = 0")
  case False
  have "rnd y = of_int m * quantum y"
    using False by (simp add: rnd_def assms round_half_even_of_int)
  also have "\<dots> = y" using assms quantum_pos[of y] by (simp add: field_simps)
  finally show ?thesis .
qed (simp add: rnd_def)

lemma rnd_upper:
  assumes "0 < x" shows "rnd x \<le> power_int 2 (exponent x + 1)"
proof -
  have "power_int (2::real) min_exponent \<le> power_int 2 (min_exponent + 1)"
    by (intro power_int_increasing) simp_all
  then have "x < power_int 2 (exponent x + 1)"
    using exponent_cases[of x] assms by auto
  then have "x < 2 ^ 53 * quantum x" unfolding quantum_scale_Suc .
  then have "x / quantum x \<le> of_int (2 ^ 53)"
    using quantum_pos[of x] by (simp add: field_simps)
  then have "round_half_even (x / quantum x) \<le> 2 ^ 53" by (rule round_half_even_le)
  then have "of_int (round_half_even (x / quantum x)) * quantum x \<le> of_int (2 ^ 53) * quantum x"
    using quantum_pos[of x] by (intro mult_right_mono) simp_all
  then show ?thesis using assms by (simp add: rnd_def quantum_scale_Suc)
qed

lemma rnd_lower:
  assumes "0 < x" "power_int 2 (exponent x) \<le> x"
  shows "power_int 2 (exponent x) \<le> rnd x"
proof -
  have "2 ^ 52 * quantum x \<le> x" using assms(2) unfolding quantum_scale .
  then have "of_int (2 ^ 52) \<le> x / quantum x"
    using quantum_pos[of x] by (simp add: field_simps)
  then have "2 ^ 52 \<le> round_half_even (x / quantum x)" by (rule round_half_even_ge)
  then have "of_int (2 ^ 52) * quantum x \<le> of_int (round_half_even (x / quantum x)) * quantum x"
    using quantum_pos[of x] by (intro mult_right_mono) simp_all
  then show ?thesis using assms by (simp add: rnd_def quantum_scale)
qed

lemma exponent_mono:
  assumes "0 < x" "x \<le> y" shows "exponent x \<le> exponent y"
proof -
  have "log 2 \<bar>x\<bar> \<le> log 2 \<bar>y\<bar>" using assms by simp
  then have "\<lfloor>log 2 \<bar>x\<bar>\<rfloor> \<le> \<lfloor>log 2 \<bar>y\<bar>\<rfloor>" by (rule floor_mono)
  then show ?thesis by (simp add: exponent_def)
qed

lemma rnd_mono:
  assumes "0 \<le> x" "x \<le> y" shows "rnd x \<le> rnd y"
proof (cases "x = 0")
  case True
  then show ?thesis using rnd_nonneg[of y] assms by (simp add: rnd_def)
next
  case False
  then have x: "0 < x" and y: "0 < y" using assms by simp_all
  have le: "exponent x \<le> exponent y" using exponent_mono[OF x assms(2)] .
  show ?thesis
  proof (cases "exponent x = exponent y")
    case True
    then have q: "quantum x = quantum y" by (simp add: quantum_def)
    have "x / quantum y \<le> y / quantum y"
      using assms(2) quantum_pos[of y] by (simp add: divide_right_mono)
    then have "round_half_even (x / quantum y) \<le> round_half_even (y / quantum y)"
      by (rule round_half_even_mono)
    then have "of_int (round_half_even (x / quantum y)) * quantum y
        \<le> of_int (round_half_even (y / quantum y)) * quantum y"
      using quantum_pos[of y] by (intro mult_right_mono) simp_all
    then show ?thesis using x y by (simp add: rnd_def q)
  next
    case False
    then have lt: "exponent x + 1 \<le> exponent y" using le by simp
    have "min_exponent \<le> exponent x" by (simp add: exponent_def)
    then have "exponent y \<noteq> min_exponent" using lt by simp
    then have n: "power_int 2 (exponent y) \<le> y"
      using exponent_cases[of y] y by auto
    have "rnd x \<le> power_int 2 (exponent x + 1)" by (rule rnd_upper[OF x])
    also have "\<dots> \<le> power_int 2 (exponent y)"
      using lt by (intro power_int_increasing) simp_all
    also have "\<dots> \<le> rnd y" by (rule rnd_lower[OF y n])
    finally show ?thesis .
  qed
qed

lemma min_exponent_le: "power_int (2::real) min_exponent \<le> 1"
proof -
  have "power_int (2::real) min_exponent \<le> power_int 2 0"
    by (intro power_int_increasing) (simp_all add: min_exponent_def)
  then show ?thesis by simp
qed

lemma rnd_same_exponent:
  assumes "x \<noteq> 0" "exponent (rnd x) = exponent x" shows "rnd (rnd x) = rnd x"
proof (rule rnd_fixed)
  have "quantum (rnd x) = quantum x" using assms(2) by (simp add: quantum_def)
  then show "rnd x / quantum (rnd x) = of_int (round_half_even (x / quantum x))"
    using assms(1) quantum_pos[of x] by (simp add: rnd_def)
qed

lemma rnd_idem:
  assumes "0 \<le> x" shows "rnd (rnd x) = rnd x"
proof (cases "x = 0 \<or> rnd x = 0")
  case True
  then show ?thesis by (auto simp: rnd_def)
next
  case False
  then have x: "0 < x" and y: "0 < rnd x" using assms rnd_nonneg[OF assms] by simp_all
  define e where "e = exponent x"
  have e: "min_exponent \<le> e" by (simp add: e_def exponent_def)
  have up: "rnd x \<le> power_int 2 (e + 1)" unfolding e_def by (rule rnd_upper[OF x])
  show ?thesis
  proof (cases "rnd x = power_int 2 (e + 1)")
    case True
    have "power_int (2::real) (e + 1) < power_int 2 (e + 1 + 1)"
      by (intro power_int_strict_increasing) simp_all
    then have ex: "exponent (rnd x) = e + 1"
      using True e by (intro exponent_normal) simp_all
    have "rnd x = 2 ^ 52 * quantum (rnd x)"
      using quantum_scale[of "rnd x"] True ex by simp
    then have "rnd x / quantum (rnd x) = of_int (2 ^ 52)"
      using quantum_pos[of "rnd x"] by (simp add: field_simps)
    then show ?thesis by (rule rnd_fixed)
  next
    case False
    then have lt: "rnd x < power_int 2 (e + 1)" using up by simp
    have "exponent (rnd x) = e"
    proof (cases "power_int 2 e \<le> rnd x")
      case True
      then show ?thesis using lt e y by (intro exponent_normal) simp_all
    next
      case False
      have "\<not> power_int 2 e \<le> x"
        using False rnd_lower[OF x] unfolding e_def by blast
      then have "e = min_exponent" using exponent_cases[of x] x unfolding e_def by auto
      then show ?thesis using False y by (simp add: exponent_subnormal)
    qed
    then show ?thesis using x unfolding e_def by (intro rnd_same_exponent) simp_all
  qed
qed

lemma rnd_of_int:
  assumes "0 \<le> m" "m \<le> 2 ^ 53" shows "rnd (of_int m) = of_int m"
proof (cases "m = 0")
  case False
  define x :: real where "x = of_int m"
  define e where "e = exponent x"
  have x1: "1 \<le> x" using False assms(1) by (simp add: x_def)
  have xu: "x \<le> 2 ^ 53" using assms(2) unfolding x_def
    by (metis of_int_le_iff of_int_numeral of_int_power)
  have "\<not> \<bar>x\<bar> < power_int 2 min_exponent" using x1 min_exponent_le by linarith
  then have n: "power_int 2 e \<le> x" "x < power_int 2 (e + 1)"
    using exponent_cases[of x] x1 unfolding e_def by auto
  have e0: "0 \<le> e"
  proof (rule ccontr)
    assume "\<not> 0 \<le> e"
    then have "power_int (2::real) (e + 1) \<le> power_int 2 0"
      by (intro power_int_increasing) simp_all
    with n(2) x1 show False by simp
  qed
  have e53: "e \<le> 53"
  proof (rule ccontr)
    assume "\<not> e \<le> 53"
    then have "power_int (2::real) 53 < power_int 2 e"
      by (intro power_int_strict_increasing) simp_all
    with n(1) xu show False by simp
  qed
  have q: "quantum x = power_int 2 (e - 52)" by (simp add: quantum_def e_def)
  show ?thesis
  proof (cases "e = 53")
    case True
    then have "x = 2 ^ 53" using n(1) xu by simp
    moreover have "quantum x = 2" using q True by simp
    ultimately have "x / quantum x = of_int (2 ^ 52)" by simp
    then show ?thesis unfolding x_def by (rule rnd_fixed)
  next
    case False
    then have le: "0 \<le> 52 - e" using e53 by simp
    have "quantum x = inverse (power_int 2 (52 - e))"
      unfolding q using power_int_minus[of "2::real" "52 - e"] by simp
    also have "\<dots> = inverse (2 ^ nat (52 - e))"
      using le by (simp add: power_int_nonneg_exp)
    finally have "x / quantum x = of_int (m * 2 ^ nat (52 - e))"
      by (simp add: x_def divide_inverse)
    then show ?thesis unfolding x_def by (rule rnd_fixed)
  qed
qed (simp add: rnd_def)

lemma rnd_eval:
  assumes "power_int 2 e \<le> \<bar>x\<bar>" "\<bar>x\<bar> < power_int 2 (e + 1)" "min_exponent \<le> e"
  shows "rnd x = of_int (round_half_even (x / power_int 2 (e - 52))) * power_int 2 (e - 52)"
proof -
  have p: "0 < power_int (2::real) e" by simp
  have "x \<noteq> 0"
  proof
    assume "x = 0"
    with assms(1) have "power_int (2::real) e \<le> 0" by simp
    with p show False by linarith
  qed
  then show ?thesis using exponent_normal[OF assms] by (simp add: rnd_def quantum_def)
qed


subsection \<open>Addition and division on the doubles from zero to infinity\<close>

lemma max_exponent_pos: "0 < power_int (2::real) max_exponent"
  by simp

lemma fl_nonneg_eq:
  assumes "0 \<le> z"
  shows "fl z = (if power_int 2 max_exponent \<le> rnd z then PosInf else Finite (rnd z))"
proof -
  have "0 \<le> rnd z" by (rule rnd_nonneg[OF assms])
  moreover have "- power_int (2::real) max_exponent < 0" by simp
  ultimately have "\<not> rnd z \<le> - power_int 2 max_exponent" by linarith
  then show ?thesis using assms by (simp add: fl_def Let_def)
qed

lemma fl_nonneg:
  assumes "0 \<le> z" shows "nonneg (fl z)" "is_double (fl z)"
  using rnd_nonneg[OF assms] rnd_idem[OF assms]
  by (simp_all add: fl_nonneg_eq[OF assms] nonneg_def is_double_def)

lemma fl_mono:
  assumes "0 \<le> z" "z \<le> z'" shows "le_f64 (fl z) (fl z')"
proof -
  have z': "0 \<le> z'" using assms by simp
  from rnd_mono[OF assms] show ?thesis
    by (simp add: fl_nonneg_eq[OF assms(1)] fl_nonneg_eq[OF z'] le_f64_def is_inf_def)
qed

lemma max_exponent_not_le: "\<not> power_int (2::real) max_exponent \<le> 0"
  by (simp add: not_le)

lemma fl_zero: "fl 0 = Finite 0"
  by (simp add: fl_nonneg_eq rnd_def max_exponent_not_le)

lemma value_of_nonneg: "nonneg a \<Longrightarrow> 0 \<le> value_of a"
  by (cases a) (simp_all add: nonneg_def)

lemma le_f64_zero: "nonneg a \<Longrightarrow> le_f64 (Finite 0) a"
  by (cases a) (simp_all add: nonneg_def le_f64_def is_inf_def)

lemma nonneg_cases:
  assumes "nonneg a"
  obtains x where "a = Finite x" "0 \<le> x" | "a = PosInf"
  using assms by (cases a) (simp_all add: nonneg_def)

lemma add_f64_nonneg_eq:
  assumes "nonneg a" "nonneg b"
  shows "add_f64 a b = (if a = PosInf \<or> b = PosInf then PosInf else fl (value_of a + value_of b))"
  using assms by (cases a; cases b) (simp_all add: nonneg_def add_f64_def fl_zero)

lemma add_f64_nonneg:
  assumes "nonneg a" "nonneg b" shows "nonneg (add_f64 a b)"
proof -
  have "0 \<le> value_of a + value_of b" using assms by (simp add: value_of_nonneg)
  then have "nonneg (fl (value_of a + value_of b))" by (rule fl_nonneg(1))
  then show ?thesis by (simp add: add_f64_nonneg_eq[OF assms] nonneg_def)
qed

lemma le_f64_PosInf: "a \<noteq> NaN \<Longrightarrow> le_f64 a PosInf"
  by (simp add: le_f64_def)

lemma nonneg_not_NaN: "nonneg a \<Longrightarrow> a \<noteq> NaN"
  by (auto simp: nonneg_def)

lemma add_f64_mono:
  assumes "nonneg a" "nonneg a'" "nonneg b" "nonneg b'" "le_f64 a a'" "le_f64 b b'"
  shows "le_f64 (add_f64 a b) (add_f64 a' b')"
proof (cases "a' = PosInf \<or> b' = PosInf")
  case True
  then have "add_f64 a' b' = PosInf" using assms by (simp add: add_f64_nonneg_eq)
  then show ?thesis using nonneg_not_NaN[OF add_f64_nonneg[OF assms(1,3)]] by (simp add: le_f64_PosInf)
next
  case False
  then obtain x' y' where p: "a' = Finite x'" "b' = Finite y'" "0 \<le> x'" "0 \<le> y'"
    using assms(2,4) by (auto elim!: nonneg_cases)
  obtain x y where q: "a = Finite x" "b = Finite y" "0 \<le> x" "0 \<le> y" "x \<le> x'" "y \<le> y'"
    using assms(1,3,5,6) p by (auto elim!: nonneg_cases simp: le_f64_def is_inf_def)
  have "le_f64 (fl (x + y)) (fl (x' + y'))" using q by (intro fl_mono) simp_all
  then show ?thesis using p q assms by (simp add: add_f64_nonneg_eq)
qed

lemma recip_nonneg_eq:
  assumes "nonneg p"
  shows "div_f64 (Finite 1) p =
     (if p = PosInf then Finite 0 else if p = Finite 0 then PosInf else fl (1 / value_of p))"
  using assms
  by (cases p) (simp_all add: nonneg_def div_f64_def is_inf_def is_zero_def is_neg_def)

lemma recip_nonneg:
  assumes "nonneg p" shows "nonneg (div_f64 (Finite 1) p)"
proof -
  have "0 \<le> 1 / value_of p" using assms by (simp add: value_of_nonneg)
  then have "nonneg (fl (1 / value_of p))" by (rule fl_nonneg(1))
  then show ?thesis by (simp add: recip_nonneg_eq[OF assms] nonneg_def)
qed

lemma recip_antimono:
  assumes "nonneg p" "nonneg p'" "le_f64 p p'"
  shows "le_f64 (div_f64 (Finite 1) p') (div_f64 (Finite 1) p)"
proof (cases "p = Finite 0")
  case True
  then have "div_f64 (Finite 1) p = PosInf" by (simp add: recip_nonneg_eq nonneg_def)
  then show ?thesis using nonneg_not_NaN[OF recip_nonneg[OF assms(2)]] by (simp add: le_f64_PosInf)
next
  case False
  note np = False
  show ?thesis
  proof (cases "p' = PosInf")
    case True
    have "div_f64 (Finite 1) p' = Finite 0" using True by (simp add: recip_nonneg_eq nonneg_def)
    then show ?thesis using le_f64_zero[OF recip_nonneg[OF assms(1)]] by simp
  next
    case False
    then obtain y' where p': "p' = Finite y'" "0 \<le> y'" using assms(2) by (auto elim!: nonneg_cases)
    obtain y where y: "p = Finite y" "0 \<le> y" "y \<le> y'"
      using assms(1,3) p' by (auto elim!: nonneg_cases simp: le_f64_def is_inf_def)
    have "y \<noteq> 0" using np y(1) by simp
    then have p: "p = Finite y" "0 < y" "y \<le> y'" using y by simp_all
    have "le_f64 (fl (1 / y')) (fl (1 / y))" using p by (intro fl_mono) (simp_all add: frac_le)
    then show ?thesis using p p' by (simp add: recip_nonneg_eq nonneg_def)
  qed
qed

lemma le_f64_refl: "nonneg a \<Longrightarrow> le_f64 a a"
  by (cases a) (simp_all add: nonneg_def le_f64_def is_inf_def)

lemma small_lt_max:
  assumes "x \<le> 2 ^ 53" shows "x < power_int (2::real) max_exponent"
proof -
  have "power_int (2::real) 53 < power_int 2 max_exponent"
    by (intro power_int_strict_increasing) (simp_all add: max_exponent_def)
  then show ?thesis using assms by simp
qed

lemma fl_of_int:
  assumes "0 \<le> m" "m \<le> 2 ^ 53" shows "fl (of_int m) = Finite (of_int m)"
proof -
  have "real_of_int m \<le> 2 ^ 53" using assms(2)
    by (metis of_int_le_iff of_int_numeral of_int_power)
  then have "\<not> power_int 2 max_exponent \<le> real_of_int m" using small_lt_max by (simp add: not_le)
  then show ?thesis using assms by (simp add: fl_nonneg_eq rnd_of_int)
qed

lemma fl_one: "fl 1 = Finite 1"
  using fl_of_int[of 1] by simp

lemma one_plus_rate:
  assumes "- 1 < r"
  shows "add_f64 (Finite 1) (Finite r) = fl (1 + r)"
  using assms by (simp add: add_f64_def)

subsection \<open>The loop of the discount sum\<close>

lemma nonneg_zero: "nonneg (Finite 0)"
  by (simp add: nonneg_def)

lemma geometricSumDiscount_f64_loop_step:
  "i < n \<Longrightarrow>
     geometricSumDiscount_f64_loop pw n r s sk i acc =
       (if sk = Some (s + i) then geometricSumDiscount_f64_loop pw n r s sk (i + 1) acc
        else geometricSumDiscount_f64_loop pw n r s sk (i + 1)
               (add_f64 acc (div_f64 (Finite 1) (pw (add_f64 (Finite 1) r) (s + i)))))"
  by (subst geometricSumDiscount_f64_loop.simps) (simp add: Let_def)

lemma geometricSumDiscount_f64_loop_done:
  "\<not> i < n \<Longrightarrow> geometricSumDiscount_f64_loop pw n r s sk i acc = acc"
  by (subst geometricSumDiscount_f64_loop.simps) simp

lemma geometricSumDiscount_f64_loop_mono:
  assumes pw: "pow_monotone pw"
    and x: "nonneg (add_f64 (Finite 1) r1)" "nonneg (add_f64 (Finite 1) r2)"
      "is_double (add_f64 (Finite 1) r1)" "is_double (add_f64 (Finite 1) r2)"
      "le_f64 (add_f64 (Finite 1) r1) (add_f64 (Finite 1) r2)"
    and "1 \<le> s + i" "nonneg acc1" "nonneg acc2" "le_f64 acc2 acc1"
  shows "le_f64 (geometricSumDiscount_f64_loop pw n r2 s sk i acc2)
                (geometricSumDiscount_f64_loop pw n r1 s sk i acc1)"
  using assms(7-)
proof (induction "nat (n - i)" arbitrary: i acc1 acc2)
  case 0
  then have "\<not> i < n" by simp
  then show ?case
    using "0.prems" by (simp add: geometricSumDiscount_f64_loop_done)
next
  case (Suc m)
  then have lt: "i < n" and m: "m = nat (n - (i + 1))" by simp_all
  have k: "1 \<le> s + i" "1 \<le> s + (i + 1)" using Suc.prems(1) by simp_all
  define t1 where "t1 = div_f64 (Finite 1) (pw (add_f64 (Finite 1) r1) (s + i))"
  define t2 where "t2 = div_f64 (Finite 1) (pw (add_f64 (Finite 1) r2) (s + i))"
  have p1: "nonneg (pw (add_f64 (Finite 1) r1) (s + i))"
    and le: "le_f64 (pw (add_f64 (Finite 1) r1) (s + i)) (pw (add_f64 (Finite 1) r2) (s + i))"
    using pw x k(1) unfolding pow_monotone_def by blast+
  have p2: "nonneg (pw (add_f64 (Finite 1) r2) (s + i))"
    using pw x(2,4) le_f64_refl[OF x(2)] k(1) unfolding pow_monotone_def by blast
  have t: "nonneg t1" "nonneg t2" "le_f64 t2 t1"
    unfolding t1_def t2_def
    using recip_nonneg[OF p1] recip_nonneg[OF p2] recip_antimono[OF p1 p2 le] by simp_all
  have a: "nonneg (add_f64 acc1 t1)" "nonneg (add_f64 acc2 t2)"
    "le_f64 (add_f64 acc2 t2) (add_f64 acc1 t1)"
    using add_f64_nonneg[OF Suc.prems(2) t(1)] add_f64_nonneg[OF Suc.prems(3) t(2)]
      add_f64_mono[OF Suc.prems(3,2) t(2,1) Suc.prems(4) t(3)] by simp_all
  show ?case
  proof (cases "sk = Some (s + i)")
    case True
    then show ?thesis
      using Suc.hyps(1)[OF m k(2) Suc.prems(2,3,4)] lt
      by (simp add: geometricSumDiscount_f64_loop_step)
  next
    case False
    then show ?thesis
      using Suc.hyps(1)[OF m k(2) a] lt
      by (simp add: geometricSumDiscount_f64_loop_step t1_def t2_def)
  qed
qed

lemma geometricSumDiscount_f64_loop_zero:
  assumes "pow_exact_at_one pw" "0 \<le> i" "i \<le> n" "n \<le> 2 ^ 53"
  shows "geometricSumDiscount_f64_loop pw n (Finite 0) 1 None i (Finite (of_int i)) = Finite (of_int n)"
  using assms(2,3)
proof (induction "nat (n - i)" arbitrary: i)
  case 0
  then have "i = n" by simp
  then show ?case by (simp add: geometricSumDiscount_f64_loop_done)
next
  case (Suc m)
  then have lt: "i < n" and m: "m = nat (n - (i + 1))" by simp_all
  have x: "add_f64 (Finite 1) (Finite 0) = Finite 1" by (simp add: add_f64_def fl_one)
  have p: "pw (Finite 1) (1 + i) = Finite 1"
    using assms(1) Suc.prems(1) unfolding pow_exact_at_one_def by simp
  have d: "div_f64 (Finite 1) (Finite 1) = Finite 1"
    by (simp add: div_f64_def is_inf_def is_zero_def fl_one)
  have "real_of_int i + 1 \<noteq> 0" using Suc.prems(1) by linarith
  moreover have "fl (of_int (i + 1)) = Finite (of_int (i + 1))"
    using Suc.prems(1) lt assms(4) by (intro fl_of_int) simp_all
  ultimately have a: "add_f64 (Finite (of_int i)) (Finite 1) = Finite (of_int (i + 1))"
    by (simp add: add_f64_def add.commute)
  have "geometricSumDiscount_f64_loop pw n (Finite 0) 1 None (i + 1) (Finite (of_int (i + 1)))
      = Finite (of_int n)"
    using Suc.hyps(1)[OF m] Suc.prems(1) lt by simp
  then show ?case
    using lt by (simp add: geometricSumDiscount_f64_loop_step x p d a)
qed

subsection \<open>The correctly rounded power\<close>

lemma Math_pow_exact_at_one: "pow_exact_at_one Math_pow"
  by (simp add: pow_exact_at_one_def Math_pow_def fl_one)

lemma Math_pow_nonneg:
  assumes "nonneg a" "1 \<le> k" shows "nonneg (Math_pow a k)"
proof (cases rule: nonneg_cases[OF assms(1)])
  case (1 x)
  then have "nonneg (fl (power_int x k))" by (intro fl_nonneg(1)) simp
  then show ?thesis using 1 assms(2) by (simp add: Math_pow_def nonneg_def)
next
  case 2
  then show ?thesis using assms(2) by (simp add: Math_pow_def nonneg_def)
qed

lemma Math_pow_monotone: "pow_monotone Math_pow"
  unfolding pow_monotone_def
proof (intro allI impI conjI)
  fix a b :: f64 and k :: int
  assume h: "is_double a \<and> is_double b \<and> nonneg a \<and> nonneg b \<and> le_f64 a b \<and> 1 \<le> k"
  then have a: "nonneg a" and b: "nonneg b" and le: "le_f64 a b" and k: "1 \<le> k" by simp_all
  show "nonneg (Math_pow a k)" by (rule Math_pow_nonneg[OF a k])
  show "le_f64 (Math_pow a k) (Math_pow b k)"
  proof (cases rule: nonneg_cases[OF b])
    case 2
    then have "Math_pow b k = PosInf" using k by (simp add: Math_pow_def)
    then show ?thesis using nonneg_not_NaN[OF Math_pow_nonneg[OF a k]] by (simp add: le_f64_PosInf)
  next
    case (1 y)
    then obtain x where x: "a = Finite x" "0 \<le> x" "x \<le> y"
      using a le by (auto elim!: nonneg_cases simp: le_f64_def is_inf_def)
    show ?thesis
    proof (cases "x = 0")
      case True
      then have "Math_pow a k = Finite 0" using x k by (simp add: Math_pow_def)
      then show ?thesis using le_f64_zero[OF Math_pow_nonneg[OF b k]] by simp
    next
      case False
      then have "0 < x" "0 < y" using x by simp_all
      moreover have "le_f64 (fl (power_int x k)) (fl (power_int y k))"
        using x k by (intro fl_mono power_int_mono) simp_all
      ultimately show ?thesis using x 1 k by (simp add: Math_pow_def)
    qed
  qed
qed

lemma rnd_near_one: "rnd (1 + 1 / 2 ^ 60) = 1"
proof -
  have "rnd (1 + 1 / 2 ^ 60)
      = of_int (round_half_even ((1 + 1 / 2 ^ 60) / power_int 2 (0 - 52))) * power_int 2 (0 - 52)"
    by (rule rnd_eval) (simp_all add: min_exponent_def)
  also have "\<dots> = 1"
    by (simp add: round_half_even_def Let_def)
  finally show ?thesis .
qed

lemma rnd_two_pow_minus_60: "rnd (1 / 2 ^ 60) = 1 / 2 ^ 60"
proof -
  have "rnd (1 / 2 ^ 60)
      = of_int (round_half_even ((1 / 2 ^ 60) / power_int 2 (- 60 - 52))) * power_int 2 (- 60 - 52)"
    by (rule rnd_eval) (simp_all add: min_exponent_def)
  also have "\<dots> = 1 / 2 ^ 60"
    by (simp add: round_half_even_def Let_def)
  finally show ?thesis .
qed

subsection \<open>The discount sum as a function of the rate\<close>

lemma one_plus_tiny_rate:
  assumes "0 \<le> r" "r < 1 / 2 ^ 53"
  shows "add_f64 (Finite 1) (Finite r) = Finite 1"
proof -
  have b: "power_int 2 0 \<le> \<bar>1 + r\<bar>" "\<bar>1 + r\<bar> < power_int 2 (0 + 1)" "min_exponent \<le> 0"
    using assms by (simp_all add: min_exponent_def)
  have d: "0 \<le> r * 2 ^ 52" "r * 2 ^ 52 < 1 / 2" using assms by simp_all
  have q: "(1 + r) / power_int 2 (0 - 52) = 2 ^ 52 + r * 2 ^ 52"
    by (simp add: power_int_minus field_simps)
  have f: "\<lfloor>(2 ^ 52 + r * 2 ^ 52 :: real)\<rfloor> = 2 ^ 52"
    using d by (intro floor_unique) simp_all
  have "round_half_even (2 ^ 52 + r * 2 ^ 52) = 2 ^ 52"
    using d unfolding round_half_even_def Let_def f by simp
  then have "rnd (1 + r) = 1"
    unfolding rnd_eval[OF b] q by (simp add: power_int_minus)
  moreover have "\<not> power_int 2 max_exponent \<le> (1::real)" using small_lt_max[of 1] by simp
  ultimately show ?thesis using assms by (simp add: add_f64_def fl_nonneg_eq)
qed

text \<open>
  Claim C9, as stated, fails in the arithmetic of the program. The rate \<open>2 powi - 60\<close> is a
  double and lies above 0, yet \<open>1 + r\<close> rounds to 1 for it, so that the discount sum of one
  installment is 1 at both rates: the sum at the smaller rate is not strictly greater. (By
  \<open>one_plus_tiny_rate\<close> the same happens at every rate from 0 to below \<open>2 powi - 53\<close>.) The
  power of 1 is 1 whatever \<open>Math.pow\<close> the program runs on.
\<close>

theorem geometricSumDiscount_f64_not_strict:
  "(- 1 :: real) < 0 \<and> (0 :: real) < 1 / 2 ^ 60 \<and> is_double (Finite (1 / 2 ^ 60))
   \<and> add_f64 (Finite 1) (Finite (1 / 2 ^ 60)) = Finite 1
   \<and> geometricSumDiscount_f64 Math_pow 1 (Finite 0) 1 None = Finite 1
   \<and> geometricSumDiscount_f64 Math_pow 1 (Finite (1 / 2 ^ 60)) 1 None = Finite 1
   \<and> \<not> lt_f64 (geometricSumDiscount_f64 Math_pow 1 (Finite (1 / 2 ^ 60)) 1 None)
               (geometricSumDiscount_f64 Math_pow 1 (Finite 0) 1 None)"
proof -
  have d: "is_double (Finite (1 / 2 ^ 60))"
    using rnd_two_pow_minus_60 small_lt_max[of "1 / 2 ^ 60"] by (simp add: is_double_def)
  have "\<not> power_int 2 max_exponent \<le> (1::real)" using small_lt_max[of 1] by simp
  then have x: "add_f64 (Finite 1) (Finite (1 / 2 ^ 60)) = Finite 1"
    using rnd_near_one by (simp add: add_f64_def fl_nonneg_eq)
  have x0: "add_f64 (Finite 1) (Finite 0) = Finite 1" by (simp add: add_f64_def fl_one)
  have p: "Math_pow (Finite 1) 1 = Finite 1" by (simp add: Math_pow_def fl_one)
  have q: "div_f64 (Finite 1) (Finite 1) = Finite 1"
    by (simp add: div_f64_def is_inf_def is_zero_def fl_one)
  have a: "add_f64 (Finite 0) (Finite 1) = Finite 1" by (simp add: add_f64_def fl_one)
  have s0: "geometricSumDiscount_f64 Math_pow 1 (Finite 0) 1 None = Finite 1"
    by (simp add: geometricSumDiscount_f64_def geometricSumDiscount_f64_loop_step
          geometricSumDiscount_f64_loop_done x0 p q a)
  have s1: "geometricSumDiscount_f64 Math_pow 1 (Finite (1 / 2 ^ 60)) 1 None = Finite 1"
    using x by (simp add: geometricSumDiscount_f64_def geometricSumDiscount_f64_loop_step
          geometricSumDiscount_f64_loop_done p q a)
  show ?thesis unfolding s0 s1 using d x by (simp add: lt_f64_def)
qed

text \<open>
  Claim C9, amended. In the arithmetic of the program, for every \<open>n\<close> from 1 to \<open>2 ^ 53\<close> and
  all rates \<open>- 1 < r1 < r2\<close>, the discount sum without a skip at \<open>r1\<close> is greater than or equal
  to the sum at \<open>r2\<close>, and at rate 0 the sum is \<open>n\<close>. \<open>Math.pow\<close> is any function that, for
  exponents from 1 on, does not decrease with its base on the doubles from \<open>+0\<close> to
  \<open>+Infinity\<close> and returns 1 for the base 1; the correctly rounded power is one.
\<close>

theorem geometricSumDiscount_f64_nonincreasing:
  assumes "pow_monotone pw" and "pow_exact_at_one pw"
    and "1 \<le> n" and "n \<le> 2 ^ 53" and "- 1 < r1" and "r1 < r2"
  shows "le_f64 (geometricSumDiscount_f64 pw n (Finite r2) 1 None)
                (geometricSumDiscount_f64 pw n (Finite r1) 1 None)
       \<and> geometricSumDiscount_f64 pw n (Finite 0) 1 None = Finite (of_int n)"
proof
  have r2: "- 1 < r2" using assms(5,6) by simp
  have x1: "add_f64 (Finite 1) (Finite r1) = fl (1 + r1)" by (rule one_plus_rate[OF assms(5)])
  have x2: "add_f64 (Finite 1) (Finite r2) = fl (1 + r2)" by (rule one_plus_rate[OF r2])
  have p: "0 \<le> 1 + r1" "0 \<le> 1 + r2" "1 + r1 \<le> 1 + r2" using assms(5,6) by simp_all
  show "le_f64 (geometricSumDiscount_f64 pw n (Finite r2) 1 None)
                (geometricSumDiscount_f64 pw n (Finite r1) 1 None)"
    unfolding geometricSumDiscount_f64_def
    by (rule geometricSumDiscount_f64_loop_mono[OF assms(1)])
       (simp_all add: x1 x2 fl_nonneg[OF p(1)] fl_nonneg[OF p(2)] fl_mono[OF p(1,3)]
          nonneg_zero le_f64_refl)
  show "geometricSumDiscount_f64 pw n (Finite 0) 1 None = Finite (of_int n)"
    unfolding geometricSumDiscount_f64_def
    using geometricSumDiscount_f64_loop_zero[OF assms(2) _ _ assms(4), of 0] assms(3) by simp
qed

lemma fl_fractions: "fl (1 / 2) = Finite (1 / 2)" "fl (1 / 4) = Finite (1 / 4)"
  "fl (3 / 4) = Finite (3 / 4)"
proof -
  have "rnd (1 / 2) = of_int (round_half_even ((1 / 2) / power_int 2 (- 1 - 52))) * power_int 2 (- 1 - 52)"
    by (rule rnd_eval) (simp_all add: min_exponent_def)
  then have a: "rnd (1 / 2) = 1 / 2" by (simp add: round_half_even_def Let_def)
  have "rnd (1 / 4) = of_int (round_half_even ((1 / 4) / power_int 2 (- 2 - 52))) * power_int 2 (- 2 - 52)"
    by (rule rnd_eval) (simp_all add: min_exponent_def)
  then have b: "rnd (1 / 4) = 1 / 4" by (simp add: round_half_even_def Let_def)
  have "rnd (3 / 4) = of_int (round_half_even ((3 / 4) / power_int 2 (- 1 - 52))) * power_int 2 (- 1 - 52)"
    by (rule rnd_eval) (simp_all add: min_exponent_def)
  then have c: "rnd (3 / 4) = 3 / 4" by (simp add: round_half_even_def Let_def)
  have m: "\<not> power_int 2 max_exponent \<le> (1 / 2 :: real)" "\<not> power_int 2 max_exponent \<le> (1 / 4 :: real)"
    "\<not> power_int 2 max_exponent \<le> (3 / 4 :: real)"
    using small_lt_max[of "1 / 2"] small_lt_max[of "1 / 4"] small_lt_max[of "3 / 4"] by simp_all
  show "fl (1 / 2) = Finite (1 / 2)" "fl (1 / 4) = Finite (1 / 4)" "fl (3 / 4) = Finite (3 / 4)"
    using a b c m by (simp_all add: fl_nonneg_eq)
qed

lemma geometricSumDiscount_f64_example:
  "geometricSumDiscount_f64 Math_pow 2 (Finite 1) 1 None = Finite (3 / 4)"
proof -
  have x: "add_f64 (Finite 1) (Finite 1) = Finite 2"
    using fl_of_int[of 2] by (simp add: add_f64_def)
  have p: "Math_pow (Finite 2) 1 = Finite 2" "Math_pow (Finite 2) 2 = Finite 4"
    using fl_of_int[of 2] fl_of_int[of 4] by (simp_all add: Math_pow_def)
  have q: "div_f64 (Finite 1) (Finite 2) = Finite (1 / 2)" "div_f64 (Finite 1) (Finite 4) = Finite (1 / 4)"
    using fl_fractions by (simp_all add: div_f64_def is_inf_def is_zero_def)
  have a: "add_f64 (Finite 0) (Finite (1 / 2)) = Finite (1 / 2)"
    "add_f64 (Finite (1 / 2)) (Finite (1 / 4)) = Finite (3 / 4)"
    using fl_fractions by (simp_all add: add_f64_def)
  show ?thesis
    by (simp add: geometricSumDiscount_f64_def geometricSumDiscount_f64_loop_step
          geometricSumDiscount_f64_loop_done x p q a)
qed

theorem geometricSumDiscount_f64_nonincreasing_witness:
  "pow_monotone Math_pow \<and> pow_exact_at_one Math_pow
   \<and> (1::int) \<le> 2 \<and> (2::int) \<le> 2 ^ 53 \<and> (- 1 :: real) < 0 \<and> (0::real) < 1
   \<and> geometricSumDiscount_f64 Math_pow 2 (Finite 1) 1 None = Finite (3 / 4)
   \<and> geometricSumDiscount_f64 Math_pow 2 (Finite 0) 1 None = Finite 2
   \<and> le_f64 (geometricSumDiscount_f64 Math_pow 2 (Finite 1) 1 None)
             (geometricSumDiscount_f64 Math_pow 2 (Finite 0) 1 None)"
proof -
  have t: "le_f64 (geometricSumDiscount_f64 Math_pow 2 (Finite 1) 1 None)
               (geometricSumDiscount_f64 Math_pow 2 (Finite 0) 1 None)
      \<and> geometricSumDiscount_f64 Math_pow 2 (Finite 0) 1 None = Finite (of_int 2)"
    by (rule geometricSumDiscount_f64_nonincreasing[OF Math_pow_monotone Math_pow_exact_at_one])
       simp_all
  have "geometricSumDiscount_f64 Math_pow 2 (Finite 0) 1 None = Finite 2"
    using t[THEN conjunct2] by simp
  moreover have "(1::int) \<le> 2 \<and> (2::int) \<le> 2 ^ 53 \<and> (- 1 :: real) < 0 \<and> (0::real) < 1"
    by simp
  ultimately show ?thesis
    using t[THEN conjunct1] Math_pow_monotone Math_pow_exact_at_one
      geometricSumDiscount_f64_example
    by (intro conjI) (simp_all only:)
qed


subsection \<open>Bounds on the discount sums and on the solved installments\<close>

lemma discount_term_pos: "-1 < (r::real) \<Longrightarrow> 0 < 1 / power_int (1 + r) k"
  by simp


lemma geometricSumDiscount_skip_sum:
  "geometricSumDiscount n r 1 (Some t) =
     (\<Sum>j \<in> {0..<n} - {t - 1}. 1 / power_int (1 + r) (1 + j))"
proof -
  have "geometricSumDiscount n r 1 (Some t) =
      (\<Sum>j \<in> {0..<n}. if j \<in> {0..<n} - {t - 1} then 1 / power_int (1 + r) (1 + j) else 0)"
    unfolding geometricSumDiscount_def geometricSumDiscount_loop_sum
    by (auto intro!: sum.cong)
  also have "\<dots> = (\<Sum>j \<in> {0..<n} - {t - 1}. 1 / power_int (1 + r) (1 + j))"
    by (subst sum.inter_restrict[symmetric]) (auto intro!: sum.cong)
  finally show ?thesis .
qed

lemma card_int_range: "card {0..<n::int} = nat n"
  by simp

lemma geometricSumDiscount_pos:
  assumes "1 \<le> n" "-1 < r"
  shows "0 < geometricSumDiscount n r 1 None"
proof -
  have "{0..<n} \<noteq> {}" using assms by auto
  then show ?thesis
    unfolding geometricSumDiscount_no_skip using assms
    by (intro sum_pos) (auto simp: discount_term_pos)
qed


lemma geometricSumDiscount_skip_pos:
  assumes "1 \<le> n" "-1 < r"
  shows "0 < geometricSumDiscount (n + 1) r 1 (Some t)"
proof -
  have "0 \<in> {0..<n + 1} - {t - 1} \<or> 1 \<in> {0..<n + 1} - {t - 1}" using assms by auto
  then have "{0..<n + 1} - {t - 1} \<noteq> {}" by blast
  then show ?thesis
    unfolding geometricSumDiscount_skip_sum using assms
    by (intro sum_pos) (auto simp: discount_term_pos)
qed


lemma calculateNPV_target_pv:
  assumes "targetPv inp = Some tpv"
  shows "\<exists>res. calculateNPV inp = Inr res
     \<and> monthlyInstallment (modelA res)
         = (tpv - presentValue (downAmount inp)
                    (monthsBetween (startYear inp) (startMonth inp) (downYear inp) (downMonth inp))
                    (monthlyRate inp))
           / geometricSumDiscount (nInstallments inp) (monthlyRate inp) 1 None
     \<and> monthlyInstallment (modelB res)
         = (tpv - presentValue (downAmount inp)
                    (monthsBetween (startYear inp) (startMonth inp) (downYear inp) (downMonth inp))
                    (monthlyRate inp))
           / geometricSumDiscount (nInstallments inp + 1) (monthlyRate inp) 1
               (let t = monthsBetween (startYear inp) (startMonth inp) (downYear inp) (downMonth inp)
                in if 1 \<le> t \<and> t \<le> nInstallments inp + 1 then Some t else None)
     \<and> nominalTotal (modelA res)
         = downAmount inp + monthlyInstallment (modelA res) * real_of_int (nInstallments inp)
     \<and> nominalTotal (modelB res)
         = downAmount inp + monthlyInstallment (modelB res) * real_of_int (nInstallments inp)"
  using assms by (simp add: calculateNPV_def Let_def)




subsection \<open>Reading a schedule date back\<close>

lemma split_on_no_sep: "c \<notin> set s \<Longrightarrow> split_on c s = [s]"
  by (induction s) auto

lemma split_on_append_sep:
  "c \<notin> set a \<Longrightarrow> split_on c (a @ c # b) = a # split_on c b"
  by (induction a) auto

lemma digits_no_dash: "list_all is_digit s \<Longrightarrow> CHR ''-'' \<notin> set s"
  using dash_not_digit by (auto simp: list_all_iff)

lemma Number_string_of_nat: "Number (string_of_nat n) = Some (int n)"
  by (simp add: Number_def string_of_nat_digits nat_of_digits_string_of_nat)

lemma month_str_digits:
  assumes "1 \<le> m" "m \<le> 12"
  shows "list_all is_digit (padStart2 (string_of_int m))"
    and "nat_of_digits (padStart2 (string_of_int m)) = nat m"
proof -
  have s: "string_of_int m = string_of_nat (nat m)" using assms by (simp add: string_of_int_def)
  have z: "is_digit CHR ''0''" "digit_val CHR ''0'' = 0" by (simp_all add: is_digit_def digit_val_def)
  show "list_all is_digit (padStart2 (string_of_int m))"
    unfolding s padStart2_def using string_of_nat_digits[of "nat m"] z(1)
    by (auto simp: list_all_iff)
  have "nat_of_digits (replicate k CHR ''0'' @ w) = nat_of_digits w" for k w
    by (induction k) (simp_all add: nat_of_digits_def z(2))
  then show "nat_of_digits (padStart2 (string_of_int m)) = nat m"
    unfolding s padStart2_def by (simp add: nat_of_digits_string_of_nat)
qed

lemma entry_months_dateStr:
  assumes "1200 \<le> d" "1200 \<le> start"
  shows "entry_months start (dateStr d) = Some (d - start)"
proof -
  define Y where "Y = getFullYear d"
  define M where "M = getMonth d + 1"
  have Y: "100 \<le> Y" using assms by (simp add: Y_def getFullYear_def)
  have M: "1 \<le> M" "M \<le> 12" by (simp_all add: M_def getMonth_def)
  have ys: "string_of_int Y = string_of_nat (nat Y)" using Y by (simp add: string_of_int_def)
  have nd: "CHR ''-'' \<notin> set (string_of_nat (nat Y))"
    using digits_no_dash[OF string_of_nat_digits] .
  have md: "CHR ''-'' \<notin> set (padStart2 (string_of_int M))"
    using digits_no_dash[OF month_str_digits(1)[OF M]] .
  have "split_on CHR ''-'' (dateStr d) = [string_of_nat (nat Y), padStart2 (string_of_int M)]"
    unfolding dateStr_def Y_def[symmetric] M_def[symmetric] ys
    using split_on_append_sep[OF nd, of "padStart2 (string_of_int M)"] split_on_no_sep[OF md]
    by simp
  moreover have "Number (string_of_nat (nat Y)) = Some Y"
    using Y by (simp add: Number_string_of_nat)
  moreover have "Number (padStart2 (string_of_int M)) = Some M"
    using M month_str_digits[OF M] by (simp add: Number_def)
  ultimately have "map Number (split_on CHR ''-'' (dateStr d)) = [Some Y, Some M]"
    by simp
  moreover have "newDate Y (M - 1) = d"
    using Y by (simp add: newDate_def Y_def M_def getFullYear_def getMonth_def)
  moreover have "(d div 12 - start div 12) * 12 + (d mod 12 - start mod 12) = d - start"
    by (simp add: algebra_simps)
  ultimately show ?thesis
    by (simp add: entry_months_def Let_def getFullYear_def getMonth_def)
qed


subsection \<open>The schedules as lists of offsets\<close>

lemma next_offsets_skip_first:
  "0 < m \<Longrightarrow> next_offsets m t t = next_offsets m t (t + 1)"
  by (cases m) (simp_all add: add.commute)

lemma scheduleSkip_loop_offsets:
  "scheduleSkip_loop n t sd T paid k sched =
     sched @ map (\<lambda>j. installment_entry (sd + j) T) (next_offsets (nat (n - paid)) t k)"
proof (induction n t sd T paid k sched rule: scheduleSkip_loop.induct)
  case (1 n t sd T paid k sched)
  show ?case
  proof (cases "paid < n")
    case False
    then show ?thesis by (simp add: scheduleSkip_loop.simps)
  next
    case True
    then have pos: "0 < nat (n - paid)" by simp
    show ?thesis
    proof (cases "k = t")
      case kt: True
      have "scheduleSkip_loop n t sd T paid k sched = scheduleSkip_loop n t sd T paid (k + 1) sched"
        using True kt by (subst scheduleSkip_loop.simps) simp
      also have "\<dots> = sched @ map (\<lambda>j. installment_entry (sd + j) T) (next_offsets (nat (n - paid)) t (k + 1))"
        using "1.IH"(1)[OF True kt] .
      finally show ?thesis using kt next_offsets_skip_first[OF pos, of t] by simp
    next
      case kt: False
      have suc: "nat (n - paid) = Suc (nat (n - (paid + 1)))" using True by simp
      have "scheduleSkip_loop n t sd T paid k sched
          = scheduleSkip_loop n t sd T (paid + 1) (k + 1)
              (sched @ [installment_entry (setMonth sd (getMonth sd + k)) T])"
        using True kt by (subst scheduleSkip_loop.simps) simp
      also have "\<dots> = (sched @ [installment_entry (setMonth sd (getMonth sd + k)) T])
            @ map (\<lambda>j. installment_entry (sd + j) T) (next_offsets (nat (n - (paid + 1))) t (k + 1))"
        using "1.IH"(2)[OF True kt] .
      finally show ?thesis using kt by (simp add: suc setMonth_getMonth)
    qed
  qed
qed

lemma upto_head: "(k::int) \<le> j \<Longrightarrow> [k .. j] = k # [k + 1 .. j]"
  by (rule upto_rec1)

lemma next_offsets_after: "t < k \<Longrightarrow> next_offsets m t k = [k .. k + int m - 1]"
proof (induction m arbitrary: k)
  case 0
  then show ?case by simp
next
  case (Suc m)
  have ih: "next_offsets m t (k + 1) = [k + 1 .. k + 1 + int m - 1]"
    using Suc.prems by (intro Suc.IH) simp
  have "next_offsets (Suc m) t k = k # next_offsets m t (k + 1)" using Suc.prems by simp
  also have "\<dots> = k # [k + 1 .. k + int (Suc m) - 1]" unfolding ih by simp
  also have "\<dots> = [k .. k + int (Suc m) - 1]" by (rule upto_head[symmetric]) simp
  finally show ?case .
qed

lemma next_offsets_before: "k + int m \<le> t \<Longrightarrow> next_offsets m t k = [k .. k + int m - 1]"
proof (induction m arbitrary: k)
  case 0
  then show ?case by simp
next
  case (Suc m)
  have ih: "next_offsets m t (k + 1) = [k + 1 .. k + 1 + int m - 1]"
    using Suc.prems by (intro Suc.IH) simp
  have "next_offsets (Suc m) t k = k # next_offsets m t (k + 1)" using Suc.prems by simp
  also have "\<dots> = k # [k + 1 .. k + int (Suc m) - 1]" unfolding ih by simp
  also have "\<dots> = [k .. k + int (Suc m) - 1]" by (rule upto_head[symmetric]) simp
  finally show ?case .
qed

lemma next_offsets_around:
  "k \<le> t \<Longrightarrow> t \<le> k + int m \<Longrightarrow>
     distinct (next_offsets m t k) \<and> set (next_offsets m t k) = {k .. k + int m} - {t}"
proof (induction m arbitrary: k)
  case 0
  then have "k = t" by simp
  then show ?case by simp
next
  case (Suc m)
  show ?case
  proof (cases "k = t")
    case True
    have r: "next_offsets m t (k + 2) = [k + 2 .. k + 2 + int m - 1]"
      using True by (intro next_offsets_after) simp
    have "next_offsets (Suc m) t k = (k + 1) # [k + 2 .. k + 2 + int m - 1]"
      using True r by simp
    moreover have "set ((k + 1) # [k + 2 .. k + 2 + int m - 1]) = {k .. k + int (Suc m)} - {t}"
      using True by (simp add: set_eq_iff) presburger
    moreover have "distinct ((k + 1) # [k + 2 .. k + 2 + int m - 1])" by simp
    ultimately show ?thesis by simp
  next
    case False
    then have "k + 1 \<le> t" "t \<le> k + 1 + int m" using Suc.prems by simp_all
    from Suc.IH[OF this]
    have d: "distinct (next_offsets m t (k + 1))"
      and st: "set (next_offsets m t (k + 1)) = {k + 1 .. k + 1 + int m} - {t}" by simp_all
    have "next_offsets (Suc m) t k = k # next_offsets m t (k + 1)" using False by simp
    moreover have "k \<notin> set (next_offsets m t (k + 1))" unfolding st by simp
    moreover have "insert k ({k + 1 .. k + 1 + int m} - {t}) = {k .. k + int (Suc m)} - {t}"
      using False by (simp add: set_eq_iff) presburger
    ultimately show ?thesis using d st by simp
  qed
qed

lemma scheduleConcurrent_offsets:
  "scheduleConcurrent inp T =
     map (\<lambda>j. installment_entry (newDate (startYear inp) (startMonth inp - 1) + j) T) [1 .. nInstallments inp]"
  by (simp add: scheduleConcurrent_def Let_def setMonth_getMonth)

lemma scheduleSkip_offsets:
  "scheduleSkip inp T =
     map (\<lambda>j. installment_entry (newDate (startYear inp) (startMonth inp - 1) + j) T)
       (next_offsets (nat (nInstallments inp))
          (monthsBetween (startYear inp) (startMonth inp) (downYear inp) (downMonth inp)) 1)"
  by (simp add: scheduleSkip_def Let_def scheduleSkip_loop_offsets)

subsection \<open>The present value of a schedule\<close>

lemma pvOfSchedule_loop_None: "pvOfSchedule_loop start r es None = None"
  by (induction es) simp_all

lemma pvOfSchedule_loop_offsets:
  assumes "1200 \<le> start" "\<forall>j \<in> set js. 0 \<le> j"
  shows "pvOfSchedule_loop start r (map (\<lambda>j. installment_entry (start + j) T) js) (Some acc)
       = Some (acc + (\<Sum>j \<leftarrow> js. T / power_int (1 + r) j))"
  using assms(2)
proof (induction js arbitrary: acc)
  case Nil
  then show ?case by simp
next
  case (Cons j js)
  then have "1200 \<le> start + j" using assms(1) by simp
  then have "entry_months start (dateStr (start + j)) = Some j"
    using entry_months_dateStr[OF _ assms(1), of "start + j"] by simp
  then show ?case using Cons by (simp add: installment_entry_def presentValue_def add.assoc)
qed

subsection \<open>The present value of the returned schedules\<close>

lemma start_date_ge: "100 \<le> sy \<Longrightarrow> 1 \<le> sm \<Longrightarrow> 1200 \<le> newDate sy (sm - 1)"
  by (simp add: newDate_def)

lemma sum_list_scaled:
  "(\<Sum>j \<leftarrow> js. T / power_int (1 + r) j) = T * (\<Sum>j \<leftarrow> js. 1 / power_int (1 + (r::real)) j)"
  by (induction js) (simp_all add: algebra_simps)

lemma sum_list_upto_discount:
  "(\<Sum>j \<leftarrow> [1 .. n]. 1 / power_int (1 + r) j) = geometricSumDiscount n r 1 None"
proof -
  have "(\<Sum>j \<leftarrow> [1 .. n]. 1 / power_int (1 + r) j) = (\<Sum>j \<in> {1 .. n}. 1 / power_int (1 + r) j)"
    by (simp add: sum_list_distinct_conv_sum_set)
  also have "\<dots> = (\<Sum>j \<in> {0 ..< n}. 1 / power_int (1 + r) (1 + j))"
    by (rule sum.reindex_bij_witness[where i = "\<lambda>j. 1 + j" and j = "\<lambda>j. j - 1"]) auto
  finally show ?thesis by (simp add: geometricSumDiscount_no_skip)
qed

lemma sum_list_skip_discount:
  assumes "1 \<le> t" "t \<le> n + 1" "0 \<le> n"
  shows "(\<Sum>j \<leftarrow> next_offsets (nat n) t 1. 1 / power_int (1 + r) j)
       = geometricSumDiscount (n + 1) r 1 (Some t)"
proof -
  have d: "distinct (next_offsets (nat n) t 1)"
    and s: "set (next_offsets (nat n) t 1) = {1 .. 1 + n} - {t}"
    using next_offsets_around[of 1 t "nat n"] assms by simp_all
  have "(\<Sum>j \<leftarrow> next_offsets (nat n) t 1. 1 / power_int (1 + r) j)
      = (\<Sum>j \<in> {1 .. 1 + n} - {t}. 1 / power_int (1 + r) j)"
    using d s by (simp add: sum_list_distinct_conv_sum_set)
  also have "\<dots> = (\<Sum>j \<in> {0 ..< n + 1} - {t - 1}. 1 / power_int (1 + r) (1 + j))"
    by (rule sum.reindex_bij_witness[where i = "\<lambda>j. 1 + j" and j = "\<lambda>j. j - 1"]) auto
  finally show ?thesis by (simp add: geometricSumDiscount_skip_sum)
qed

lemma next_offsets_no_skip:
  assumes "t < 1 \<or> n + 1 < t" "0 \<le> n"
  shows "next_offsets (nat n) t 1 = [1 .. n]"
proof -
  from assms(1) show ?thesis
  proof
    assume "t < 1"
    then show ?thesis using next_offsets_after[of t 1 "nat n"] assms(2) by simp
  next
    assume "n + 1 < t"
    then show ?thesis using next_offsets_before[of 1 "nat n" t] assms(2) by simp
  qed
qed

lemma pvOfSchedule_concurrent:
  assumes "100 \<le> startYear inp" "1 \<le> startMonth inp"
  shows "pvOfSchedule (scheduleConcurrent inp T) inp
       = Some (T * geometricSumDiscount (nInstallments inp) (monthlyRate inp) 1 None)"
proof -
  have nn: "\<forall>j \<in> set [1 .. nInstallments inp]. 0 \<le> j" by simp
  have "pvOfSchedule (scheduleConcurrent inp T) inp
      = Some (0 + (\<Sum>j \<leftarrow> [1 .. nInstallments inp]. T / power_int (1 + monthlyRate inp) j))"
    unfolding pvOfSchedule_def scheduleConcurrent_offsets
    by (fact pvOfSchedule_loop_offsets[OF start_date_ge[OF assms] nn,
          where r = "monthlyRate inp" and T = T and acc = 0])
  also have "\<dots> = Some (T * geometricSumDiscount (nInstallments inp) (monthlyRate inp) 1 None)"
    by (simp only: sum_list_scaled[of T] sum_list_upto_discount add_0)
  finally show ?thesis .
qed

lemma next_offsets_ge: "j \<in> set (next_offsets m t k) \<Longrightarrow> k \<le> j"
proof (induction m arbitrary: k)
  case 0
  then show ?case by simp
next
  case (Suc m)
  then show ?case by (fastforce split: if_splits)
qed

lemma pvOfSchedule_skip:
  assumes "100 \<le> startYear inp" "1 \<le> startMonth inp"
  shows "pvOfSchedule (scheduleSkip inp T) inp
       = Some (T * (\<Sum>j \<leftarrow> next_offsets (nat (nInstallments inp))
                      (monthsBetween (startYear inp) (startMonth inp) (downYear inp) (downMonth inp)) 1.
                    1 / power_int (1 + monthlyRate inp) j))"
proof -
  define js where "js = next_offsets (nat (nInstallments inp))
          (monthsBetween (startYear inp) (startMonth inp) (downYear inp) (downMonth inp)) 1"
  have nn: "\<forall>j \<in> set js. 0 \<le> j"
  proof
    fix j assume "j \<in> set js"
    then have "1 \<le> j" unfolding js_def by (rule next_offsets_ge)
    then show "0 \<le> j" by simp
  qed
  have "pvOfSchedule (scheduleSkip inp T) inp
      = Some (0 + (\<Sum>j \<leftarrow> js. T / power_int (1 + monthlyRate inp) j))"
    unfolding pvOfSchedule_def scheduleSkip_offsets js_def[symmetric]
    by (fact pvOfSchedule_loop_offsets[OF start_date_ge[OF assms] nn,
          where r = "monthlyRate inp" and T = T and acc = 0])
  also have "\<dots> = Some (T * (\<Sum>j \<leftarrow> js. 1 / power_int (1 + monthlyRate inp) j))"
    by (simp only: sum_list_scaled[of T] add_0)
  finally show ?thesis unfolding js_def .
qed

lemma calculateNPV_target_pv_present_values:
  assumes "targetPv inp = Some tpv"
  shows "\<exists>res. calculateNPV inp = Inr res
     \<and> presentValue_fld (modelA res)
         = add_opt (downPaymentPV res) (pvOfSchedule (scheduleConcurrent inp (monthlyInstallment (modelA res))) inp)
     \<and> presentValue_fld (modelB res)
         = add_opt (downPaymentPV res) (pvOfSchedule (scheduleSkip inp (monthlyInstallment (modelB res))) inp)
     \<and> downPaymentPV res = presentValue (downAmount inp)
           (monthsBetween (startYear inp) (startMonth inp) (downYear inp) (downMonth inp)) (monthlyRate inp)"
  using assms by (simp add: calculateNPV_def Let_def)

text \<open>
  Where the target present value is reproduced, and where it is not. With a start year of at
  least 100 (a date that \<open>Date\<close> does not remap and that reads back from its string), at
  least one installment and a rate above -1 (no divisor is zero), Model A's schedule plus the
  down payment discounts back to the target for every offset of the down payment, and so does
  Model B's when the offset lies in \<open>1..n + 1\<close>. For every other offset Model B's present
  value is the down payment's plus the remaining present value scaled by the ratio of the
  discount sums over \<open>n\<close> and over \<open>n + 1\<close> offsets: it is the target only if nothing
  remains to be paid.
\<close>

lemma modelA_reproduces_target:
  assumes tpv: "targetPv inp = Some tpv" and res: "calculateNPV inp = Inr res"
    and n: "1 \<le> nInstallments inp" and r: "-1 < monthlyRate inp"
    and sd: "100 \<le> startYear inp" "1 \<le> startMonth inp"
  shows "presentValue_fld (modelA res) = Some tpv"
proof -
  define pvd where "pvd = presentValue (downAmount inp)
      (monthsBetween (startYear inp) (startMonth inp) (downYear inp) (downMonth inp)) (monthlyRate inp)"
  define SA where "SA = geometricSumDiscount (nInstallments inp) (monthlyRate inp) 1 None"
  from calculateNPV_target_pv[OF tpv] calculateNPV_target_pv_present_values[OF tpv] res
  have TA: "monthlyInstallment (modelA res) = (tpv - pvd) / SA"
    and PA: "presentValue_fld (modelA res)
         = add_opt pvd (pvOfSchedule (scheduleConcurrent inp (monthlyInstallment (modelA res))) inp)"
    unfolding pvd_def SA_def by auto
  have SApos: "0 < SA" unfolding SA_def using geometricSumDiscount_pos[OF n r] .
  have "presentValue_fld (modelA res) = Some (pvd + (tpv - pvd) / SA * SA)"
    unfolding PA pvOfSchedule_concurrent[OF sd] TA SA_def[symmetric] by (simp add: add_opt_def)
  then show ?thesis using SApos by simp
qed


lemma modelB_reproduces_target_in_range:
  assumes tpv: "targetPv inp = Some tpv" and res: "calculateNPV inp = Inr res"
    and n: "1 \<le> nInstallments inp" and r: "-1 < monthlyRate inp"
    and sd: "100 \<le> startYear inp" "1 \<le> startMonth inp"
    and t: "1 \<le> monthsBetween (startYear inp) (startMonth inp) (downYear inp) (downMonth inp)"
      "monthsBetween (startYear inp) (startMonth inp) (downYear inp) (downMonth inp) \<le> nInstallments inp + 1"
  shows "presentValue_fld (modelB res) = Some tpv"
proof -
  define tt where "tt = monthsBetween (startYear inp) (startMonth inp) (downYear inp) (downMonth inp)"
  define pvd where "pvd = presentValue (downAmount inp) tt (monthlyRate inp)"
  define SB where "SB = geometricSumDiscount (nInstallments inp + 1) (monthlyRate inp) 1 (Some tt)"
  from calculateNPV_target_pv[OF tpv] calculateNPV_target_pv_present_values[OF tpv] res t
  have TB: "monthlyInstallment (modelB res) = (tpv - pvd) / SB"
    and PB: "presentValue_fld (modelB res)
         = add_opt pvd (pvOfSchedule (scheduleSkip inp (monthlyInstallment (modelB res))) inp)"
    unfolding pvd_def SB_def tt_def Let_def by auto
  have SBpos: "0 < SB" unfolding SB_def using geometricSumDiscount_skip_pos[OF n r] .
  have sum: "(\<Sum>j \<leftarrow> next_offsets (nat (nInstallments inp)) tt 1. 1 / power_int (1 + monthlyRate inp) j) = SB"
    unfolding SB_def using sum_list_skip_discount[of tt "nInstallments inp" "monthlyRate inp"] t n
    unfolding tt_def by simp
  have "presentValue_fld (modelB res) = Some (pvd + (tpv - pvd) / SB * SB)"
    unfolding PB pvOfSchedule_skip[OF sd] tt_def[symmetric] sum TB by (simp add: add_opt_def)
  then show ?thesis using SBpos by simp
qed

lemma modelB_misses_target_out_of_range:
  assumes tpv: "targetPv inp = Some tpv" and res: "calculateNPV inp = Inr res"
    and n: "1 \<le> nInstallments inp" and r: "-1 < monthlyRate inp"
    and sd: "100 \<le> startYear inp" "1 \<le> startMonth inp"
    and t: "monthsBetween (startYear inp) (startMonth inp) (downYear inp) (downMonth inp) < 1
          \<or> nInstallments inp + 1 < monthsBetween (startYear inp) (startMonth inp) (downYear inp) (downMonth inp)"
  shows "presentValue_fld (modelB res)
           = Some (downPaymentPV res
                   + (tpv - downPaymentPV res)
                     * (geometricSumDiscount (nInstallments inp) (monthlyRate inp) 1 None
                        / geometricSumDiscount (nInstallments inp + 1) (monthlyRate inp) 1 None))"
    and "tpv \<noteq> downPaymentPV res \<Longrightarrow> presentValue_fld (modelB res) \<noteq> Some tpv"
proof -
  define tt where "tt = monthsBetween (startYear inp) (startMonth inp) (downYear inp) (downMonth inp)"
  define pvd where "pvd = presentValue (downAmount inp) tt (monthlyRate inp)"
  define SA where "SA = geometricSumDiscount (nInstallments inp) (monthlyRate inp) 1 None"
  define SN where "SN = geometricSumDiscount (nInstallments inp + 1) (monthlyRate inp) 1 None"
  have no: "\<not> (1 \<le> tt \<and> tt \<le> nInstallments inp + 1)" using t unfolding tt_def by auto
  from calculateNPV_target_pv[OF tpv] calculateNPV_target_pv_present_values[OF tpv] res
  have TB0: "monthlyInstallment (modelB res) = (tpv - pvd)
           / geometricSumDiscount (nInstallments inp + 1) (monthlyRate inp) 1
               (if 1 \<le> tt \<and> tt \<le> nInstallments inp + 1 then Some tt else None)"
    and PB: "presentValue_fld (modelB res)
         = add_opt pvd (pvOfSchedule (scheduleSkip inp (monthlyInstallment (modelB res))) inp)"
    and D: "downPaymentPV res = pvd"
    unfolding pvd_def tt_def Let_def by auto
  have TB: "monthlyInstallment (modelB res) = (tpv - pvd) / SN"
    using TB0 no unfolding SN_def by simp
  have offs: "next_offsets (nat (nInstallments inp)) tt 1 = [1 .. nInstallments inp]"
    using next_offsets_no_skip[of tt "nInstallments inp"] t n unfolding tt_def by simp
  have sum: "(\<Sum>j \<leftarrow> next_offsets (nat (nInstallments inp)) tt 1. 1 / power_int (1 + monthlyRate inp) j) = SA"
    unfolding offs SA_def by (rule sum_list_upto_discount)
  have PB': "presentValue_fld (modelB res) = Some (pvd + (tpv - pvd) / SN * SA)"
    unfolding PB pvOfSchedule_skip[OF sd] tt_def[symmetric] sum TB by (simp add: add_opt_def)
  then show "presentValue_fld (modelB res)
           = Some (downPaymentPV res
                   + (tpv - downPaymentPV res)
                     * (geometricSumDiscount (nInstallments inp) (monthlyRate inp) 1 None
                        / geometricSumDiscount (nInstallments inp + 1) (monthlyRate inp) 1 None))"
    unfolding D SA_def SN_def by simp
  assume ne: "tpv \<noteq> downPaymentPV res"
  have SNpos: "0 < SN" unfolding SN_def
    using geometricSumDiscount_pos[of "nInstallments inp + 1" "monthlyRate inp"] n r by simp
  have split: "{0..<nInstallments inp + 1} = insert (nInstallments inp) {0..<nInstallments inp}"
    using n by auto
  have "SN = SA + 1 / power_int (1 + monthlyRate inp) (1 + nInstallments inp)"
    unfolding SN_def SA_def geometricSumDiscount_no_skip split by simp
  moreover have "0 < 1 / power_int (1 + monthlyRate inp) (1 + nInstallments inp)"
    using r by simp
  ultimately have "SA < SN" by linarith
  then have ratio: "SA / SN \<noteq> 1" using SNpos by simp
  have rem: "tpv - pvd \<noteq> 0" using ne D by simp
  have "pvd + (tpv - pvd) / SN * SA \<noteq> tpv"
  proof
    assume "pvd + (tpv - pvd) / SN * SA = tpv"
    then have "(tpv - pvd) * (SA / SN) = (tpv - pvd) * 1" by (simp add: algebra_simps)
    then have "SA / SN = 1" using rem by (simp only: mult_cancel_left) simp
    with ratio show False by simp
  qed
  then show "presentValue_fld (modelB res) \<noteq> Some tpv" unfolding PB' by simp
qed

section \<open>Properties of the alternative matcher\<close>

lemma set_insert_by: "set (insert_by cmp x xs) = insert x (set xs)"
  by (induction xs) auto

lemma set_sort_by: "set (sort_by cmp xs) = set xs"
  unfolding sort_by_def by (induction xs) (simp_all add: set_insert_by)

lemma length_insert_by: "length (insert_by cmp x xs) = Suc (length xs)"
  by (induction xs) auto

lemma length_sort_by: "length (sort_by cmp xs) = length xs"
  unfolding sort_by_def by (induction xs) (simp_all add: length_insert_by)

lemma in_set_map_filter:
  "y \<in> set (List.map_filter f xs) = (\<exists>x \<in> set xs. f x = Some y)"
  by (induction xs) (auto split: option.splits)

lemma alternative_never_throws:
  "\<exists>r. calculateNPV (alternative_inputs apt d n rate dy dm sy sm) = Inr r"
  by (simp add: calculateNPV_def alternative_inputs_def Let_def)

text \<open>
  Claim C7. Whatever the catalog, the desired installment and the financing parameters are,
  \<open>findAlternativeApartments\<close> returns at most 5 properties, none of them carries the
  identifier of the current property, and for each of them the Model A installment solved in
  target-present-value mode from that property's price, with the down payment and the term
  unchanged, is strictly positive and within the tolerance of the desired installment.
\<close>

theorem findAlternativeApartments_sound:
  "length (findAlternativeApartments apartments desired down n rate dy dm sy sm current tol) \<le> 5
   \<and> (\<forall>a \<in> set (findAlternativeApartments apartments desired down n rate dy dm sy sm current tol).
         a \<in> set apartments \<and> ev_id a \<noteq> current
         \<and> (\<exists>r. calculateNPV (alternative_inputs a down n rate dy dm sy sm) = Inr r
                \<and> 0 < monthlyInstallment (modelA r)
                \<and> desired - tol \<le> monthlyInstallment (modelA r)
                \<and> monthlyInstallment (modelA r) \<le> desired + tol))"
proof (cases "find (\<lambda>apt. ev_id apt = current) apartments")
  case None
  then show ?thesis by (simp add: findAlternativeApartments_def)
next
  case (Some cur)
  define cands where "cands = List.map_filter
     (\<lambda>apt. case calculateNPV (alternative_inputs apt down n rate dy dm sy sm) of
              Inr npvResult' \<Rightarrow>
                Some \<lparr> apartment = apt,
                       calculatedInstallment = monthlyInstallment (modelA npvResult'),
                       deliveryMonths = parseDeliveryTime (teslim_suresi apt),
                       pv = bugunku_pesin_fiyat apt \<rparr>
            | Inl err \<Rightarrow> None)
     (filter (\<lambda>apt. ev_id apt \<noteq> current) apartments)"
  define matching where "matching = filter (\<lambda>item. calculatedInstallment item \<ge> desired - tol
        \<and> calculatedInstallment item \<le> desired + tol \<and> calculatedInstallment item > 0) cands"
  have res: "findAlternativeApartments apartments desired down n rate dy dm sy sm current tol
      = map apartment (take 5 (sort_by (compare_candidates desired) matching))"
    using Some by (simp add: findAlternativeApartments_def Let_def cands_def matching_def)
  have cand: "apartment c \<in> set apartments \<and> ev_id (apartment c) \<noteq> current
      \<and> calculateNPV (alternative_inputs (apartment c) down n rate dy dm sy sm) \<noteq> Inl Error_target_missing
      \<and> calculatedInstallment c
          = monthlyInstallment (modelA (projr (calculateNPV (alternative_inputs (apartment c) down n rate dy dm sy sm))))"
    if "c \<in> set cands" for c
  proof -
    from that obtain x where x: "x \<in> set apartments" "ev_id x \<noteq> current"
      and fx: "(case calculateNPV (alternative_inputs x down n rate dy dm sy sm) of
              Inr npvResult' \<Rightarrow>
                Some \<lparr> apartment = x,
                       calculatedInstallment = monthlyInstallment (modelA npvResult'),
                       deliveryMonths = parseDeliveryTime (teslim_suresi x),
                       pv = bugunku_pesin_fiyat x \<rparr>
            | Inl err \<Rightarrow> None) = Some c"
      unfolding cands_def in_set_map_filter by auto
    obtain r where r: "calculateNPV (alternative_inputs x down n rate dy dm sy sm) = Inr r"
      using alternative_never_throws by blast
    with fx have "c = \<lparr> apartment = x, calculatedInstallment = monthlyInstallment (modelA r),
                       deliveryMonths = parseDeliveryTime (teslim_suresi x),
                       pv = bugunku_pesin_fiyat x \<rparr>" by simp
    with x r show ?thesis by simp
  qed
  have len: "length (map apartment (take 5 (sort_by (compare_candidates desired) matching))) \<le> 5"
    by simp
  have mem: "\<And>a. a \<in> set (map apartment (take 5 (sort_by (compare_candidates desired) matching)))
       \<Longrightarrow> \<exists>c \<in> set matching. a = apartment c"
  proof -
    fix a assume "a \<in> set (map apartment (take 5 (sort_by (compare_candidates desired) matching)))"
    then obtain c where c: "c \<in> set (take 5 (sort_by (compare_candidates desired) matching))" "a = apartment c"
      by auto
    from c(1) have "c \<in> set (sort_by (compare_candidates desired) matching)" by (rule in_set_takeD)
    then have "c \<in> set matching" by (simp add: set_sort_by)
    with c(2) show "\<exists>c \<in> set matching. a = apartment c" by blast
  qed
  show ?thesis
  proof (intro conjI ballI)
    show "length (findAlternativeApartments apartments desired down n rate dy dm sy sm current tol) \<le> 5"
      using res len by simp
  next
    fix a assume "a \<in> set (findAlternativeApartments apartments desired down n rate dy dm sy sm current tol)"
    then obtain c where c: "c \<in> set matching" "a = apartment c" using res mem by auto
    then have cc: "c \<in> set cands" and rng: "desired - tol \<le> calculatedInstallment c"
      "calculatedInstallment c \<le> desired + tol" "0 < calculatedInstallment c"
      by (simp_all add: matching_def)
    obtain r where r: "calculateNPV (alternative_inputs a down n rate dy dm sy sm) = Inr r"
      using alternative_never_throws by blast
    from cand[OF cc] c(2) r have T: "calculatedInstallment c = monthlyInstallment (modelA r)" by simp
    show "a \<in> set apartments" using cand[OF cc] c(2) by simp
    show "ev_id a \<noteq> current" using cand[OF cc] c(2) by simp
    show "\<exists>r. calculateNPV (alternative_inputs a down n rate dy dm sy sm) = Inr r
                \<and> 0 < monthlyInstallment (modelA r)
                \<and> desired - tol \<le> monthlyInstallment (modelA r)
                \<and> monthlyInstallment (modelA r) \<le> desired + tol"
      using r rng T by auto
  qed
qed

lemmas eval_catalog = catalog_def apt_current_def apt_near_def apt_far_def

lemma findAlternativeApartments_example:
  "findAlternativeApartments catalog 260000 300000 2 2 2026 12 2026 11 ''GZP-H04-001'' 5000 = [apt_near]"
  by (simp add: findAlternativeApartments_def eval_catalog alternative_inputs_def rate_decimal_def
        eval_npv eval_str eval_parse sort_by_def compare_candidates_def power_divide)

theorem findAlternativeApartments_sound_witness:
  "findAlternativeApartments catalog 260000 300000 2 2 2026 12 2026 11 ''GZP-H04-001'' installmentTolerance_default
     = [apt_near]
   \<and> length [apt_near] \<le> 5 \<and> ev_id apt_near \<noteq> ''GZP-H04-001''
   \<and> (\<exists>r. calculateNPV (alternative_inputs apt_near 300000 2 2 2026 12 2026 11) = Inr r
          \<and> 0 < monthlyInstallment (modelA r)
          \<and> 260000 - 5000 \<le> monthlyInstallment (modelA r)
          \<and> monthlyInstallment (modelA r) \<le> 260000 + 5000)"
  using findAlternativeApartments_sound[of catalog 260000 300000 2 2 2026 12 2026 11 "''GZP-H04-001''" 5000]
  unfolding findAlternativeApartments_example installmentTolerance_default_def by simp

section \<open>Properties of the conversation engine\<close>

subsection \<open>Evaluation on concrete utterances\<close>

lemmas eval_states = now_def st_empty_def st_rate_def st_down_def st_year_def st_month_def
  st_installments_def

lemmas eval_text = trim_def toLowerCase_def toUpperCase_def lower_char_def upper_char_def
  is_space_def is_alpha_def is_alnum_def is_digit_def is_numchar_def includes_any_def
  is_greeting_def is_help_def kw_selam_basla_def kw_help_def kw_yillik_def kw_yil_def kw_aylik_def
  kw_dusuk_def

lemmas eval_parsers = parseYear_def parseMonth_def parseAmount_def parseInstallments_def
  parseInterestRate_def parseApartmentId_def parseDeliveryTime_def parseInt_def parseFloat_def
  m_digits4_def m_digits12_def m_digits_def m_number_def m_digits_ay_def m_percent_def m_evid_def
  evIdPattern_test_def monthNames_def rate_positive_def bare_rate_def nat_of_digits_def
  digit_val_def

lemmas eval_reply = reply_only_def reply_state_def reply_result_def context_after_def
  truthy_def or_else_def asserted_def find_apartment_def rate_decimal_def


subsection \<open>The down-payment step\<close>

lemma step_down_payment_small:
  assumes "parseAmount u = Some a" "a < 1000" "truthy (monthlyRate_st state)"
  shows "step_down_payment cur u state apts = reply_only Msg_down_too_small
       \<or> step_down_payment cur u state apts = reply_only Msg_down_step_apartment_already_selected"
  using assms by (simp add: step_down_payment_def)

lemma step_down_payment_no_rate:
  assumes "\<not> truthy (monthlyRate_st state)"
  shows "step_down_payment cur u state apts
     = reply_state Msg_rate_needed_first (state\<lparr> step := Some waiting_for_interest_rate \<rparr>)"
  using assms by (simp add: step_down_payment_def)

lemma step_down_payment_above_price:
  assumes "parseAmount u = Some a" "find_apartment apts (apartmentId state) = Some apt"
    "a > bugunku_pesin_fiyat apt" "truthy (monthlyRate_st state)"
  shows "newState (step_down_payment cur u state apts) = None"
  using assms by (simp add: step_down_payment_def reply_only_def)

lemma generateBotResponse_at_down_payment:
  assumes "step state = Some waiting_for_down_payment"
  shows "generateBotResponse cur u state apts =
     (if is_greeting (trim (toLowerCase u)) then
        reply_state Msg_welcome
          (state\<lparr> step := Some waiting_for_apartment, startYear_st := Some (cd_year cur),
                  startMonth_st := Some (cd_month cur) \<rparr>)
      else if is_help (trim (toLowerCase u)) then reply_only (Msg_help waiting_for_down_payment)
      else step_down_payment cur u state apts)"
  using assms by (simp add: generateBotResponse_def)

text \<open>
  Claim C10, as stated, fails: greeting and restart keywords are recognised before the step is
  looked at. The utterance "yeni 500" at the down-payment step parses to 500, below 1000, and
  the engine answers with the welcome text, not with a re-prompt, and returns a context whose
  step is the property step.
\<close>

theorem small_down_payment_restart:
  "step st_down = Some waiting_for_down_payment
   \<and> parseAmount ''yeni 500'' = Some 500 \<and> (0::real) < 500 \<and> (500::real) < 1000
   \<and> generateBotResponse now ''yeni 500'' st_down catalog
        = reply_state Msg_welcome (st_down\<lparr> step := Some waiting_for_apartment \<rparr>)
   \<and> step (context_after st_down (generateBotResponse now ''yeni 500'' st_down catalog))
        = Some waiting_for_apartment
   \<and> context_after st_down (generateBotResponse now ''yeni 500'' st_down catalog) \<noteq> st_down"
  by (simp add: generateBotResponse_def eval_states eval_text eval_reply eval_parsers eval_catalog)

text \<open>
  Claim C10, amended. At the down-payment-amount step an utterance that parses to an amount
  below 1000 is never accepted: whatever else the utterance and the context hold, the step after
  the turn is not the down-payment-year step and the down payment of the context is what it was.
  Unless the utterance is a greeting or a request for help, or the context has no rate (the
  engine then returns to the rate step), the reply is a re-prompt for the down payment with no
  updated context: the "too small" text, or the text that answers a property identifier.
\<close>

theorem small_down_payment_rejected:
  assumes "step state = Some waiting_for_down_payment"
    and "parseAmount u = Some a" and "a < 1000"
  shows "step (context_after state (generateBotResponse cur u state apts))
           \<noteq> Some waiting_for_down_payment_year
       \<and> downAmount_st (context_after state (generateBotResponse cur u state apts)) = downAmount_st state
       \<and> (\<not> is_greeting (trim (toLowerCase u)) \<and> \<not> is_help (trim (toLowerCase u))
            \<and> truthy (monthlyRate_st state) \<longrightarrow>
              generateBotResponse cur u state apts = reply_only Msg_down_too_small
              \<or> generateBotResponse cur u state apts = reply_only Msg_down_step_apartment_already_selected)"
proof (cases "truthy (monthlyRate_st state)")
  case True
  from step_down_payment_small[OF assms(2,3) True, of cur apts]
  show ?thesis
    unfolding generateBotResponse_at_down_payment[OF assms(1)]
    by (auto simp: context_after_def reply_only_def reply_state_def assms(1))
next
  case False
  show ?thesis
    unfolding generateBotResponse_at_down_payment[OF assms(1)] step_down_payment_no_rate[OF False]
    using False by (simp add: context_after_def reply_only_def reply_state_def assms(1))
qed

theorem small_down_payment_rejected_witness:
  "step st_down = Some waiting_for_down_payment \<and> parseAmount ''500 TL'' = Some 500 \<and> (500::real) < 1000
   \<and> generateBotResponse now ''500 TL'' st_down catalog = reply_only Msg_down_too_small
   \<and> step (context_after st_down (generateBotResponse now ''500 TL'' st_down catalog))
        \<noteq> Some waiting_for_down_payment_year
   \<and> downAmount_st (context_after st_down (generateBotResponse now ''500 TL'' st_down catalog)) = None"
proof -
  have h: "step st_down = Some waiting_for_down_payment" "parseAmount ''500 TL'' = Some 500"
    "(500::real) < 1000"
    by (simp_all add: eval_states eval_parsers eval_text)
  have r: "generateBotResponse now ''500 TL'' st_down catalog = reply_only Msg_down_too_small"
    by (simp add: generateBotResponse_def step_down_payment_def eval_states eval_text eval_reply
          eval_parsers)
  have "downAmount_st st_down = None" by (simp add: eval_states)
  with small_down_payment_rejected[OF h, of now catalog] h r show ?thesis by simp
qed

text \<open>
  Claim C8, as stated, fails: greeting and restart keywords are recognised before the step is
  looked at. The utterance "yeni 900000" at the down-payment step parses to 900000, more than
  the price 761670 of the selected property, and the engine answers with the welcome text and a
  context whose step is the property step: the returned context is not the one it was given.
\<close>

theorem down_payment_above_price_restart:
  "step st_down = Some waiting_for_down_payment
   \<and> find_apartment catalog (apartmentId st_down) = Some apt_current
   \<and> parseAmount ''yeni 900000'' = Some 900000
   \<and> bugunku_pesin_fiyat apt_current < 900000
   \<and> generateBotResponse now ''yeni 900000'' st_down catalog
        = reply_state Msg_welcome (st_down\<lparr> step := Some waiting_for_apartment \<rparr>)
   \<and> context_after st_down (generateBotResponse now ''yeni 900000'' st_down catalog) \<noteq> st_down"
  by (simp add: generateBotResponse_def eval_states eval_text eval_reply eval_parsers eval_catalog)

text \<open>
  Claim C8, amended. At the down-payment-amount step with a selected property, an utterance
  that parses to more than the property's price never advances the state and never records the
  amount; and when the utterance holds no greeting or restart keyword and the context has a
  rate, no updated context is returned at all: the context is unchanged.
\<close>

theorem down_payment_above_price_rejected:
  assumes "step state = Some waiting_for_down_payment"
    and "find_apartment apts (apartmentId state) = Some apt"
    and "parseAmount u = Some a" and "a > bugunku_pesin_fiyat apt"
  shows "step (context_after state (generateBotResponse cur u state apts))
           \<noteq> Some waiting_for_down_payment_year
       \<and> downAmount_st (context_after state (generateBotResponse cur u state apts)) = downAmount_st state
       \<and> (\<not> is_greeting (trim (toLowerCase u)) \<and> truthy (monthlyRate_st state) \<longrightarrow>
              newState (generateBotResponse cur u state apts) = None)"
proof (cases "truthy (monthlyRate_st state)")
  case True
  from step_down_payment_above_price[OF assms(3,2,4) True, of cur]
  show ?thesis
    unfolding generateBotResponse_at_down_payment[OF assms(1)]
    by (auto simp: context_after_def reply_only_def reply_state_def assms(1))
next
  case False
  show ?thesis
    unfolding generateBotResponse_at_down_payment[OF assms(1)] step_down_payment_no_rate[OF False]
    using False by (simp add: context_after_def reply_only_def reply_state_def assms(1))
qed

theorem down_payment_above_price_rejected_witness:
  "step st_down = Some waiting_for_down_payment
   \<and> find_apartment catalog (apartmentId st_down) = Some apt_current
   \<and> parseAmount ''900.000'' = Some 900000 \<and> bugunku_pesin_fiyat apt_current < 900000
   \<and> \<not> is_greeting (trim (toLowerCase ''900.000'')) \<and> truthy (monthlyRate_st st_down)
   \<and> generateBotResponse now ''900.000'' st_down catalog
        = reply_only (Msg_down_exceeds_price 761670 900000)
   \<and> newState (generateBotResponse now ''900.000'' st_down catalog) = None
   \<and> context_after st_down (generateBotResponse now ''900.000'' st_down catalog) = st_down"
proof -
  have h: "step st_down = Some waiting_for_down_payment"
    "find_apartment catalog (apartmentId st_down) = Some apt_current"
    "parseAmount ''900.000'' = Some 900000" "bugunku_pesin_fiyat apt_current < 900000"
    by (simp_all add: eval_states eval_parsers eval_text eval_catalog find_apartment_def)
  have g: "\<not> is_greeting (trim (toLowerCase ''900.000''))" "truthy (monthlyRate_st st_down)"
    by (simp_all add: eval_states eval_text truthy_def)
  have r: "generateBotResponse now ''900.000'' st_down catalog
        = reply_only (Msg_down_exceeds_price 761670 900000)"
    by (simp add: generateBotResponse_def step_down_payment_def eval_states eval_text eval_reply
          eval_parsers eval_catalog)
  from down_payment_above_price_rejected[OF h, of now] g
  have "newState (generateBotResponse now ''900.000'' st_down catalog) = None" by simp
  then show ?thesis using h g r by (simp add: context_after_def)
qed

subsection \<open>The rate step\<close>



lemma state_rate_decimal_percent:
  "monthlyRate_st st = Some v \<Longrightarrow> 1 < v \<Longrightarrow> state_rate_decimal st = v / 100"
  by (simp add: state_rate_decimal_def or_else_def)

lemma state_rate_decimal_fraction:
  "monthlyRate_st st = Some v \<Longrightarrow> 0 < v \<Longrightarrow> v \<le> 1 \<Longrightarrow> state_rate_decimal st = v"
  by (simp add: state_rate_decimal_def or_else_def)


lemma parseInterestRate_bare:
  assumes "parseInterestRate u = Some (r, False)" "regex_search m_percent u = None"
  shows "\<exists>num. regex_search m_number u = Some num
           \<and> parseFloat (replace_first CHR '','' CHR ''.'' num) = Some r"
  using assms
  by (auto simp: parseInterestRate_def Let_def rate_positive_def split: if_splits option.splits)








subsection \<open>Empty utterances\<close>













subsection \<open>Greeting and restart\<close>

text \<open>
  Claim C6, at a failing input. The context is at the down-payment-year step with a property,
  a rate, its unit and a down payment recorded; the utterance is "merhaba". The returned
  context has the property step, and every recorded parameter is still there.
\<close>

theorem greeting_keeps_parameters:
  "generateBotResponse now ''merhaba'' st_year catalog
     = reply_state Msg_welcome (st_year\<lparr> step := Some waiting_for_apartment \<rparr>)
   \<and> apartmentId (context_after st_year (generateBotResponse now ''merhaba'' st_year catalog))
       = Some ''GZP-H04-001''
   \<and> monthlyRate_st (context_after st_year (generateBotResponse now ''merhaba'' st_year catalog)) = Some 2
   \<and> downAmount_st (context_after st_year (generateBotResponse now ''merhaba'' st_year catalog))
       = Some 300000
   \<and> isAnnualRateSelected (context_after st_year (generateBotResponse now ''merhaba'' st_year catalog))
       = Some False"
  by (simp add: generateBotResponse_def eval_states eval_text eval_reply)

lemma greeting_changes_step_and_start_only:
  assumes "is_greeting (trim (toLowerCase u))"
  shows "generateBotResponse currentDate u state apartments
     = reply_state Msg_welcome
         (state\<lparr> step := Some waiting_for_apartment, startYear_st := Some (cd_year currentDate),
                 startMonth_st := Some (cd_month currentDate) \<rparr>)"
  using assms by (simp add: generateBotResponse_def)

text \<open>
  What the parameters kept by a greeting do to the next dialogue. In a context where the annual
  unit was chosen earlier, the user greets, picks the property again and answers the question
  for the unit with "aylik" (monthly): the engine does not record the unit but asks for the
  annual rate, and the "2" that follows is converted as an annual rate. From a new context the
  same utterances record the monthly rate 2.
\<close>

lemma restart_keeps_rate_unit:
  "map_prod monthlyRate_st (map_option message)
     (run_turns now catalog st_done_annual [''merhaba'', ''GZP-H04-001'', ''aylik''])
     = (Some 2, Some (Msg_ask_rate_value True))
   \<and> map_prod monthlyRate_st (map_option message)
     (run_turns now catalog st_done_annual [''merhaba'', ''GZP-H04-001'', ''aylik'', ''2''])
     = (Some (annualToMonthlyRate (2 / 100) * 100),
        Some (Msg_annual_rate_recorded 2 (annualToMonthlyRate (2 / 100) * 100)))
   \<and> map_prod monthlyRate_st (map_option message)
     (run_turns now catalog st_empty [''merhaba'', ''GZP-H04-001'', ''aylik'', ''2''])
     = (Some 2, Some (Msg_monthly_rate_recorded 2))"
  by (simp add: generateBotResponse_def step_apartment_def step_interest_rate_def
        st_done_annual_def eval_states eval_text eval_reply eval_parsers eval_catalog Let_def)

subsection \<open>Defaults, and a scripted dialogue\<close>












end
